theory Spec2Isabelle
  imports Complex_Main "HOL-Library.Multiset"
begin

section \<open>Progress reporter (App.tsx, PHASE_CONFIG and OptimizationProgress)\<close>

text \<open>
  \<^verbatim>\<open>PHASE_CONFIG\<close> maps a phase name to its display configuration. Only the \<^verbatim>\<open>step\<close>
  field enters a computation; label, icon, colour and description are presentation and
  are left out. The entries are in the order of the source table.
\<close>

definition PHASE_CONFIG :: "(string \<times> nat) list" where
  "PHASE_CONFIG =
    [(''idle'', 0),
     (''initializing'', 1),
     (''resolving_post'', 2),
     (''analyzing_existing'', 3),
     (''entity_gap_analysis'', 4),
     (''neuron_analysis'', 5),
     (''reference_discovery'', 6),
     (''outline_generation'', 7),
     (''section_drafts'', 8),
     (''youtube_integration'', 9),
     (''merge_content'', 10),
     (''internal_linking'', 11),
     (''qa_validation'', 12),
     (''final_polish'', 13),
     (''publishing'', 14),
     (''completed'', 15),
     (''failed'', 0)]"

definition TOTAL_STEPS :: nat where
  "TOTAL_STEPS = 15"

text \<open>
  \<^verbatim>\<open>const phaseConfig = PHASE_CONFIG[phase] || PHASE_CONFIG['idle']; const currentStep = phaseConfig.step\<close>:
  a phase that is not a key of the table falls back to the entry of \<^verbatim>\<open>idle\<close>. (A name that
  every object inherits, such as \<^verbatim>\<open>constructor\<close>, is found by the lookup of the source and
  has no step; no phase of the orchestrator is such a name, and the model is for the others.)
\<close>

definition currentStep :: "string \<Rightarrow> nat" where
  "currentStep phase =
     (case map_of PHASE_CONFIG phase of
        Some step \<Rightarrow> step
      | None \<Rightarrow> (case map_of PHASE_CONFIG ''idle'' of Some step \<Rightarrow> step | None \<Rightarrow> 0))"

text \<open>
  \<^verbatim>\<open>Math.round\<close> rounds to the nearest integer, a tie towards plus infinity. JavaScript
  numbers are doubles; the model computes in exact rationals. For the sixteen quotients
  \<open>step / 15 * 100\<close> the nearest tie is a third away, so the double and the exact value round
  alike.
\<close>

definition js_round :: "rat \<Rightarrow> int" where
  "js_round x = \<lfloor>x + 1 / 2\<rfloor>"

definition progressPercent :: "string \<Rightarrow> int" where
  "progressPercent phase = js_round ((of_nat (currentStep phase) / of_nat TOTAL_STEPS) * 100)"

definition digitChar :: "nat \<Rightarrow> char" where
  "digitChar d = ''0123456789'' ! d"

fun natToString :: "nat \<Rightarrow> string" where
  "natToString n =
     (if n < 10 then [digitChar n]
      else natToString (n div 10) @ [digitChar (n mod 10)])"

declare natToString.simps [simp del]

definition padStart2 :: "string \<Rightarrow> string" where
  "padStart2 s = replicate (2 - length s) CHR ''0'' @ s"

text \<open>
  \<^verbatim>\<open>formatTime(ms)\<close>: whole seconds, then minutes and the two-digit remainder. The argument
  is a non-negative number of milliseconds, not necessarily whole.
\<close>

definition formatTime :: "rat \<Rightarrow> string" where
  "formatTime ms =
     (let seconds = nat \<lfloor>ms / 1000\<rfloor>;
          mins = seconds div 60;
          secs = seconds mod 60
      in natToString mins @ '':'' @ padStart2 (natToString secs))"

text \<open>
  \<^verbatim>\<open>estimateRemainingTime\<close> reads the step of the displayed phase and the elapsed time in
  milliseconds (the component state \<^verbatim>\<open>elapsedTime\<close>, a difference of two clock readings).
\<close>

definition estimateRemainingTime :: "string \<Rightarrow> nat \<Rightarrow> string" where
  "estimateRemainingTime phase elapsedTime =
     (if currentStep phase = 0 \<or> elapsedTime = 0 then ''--:--''
      else
        let avgTimePerStep = (of_nat elapsedTime :: rat) / of_nat (currentStep phase);
            remainingSteps = (of_nat TOTAL_STEPS :: rat) - of_nat (currentStep phase);
            estimatedRemaining = avgTimePerStep * remainingSteps
        in formatTime estimatedRemaining)"

section \<open>Bulk input parsing (App.tsx, parseBulkUrls) and job construction\<close>

text \<open>
  A JavaScript string is a sequence of UTF-16 code units. The model uses \<^typ>\<open>string\<close>, so it
  covers the texts whose code units are below 256. In that range the regular-expression class
  \<^verbatim>\<open>\s\<close> and the characters removed by \<^verbatim>\<open>trim\<close> are the same seven: TAB, LF, VT, FF, CR,
  SPACE and NBSP.
\<close>

definition isJsSpace :: "char \<Rightarrow> bool" where
  "isJsSpace c \<longleftrightarrow>
     c \<in> set [CHR 0x09, CHR 0x0A, CHR 0x0B, CHR 0x0C, CHR 0x0D, CHR '' '', CHR 0xA0]"

text \<open>The character class \<^verbatim>\<open>[\n,\s]\<close> of the separator pattern.\<close>

definition isSeparator :: "char \<Rightarrow> bool" where
  "isSeparator c \<longleftrightarrow> c = CHR 0x0A \<or> c = CHR '','' \<or> isJsSpace c"

text \<open>
  \<^verbatim>\<open>text.split(/[\n,\s]+/)\<close>: the pieces between the maximal runs of separators. A text that
  starts or ends with a separator gives an empty first or last piece, and the empty text gives
  one empty piece, as in JavaScript.
\<close>

function splitFrom :: "string \<Rightarrow> string \<Rightarrow> string list" where
  "splitFrom cur [] = [cur]"
| "splitFrom cur (c # cs) =
     (if isSeparator c then cur # splitFrom [] (dropWhile isSeparator cs)
      else splitFrom (cur @ [c]) cs)"
  by pat_completeness auto
termination
  by (relation "measure (\<lambda>(cur, s). length s)") (auto simp: le_imp_less_Suc length_dropWhile_le)

definition splitSeparators :: "string \<Rightarrow> string list" where
  "splitSeparators text = splitFrom [] text"

definition trim :: "string \<Rightarrow> string" where
  "trim s = rev (dropWhile isJsSpace (rev (dropWhile isJsSpace s)))"

definition startsWith :: "string \<Rightarrow> string \<Rightarrow> bool" where
  "startsWith u p \<longleftrightarrow> take (length p) u = p"

text \<open>\<^verbatim>\<open>arr.indexOf(u)\<close>: the first index holding \<open>u\<close>, or \<open>-1\<close>.\<close>

fun indexOf :: "'a list \<Rightarrow> 'a \<Rightarrow> int" where
  "indexOf [] u = - 1"
| "indexOf (x # xs) u =
     (if x = u then 0 else (let r = indexOf xs u in if r < 0 then - 1 else r + 1))"

text \<open>\<^verbatim>\<open>arr.filter((u, i, arr) => arr.indexOf(u) === i)\<close>\<close>

definition filterFirstIndex :: "'a list \<Rightarrow> 'a list" where
  "filterFirstIndex arr =
     map fst (filter (\<lambda>(u, i). indexOf arr u = int i) (zip arr [0..<length arr]))"

definition parseBulkUrls :: "string \<Rightarrow> string list" where
  "parseBulkUrls text =
     filterFirstIndex (filter (\<lambda>u. startsWith u ''http'') (map trim (splitSeparators text)))"

text \<open>
  The same list by recursion: keep the head, drop its later copies. Used to reason about
  \<^const>\<open>filterFirstIndex\<close>.
\<close>

fun firsts :: "'a list \<Rightarrow> 'a list" where
  "firsts [] = []"
| "firsts (x # xs) = x # filter (\<lambda>u. u \<noteq> x) (firsts xs)"

text \<open>
  The spec's filter, ``syntactically valid absolute URLs'', written from the spec's words and
  not from the source: RFC 3986 asks of an absolute URI a scheme (a letter, then letters,
  digits, \<open>+\<close>, \<open>-\<close> or \<open>.\<close>), a colon, and a remainder. The predicate holds the part of that
  grammar which the comparison with the source needs.
\<close>

definition isAsciiAlpha :: "char \<Rightarrow> bool" where
  "isAsciiAlpha c \<longleftrightarrow> c \<in> set ''abcdefghijklmnopqrstuvwxyzABCDEFGHIJKLMNOPQRSTUVWXYZ''"

definition isSchemeChar :: "char \<Rightarrow> bool" where
  "isSchemeChar c \<longleftrightarrow> isAsciiAlpha c \<or> c \<in> set ''0123456789+-.''"

definition specValidAbsoluteUrl :: "string \<Rightarrow> bool" where
  "specValidAbsoluteUrl u \<longleftrightarrow>
     (let scheme = takeWhile (\<lambda>c. c \<noteq> CHR '':'') u;
          rest = drop (length scheme) u
      in scheme \<noteq> [] \<and> isAsciiAlpha (hd scheme) \<and> list_all isSchemeChar scheme
         \<and> take 1 rest = '':'' \<and> 1 < length rest)"

text \<open>
  \<^verbatim>\<open>BulkJob\<close> and \<^verbatim>\<open>BulkProcessingState\<close> are declared in \<^verbatim>\<open>./types\<close>; their fields are
  those the source reads and writes. The identifier \<^verbatim>\<open>bulk-${Date.now()}-${index}\<close> is modelled
  by the pair of the clock reading and the index, from which the string is built.
\<close>

datatype job_status = Queued | Running | Completed | Failed

record bulk_job =
  jobId :: "nat \<times> nat"
  jobUrl :: string
  jobStatus :: job_status
  jobProgress :: nat
  jobAttempts :: nat
  jobStartTime :: "nat option"
  jobEndTime :: "nat option"
  jobScore :: "int option"
  jobWordCount :: "int option"
  jobError :: "string option"

text \<open>
  \<^verbatim>\<open>urls.map((url, index) => ({ id: ..., url, status: 'queued', progress: 0, attempts: 0 }))\<close>;
  \<open>clock index\<close> is the reading of \<^verbatim>\<open>Date.now()\<close> when element \<open>index\<close> is built.
\<close>

definition makeJobs :: "(nat \<Rightarrow> nat) \<Rightarrow> string list \<Rightarrow> bulk_job list" where
  "makeJobs clock urls =
     map (\<lambda>(u, index).
            \<lparr>jobId = (clock index, index), jobUrl = u, jobStatus = Queued, jobProgress = 0,
             jobAttempts = 0, jobStartTime = None, jobEndTime = None, jobScore = None,
             jobWordCount = None, jobError = None\<rparr>)
         (zip urls [0..<length urls])"

section \<open>Single-job orchestration (App.tsx, executeGodMode): data\<close>

text \<open>The constants of the source. \<^verbatim>\<open>MIN_WORD_COUNT\<close> is declared and never read.\<close>

definition MIN_WORD_COUNT :: int where
  "MIN_WORD_COUNT = 3000"

definition TARGET_WORD_COUNT :: int where
  "TARGET_WORD_COUNT = 4000"

text \<open>The value every return path produces: \<^verbatim>\<open>{ success, score, wordCount, error? }\<close>.\<close>

record god_result =
  success :: bool
  score :: int
  wordCount :: int
  error :: "string option"

text \<open>The component state \<^verbatim>\<open>optimizationProgress\<close>; its field \<^verbatim>\<open>wordCount\<close> is \<open>progressWordCount\<close>.\<close>

record optimization_progress =
  isRunning :: bool
  phase :: string
  progress :: nat
  startTime :: "int option"
  currentUrl :: string
  sectionsCompleted :: nat
  totalSections :: nat
  progressWordCount :: int

text \<open>The optional third argument of \<^verbatim>\<open>updateProgress\<close>.\<close>

record progress_extras =
  extraSectionsCompleted :: "nat option"
  extraTotalSections :: "nat option"
  extraWordCount :: "int option"

text \<open>
  \<^verbatim>\<open>SitemapPage\<close>, \<^verbatim>\<open>ContentContract\<close>, \<^verbatim>\<open>StageProgress\<close> and \<^verbatim>\<open>PostPreservationData\<close> are
  declared in \<^verbatim>\<open>./types\<close>; the records hold the fields that \<^verbatim>\<open>executeGodMode\<close> reads or
  writes.
\<close>

record history_entry =
  historyTimestamp :: int
  historyScore :: int
  historyWordCount :: int
  historyQaScore :: int

record job_state =
  jobStateStatus :: string
  jobStateAttempts :: nat

record page =
  pageId :: string
  pageTitle :: string
  pageSlug :: string
  healthScore :: "int option"
  jobState :: "job_state option"
  improvementHistory :: "history_entry list"

record content_contract =
  contractTitle :: string
  htmlContent :: string
  excerpt :: string
  metaDescription :: string
  contractSlug :: string
  contractWordCount :: int

record stage_progress =
  stage :: string
  stageSectionsCompleted :: "nat option"
  stageTotalSections :: "nat option"

record post_data =
  postOriginalSlug :: "string option"
  postLink :: string
  postOriginalCategories :: "nat list"
  postOriginalTags :: "nat list"
  postFeaturedImage :: "nat option"
  postTitleRendered :: string
  postTitleRaw :: string
  postContentRendered :: string

record preservation_data =
  originalSlug :: "string option"
  originalLink :: "string option"
  originalCategories :: "nat list"
  originalTags :: "nat list"
  featuredImageId :: "nat option"

record seo_metrics =
  aeoScore :: int
  contentDepth :: int
  headingStructure :: int
  metricsWordCount :: int

record link_target =
  linkUrl :: string
  linkTitle :: string
  linkSlug :: string

text \<open>
  The argument of \<^verbatim>\<open>orchestrator.generateEnhanced\<close>. Model, provider, keys, site context and
  geo configuration are passed through unchanged and are left out.
\<close>

record synthesis_config =
  configTopic :: string
  configMode :: string
  configEntityGapData :: "string option"
  configNeuronData :: "string option"
  configExistingContent :: "string option"
  configInternalLinks :: "link_target list"
  configTargetWords :: int

text \<open>The payload of the publish call and the options of \<^verbatim>\<open>wpUpdatePost\<close>.\<close>

record publish_data =
  publishTitle :: string
  publishContent :: string
  publishExcerpt :: string
  publishStatus :: string
  categories :: "nat list option"
  tags :: "nat list option"
  featured_media :: "nat option"
  slug :: "string option"

record update_options =
  optPreserveFeaturedImage :: bool
  optPreserveSlug :: bool
  optPreserveCategories :: bool
  optPreserveTags :: bool

text \<open>
  The store (\<^verbatim>\<open>./store\<close>) is not part of the sources. Each call that changes it is recorded
  with its arguments, a partial object as the list of the fields it sets. The log lines and
  the toast of the \<^verbatim>\<open>try\<close> block, and the lines that the collaborators write through the
  \<^verbatim>\<open>log\<close> callback, are presentation and are left out; the lines and the toast of the two
  exits of a failed run (\<^verbatim>\<open>failWith\<close> and the \<^verbatim>\<open>catch\<close> block) are recorded, in a trace of their
  own (below).
\<close>

datatype job_field =
    Status string
  | Phase string
  | Error "string option"
  | Attempts nat
  | StartTime int
  | ProcessingTime int
  | EntityGapData string
  | NeuronData string
  | Contract content_contract
  | QaResults int
  | PostId nat

datatype page_field =
    PageStatus string
  | Title string
  | TargetKeyword string
  | HealthScore int
  | PageWordCount int
  | SeoMetrics seo_metrics
  | ImprovementHistory "history_entry list"
  | WpPostId nat
  | LastPublishedAt int

datatype store_write =
    AddPages "page list"
  | InitJobState string
  | UpdateJobState string "job_field list"
  | UpdatePage string "page_field list"
  | SetNeuronTerms string
  | UpdateGlobalStats int int int int

text \<open>
  The store calls of the closure \<^verbatim>\<open>log\<close>, and the toast. The texts are those of the two exits
  of a failed run. \<open>CrossMarked s\<close> is the line that \<^verbatim>\<open>failWith\<close> logs for the error \<open>s\<close>: a
  cross mark, a blank and \<open>s\<close>. \<open>FailedLine s\<close> is the line of the \<^verbatim>\<open>catch\<close> block: a collision
  mark, \<^verbatim>\<open> FAILED: \<close> and \<open>s\<close>; \<open>FailedToast s\<close> is the text of its toast: a cross mark,
  \<^verbatim>\<open> Failed: \<close> and \<open>s\<close>. A toast is recorded with its text and its kind.
\<close>

datatype log_text = CrossMarked string | FailedLine string | FailedToast string

datatype log_call =
    AddJobLog string log_text
  | AddGodLog log_text
  | AddToast log_text string

text \<open>Every call of an external collaborator, with the arguments that carry data.\<close>

datatype collaborator_call =
    CallResolvePostId string string
  | CallGetPostWithImages string nat
  | CallEntityGapAnalysis string "string option"
  | CallNeuronWriter string
  | CallGenerateEnhanced synthesis_config
  | CallUpdatePost string nat publish_data update_options
  | CallCreatePost string publish_data
  | CallUpdatePostMeta string nat string string string

text \<open>
  The points at which the run is suspended (each \<^verbatim>\<open>await\<close>), where a click on Cancel can
  be handled. \<open>AwaitGenerate k\<close> is the suspension before the \<open>k\<close>-th stage callback of the
  synthesis call, and after the last one when \<open>k\<close> is their number.
\<close>

datatype await_point =
    AwaitResolve
  | AwaitGetPost
  | AwaitEntityGap
  | AwaitNeuron
  | AwaitGenerate nat
  | AwaitPublish
  | AwaitMeta

datatype emitter = ByOrchestrator | ByCancelRequest

text \<open>
  What a run changes: the progress state, the cancellation token, and the traces of the
  progress snapshots (each result of \<^verbatim>\<open>setOptimizationProgress\<close>, with who issued it), of the
  store calls, of the collaborator calls, of the log calls and the toast of the exits of a
  failed run, and of the calls of \<^verbatim>\<open>setManualUrl\<close> (each with the value it sets).
\<close>

record world =
  optimizationProgress :: optimization_progress
  cancellationToken :: bool
  snapshots :: "(emitter \<times> optimization_progress) list"
  storeWrites :: "store_write list"
  calls :: "collaborator_call list"
  logCalls :: "log_call list"
  manualUrlWrites :: "string list"

text \<open>
  What a run reads: the component state and the store as the callback sees them, the clock,
  and the collaborators. A collaborator that throws returns \<open>Inl\<close> with the message of the
  error (empty when there is none). \<open>nowStart\<close> and \<open>nowEnd\<close> are the readings of
  \<^verbatim>\<open>Date.now()\<close> at the start of the run and when it ends. \<open>derivedTitle\<close> stands for the title
  derived from the last path segment of a URL, \<open>derivedSlug\<close> for
  \<^verbatim>\<open>sanitizeSlug(extractSlugFromUrl(url))\<close> and \<open>textContent\<close> for the text of an HTML fragment;
  \<open>generateEnhanced\<close> returns the stage reports it makes, in order, and its outcome. The
  synchronous utilities (\<open>removeAllH1Tags\<close>, \<open>countWords\<close>, \<open>runQASwarm\<close>,
  \<open>calculateSeoMetrics\<close>) are taken to return; of the result of \<open>runQASwarm\<close> only the
  score is kept.
\<close>

record env =
  manualUrl :: string
  targetKeywordOverride :: string
  optimizationMode :: string
  preserveFeaturedImage :: bool
  preserveCategories :: bool
  preserveTags :: bool
  pages :: "page list"
  keyGoogle :: string
  keyOpenrouter :: string
  keyOpenai :: string
  keyAnthropic :: string
  keyGroq :: string
  keySerper :: string
  keyNeuronwriter :: string
  keyNeuronProject :: string
  neuronEnabled :: bool
  neuronTerms :: string
  wpUrl :: string
  wpUsername :: string
  wpPassword :: string
  publishMode :: string
  statsTotalProcessed :: int
  statsTotalWordsGenerated :: int
  statsTotalImproved :: int
  nowStart :: int
  nowEnd :: int
  derivedTitle :: "string \<Rightarrow> string"
  derivedSlug :: "string \<Rightarrow> string"
  textContent :: "string \<Rightarrow> string"
  wpResolvePostIdEnhanced :: "string \<Rightarrow> string \<Rightarrow> string + nat option"
  wpGetPostWithImages :: "string \<Rightarrow> nat \<Rightarrow> string + post_data"
  performEntityGapAnalysis :: "string \<Rightarrow> string option \<Rightarrow> string + string"
  getNeuronWriterAnalysis :: "string \<Rightarrow> string + string option"
  generateEnhanced :: "synthesis_config \<Rightarrow> stage_progress list \<times> (string + content_contract)"
  removeAllH1Tags :: "string \<Rightarrow> string"
  countWords :: "string \<Rightarrow> int"
  runQASwarm :: "content_contract \<Rightarrow> string option \<Rightarrow> string \<Rightarrow> int"
  wpUpdatePost :: "string \<Rightarrow> nat \<Rightarrow> publish_data \<Rightarrow> update_options \<Rightarrow> string + nat \<times> string"
  wpCreatePost :: "string \<Rightarrow> publish_data \<Rightarrow> string + nat \<times> string"
  wpUpdatePostMeta :: "string \<Rightarrow> nat \<Rightarrow> string \<Rightarrow> string \<Rightarrow> string \<Rightarrow> string + unit"
  calculateSeoMetrics :: "string \<Rightarrow> string \<Rightarrow> string \<Rightarrow> seo_metrics"

section \<open>Single-job orchestration: operations\<close>

text \<open>JavaScript truthiness of a string, and \<^verbatim>\<open>a || b\<close> on strings.\<close>

definition truthy :: "string \<Rightarrow> bool" where
  "truthy s \<longleftrightarrow> s \<noteq> []"

definition orElse :: "string \<Rightarrow> string \<Rightarrow> string" where
  "orElse a b = (if truthy a then a else b)"

text \<open>An identifier that may be \<^verbatim>\<open>undefined\<close>: \<^verbatim>\<open>!targetId\<close> holds for it and for the empty string.\<close>

definition falsyId :: "string option \<Rightarrow> bool" where
  "falsyId t \<longleftrightarrow> (case t of None \<Rightarrow> True | Some s \<Rightarrow> \<not> truthy s)"

text \<open>A post id that may be \<^verbatim>\<open>null\<close>: \<^verbatim>\<open>if (postId)\<close> holds for a number other than 0.\<close>

definition truthyNum :: "nat option \<Rightarrow> bool" where
  "truthyNum n \<longleftrightarrow> (case n of None \<Rightarrow> False | Some k \<Rightarrow> k \<noteq> 0)"

definition setOptimizationProgress ::
  "emitter \<Rightarrow> (optimization_progress \<Rightarrow> optimization_progress) \<Rightarrow> world \<Rightarrow> world" where
  "setOptimizationProgress who f w =
     w\<lparr>optimizationProgress := f (optimizationProgress w),
       snapshots := snapshots w @ [(who, f (optimizationProgress w))]\<rparr>"

definition storeWrite :: "store_write \<Rightarrow> world \<Rightarrow> world" where
  "storeWrite x w = w\<lparr>storeWrites := storeWrites w @ [x]\<rparr>"

definition recordCall :: "collaborator_call \<Rightarrow> world \<Rightarrow> world" where
  "recordCall x w = w\<lparr>calls := calls w @ [x]\<rparr>"

definition recordLog :: "log_call \<Rightarrow> world \<Rightarrow> world" where
  "recordLog x w = w\<lparr>logCalls := logCalls w @ [x]\<rparr>"

definition setManualUrl :: "string \<Rightarrow> world \<Rightarrow> world" where
  "setManualUrl u w = w\<lparr>manualUrlWrites := manualUrlWrites w @ [u]\<rparr>"

text \<open>
  \<^verbatim>\<open>cancelCurrentJob\<close> replaces the token by a cancelled one and forces the displayed state;
  \<^verbatim>\<open>resetCancellationToken\<close> replaces it by a fresh one.
\<close>

definition cancelCurrentJob :: "world \<Rightarrow> world" where
  "cancelCurrentJob w =
     setOptimizationProgress ByCancelRequest (\<lambda>prev. prev\<lparr>isRunning := False, phase := ''failed''\<rparr>)
       (w\<lparr>cancellationToken := True\<rparr>)"

definition resetCancellationToken :: "world \<Rightarrow> world" where
  "resetCancellationToken w = w\<lparr>cancellationToken := False\<rparr>"

text \<open>A suspension of the run: a cancellation request scheduled for this point is handled.\<close>

definition awaitAt :: "(await_point \<Rightarrow> bool) \<Rightarrow> await_point \<Rightarrow> world \<Rightarrow> world" where
  "awaitAt cancelAt pt w = (if cancelAt pt then cancelCurrentJob w else w)"

definition noExtras :: progress_extras where
  "noExtras = \<lparr>extraSectionsCompleted = None, extraTotalSections = None, extraWordCount = None\<rparr>"

text \<open>\<^verbatim>\<open>setOptimizationProgress(prev => ({ ...prev, phase, ...(extras || {}) }))\<close>\<close>

definition mergeExtras :: "progress_extras \<Rightarrow> optimization_progress \<Rightarrow> optimization_progress" where
  "mergeExtras x p =
     p\<lparr>sectionsCompleted := (case extraSectionsCompleted x of None \<Rightarrow> sectionsCompleted p | Some n \<Rightarrow> n),
       totalSections := (case extraTotalSections x of None \<Rightarrow> totalSections p | Some n \<Rightarrow> n),
       progressWordCount := (case extraWordCount x of None \<Rightarrow> progressWordCount p | Some n \<Rightarrow> n)\<rparr>"

definition updateProgress :: "string \<Rightarrow> progress_extras \<Rightarrow> world \<Rightarrow> world" where
  "updateProgress ph x w =
     setOptimizationProgress ByOrchestrator (\<lambda>prev. mergeExtras x (prev\<lparr>phase := ph\<rparr>)) w"

definition failure :: "string \<Rightarrow> god_result" where
  "failure msg = \<lparr>success = False, score = 0, wordCount = 0, error = Some msg\<rparr>"

text \<open>
  The closure \<^verbatim>\<open>log\<close>: \<open>targetId\<close> is the variable of that name when the line is written,
  which may still be \<^verbatim>\<open>undefined\<close> in \<^verbatim>\<open>failWith\<close>.
\<close>

definition logLine :: "string option \<Rightarrow> bool \<Rightarrow> log_text \<Rightarrow> world \<Rightarrow> world" where
  "logLine targetId silentMode msg w =
     (let w1 = (case targetId of
                  None \<Rightarrow> w
                | Some t \<Rightarrow> if truthy t then recordLog (AddJobLog t msg) w else w)
      in if \<not> silentMode then recordLog (AddGodLog msg) w1 else w1)"

definition failWith :: "string option \<Rightarrow> bool \<Rightarrow> string \<Rightarrow> world \<Rightarrow> god_result \<times> world" where
  "failWith targetId silentMode msg w =
     (failure msg,
      setOptimizationProgress ByOrchestrator (\<lambda>prev. prev\<lparr>isRunning := False, phase := ''failed''\<rparr>)
        (logLine targetId silentMode (CrossMarked msg) w))"

definition hasRequiredKeys :: "env \<Rightarrow> bool" where
  "hasRequiredKeys e \<longleftrightarrow>
     truthy (keyGoogle e) \<or> truthy (keyOpenrouter e) \<or> truthy (keyOpenai e)
     \<or> truthy (keyAnthropic e) \<or> truthy (keyGroq e)"

definition hasNeuronConfig :: "env \<Rightarrow> bool" where
  "hasNeuronConfig e \<longleftrightarrow>
     neuronEnabled e \<and> truthy (keyNeuronwriter e) \<and> truthy (keyNeuronProject e)"

text \<open>
  The page added for a manual URL that the catalogue does not hold, and the catalogue as
  \<^verbatim>\<open>getPage\<close> reads it afterwards. Reads are served from the catalogue as it is when the run
  starts, plus that page: the run changes no field before reading it. The new page is given
  with the fields of the record; its other fields in the source are the time stamp, the
  opportunity score, the status \<^verbatim>\<open>idle\<close> and empty values.
\<close>

definition newPage :: "env \<Rightarrow> page" where
  "newPage e =
     \<lparr>pageId = manualUrl e, pageTitle = orElse (derivedTitle e (manualUrl e)) ''New Page'',
      pageSlug = derivedSlug e (manualUrl e), healthScore = None, jobState = None,
      improvementHistory = []\<rparr>"

definition usesManualUrl :: "env \<Rightarrow> string option \<Rightarrow> bool" where
  "usesManualUrl e targetOverride \<longleftrightarrow>
     falsyId targetOverride \<and> truthy (manualUrl e) \<and> startsWith (manualUrl e) ''http''"

definition addsManualPage :: "env \<Rightarrow> string option \<Rightarrow> bool" where
  "addsManualPage e targetOverride \<longleftrightarrow>
     usesManualUrl e targetOverride \<and> find (\<lambda>p. pageId p = manualUrl e) (pages e) = None"

definition livePages :: "env \<Rightarrow> string option \<Rightarrow> page list" where
  "livePages e targetOverride =
     (if addsManualPage e targetOverride then pages e @ [newPage e] else pages e)"

text \<open>
  \<^verbatim>\<open>store.pages.filter(p => p.jobState?.status !== 'running').sort((a, b) => (a.healthScore || 0) - (b.healthScore || 0))[0]?.id\<close>;
  the sort is stable.
\<close>

definition notRunning :: "page \<Rightarrow> bool" where
  "notRunning p \<longleftrightarrow> (case jobState p of None \<Rightarrow> True | Some js \<Rightarrow> jobStateStatus js \<noteq> ''running'')"

definition healthOrZero :: "page \<Rightarrow> int" where
  "healthOrZero p = (case healthScore p of None \<Rightarrow> 0 | Some h \<Rightarrow> h)"

definition firstCandidate :: "page list \<Rightarrow> string option" where
  "firstCandidate ps =
     (case sort_key healthOrZero (filter notRunning ps) of [] \<Rightarrow> None | p # _ \<Rightarrow> Some (pageId p))"

text \<open>The target of the run: the override, else the manual URL, else the weakest page.\<close>

definition resolveTarget :: "env \<Rightarrow> string option \<Rightarrow> string option" where
  "resolveTarget e targetOverride =
     (let targetId = (if usesManualUrl e targetOverride then Some (manualUrl e) else targetOverride)
      in if falsyId targetId then firstCandidate (pages e) else targetId)"

definition getPage :: "env \<Rightarrow> string option \<Rightarrow> string \<Rightarrow> page option" where
  "getPage e targetOverride targetId = find (\<lambda>p. pageId p = targetId) (livePages e targetOverride)"

text \<open>
  The message of the \<^verbatim>\<open>TypeError\<close> of \<^verbatim>\<open>getPage().title\<close> when the page is missing, in the
  wording of V8; the run only passes it on.
\<close>

definition typeErrorMessage :: string where
  "typeErrorMessage = ''Cannot read properties of undefined (reading 'title')''"

section \<open>Single-job orchestration: the phases of executeGodMode\<close>

text \<open>
  The body of the \<^verbatim>\<open>try\<close> block, phase by phase as the comments of the source divide it. A
  phase returns \<open>Inl msg\<close> where the source throws an error with message \<open>msg\<close>.
\<close>

definition emptyPreservation :: preservation_data where
  "emptyPreservation =
     \<lparr>originalSlug = None, originalLink = None, originalCategories = [], originalTags = [],
      featuredImageId = None\<rparr>"

definition resolvedId :: "nat option \<Rightarrow> nat option" where
  "resolvedId postId = (if truthyNum postId then postId else None)"

text \<open>The inner \<^verbatim>\<open>try\<close> of phase 1: a failure to fetch the post is logged and swallowed.\<close>

definition fetchExisting ::
  "env \<Rightarrow> (await_point \<Rightarrow> bool) \<Rightarrow> string \<Rightarrow> nat \<Rightarrow> string \<Rightarrow> world
   \<Rightarrow> (string \<times> string \<times> preservation_data) \<times> world" where
  "fetchExisting e cancelAt targetId k topic0 w =
     (let w1 = awaitAt cancelAt AwaitGetPost (recordCall (CallGetPostWithImages (wpUrl e) k) w)
      in case wpGetPostWithImages e (wpUrl e) k of
           Inl msg \<Rightarrow> ((topic0, [], emptyPreservation), w1)
         | Inr pd \<Rightarrow>
             (let pres =
                    \<lparr>originalSlug = postOriginalSlug pd,
                     originalLink = (if truthy (postLink pd) then Some (postLink pd) else None),
                     originalCategories = postOriginalCategories pd,
                     originalTags = postOriginalTags pd,
                     featuredImageId =
                       (case postFeaturedImage pd of
                          None \<Rightarrow> None
                        | Some i \<Rightarrow> if preserveFeaturedImage e then Some i else None)\<rparr>;
                  wpTitle = orElse (postTitleRendered pd) (orElse (postTitleRaw pd) []);
                  retitle = (truthy wpTitle \<and> 3 < length wpTitle);
                  topic = (if retitle then orElse (textContent e wpTitle) wpTitle else topic0);
                  w2 = (if retitle then storeWrite (UpdatePage targetId [Title topic]) w1 else w1)
              in ((topic, orElse (postContentRendered pd) [], pres), w2)))"

definition applyKeywordOverride :: "env \<Rightarrow> string \<Rightarrow> string \<Rightarrow> world \<Rightarrow> string \<times> world" where
  "applyKeywordOverride e targetId topic w =
     (if truthy (targetKeywordOverride e) \<and> 3 < length (trim (targetKeywordOverride e))
      then (trim (targetKeywordOverride e),
            storeWrite (UpdatePage targetId [Title (trim (targetKeywordOverride e)),
                                             TargetKeyword (trim (targetKeywordOverride e))]) w)
      else (topic, w))"

text \<open>
  PHASE 1: resolve the WordPress post. The phase starts with the progress update and the read
  of \<^verbatim>\<open>getPage().title\<close>, which throws when the page is missing; \<open>pg\<close> is the page read.
\<close>

definition enterResolve :: "string \<Rightarrow> world \<Rightarrow> world" where
  "enterResolve targetId w =
     storeWrite (UpdateJobState targetId [Phase ''resolving_post''])
       (updateProgress ''resolving_post'' noExtras w)"

definition phaseResolve ::
  "env \<Rightarrow> (await_point \<Rightarrow> bool) \<Rightarrow> string \<Rightarrow> page \<Rightarrow> world
   \<Rightarrow> (string + (string \<times> nat option \<times> string \<times> preservation_data)) \<times> world" where
  "phaseResolve e cancelAt targetId pg w =
     (let w2 = awaitAt cancelAt AwaitResolve (recordCall (CallResolvePostId (wpUrl e) targetId) w)
      in case wpResolvePostIdEnhanced e (wpUrl e) targetId of
           Inl msg \<Rightarrow> (Inl msg, w2)
         | Inr postId \<Rightarrow>
             (let ((topic, originalContent, pres), w3) =
                    (case resolvedId postId of
                       None \<Rightarrow> ((pageTitle pg, [], emptyPreservation), w2)
                     | Some k \<Rightarrow> fetchExisting e cancelAt targetId k (pageTitle pg) w2);
                  (topic', w4) = applyKeywordOverride e targetId topic w3
              in (Inr (topic', postId, originalContent, pres), w4)))"

text \<open>PHASE 2: entity gap analysis, only with a search key; its failure is swallowed.\<close>

definition phaseEntityGap ::
  "env \<Rightarrow> (await_point \<Rightarrow> bool) \<Rightarrow> string \<Rightarrow> string \<Rightarrow> string \<Rightarrow> world \<Rightarrow> string option \<times> world" where
  "phaseEntityGap e cancelAt targetId topic originalContent w =
     (if truthy (keySerper e) then
        (let existing = (if truthy originalContent then Some originalContent else None);
             w1 = awaitAt cancelAt AwaitEntityGap
                    (recordCall (CallEntityGapAnalysis topic existing)
                      (storeWrite (UpdateJobState targetId [Phase ''entity_gap_analysis''])
                        (updateProgress ''entity_gap_analysis'' noExtras w)))
         in case performEntityGapAnalysis e topic existing of
              Inl msg \<Rightarrow> (None, w1)
            | Inr d \<Rightarrow> (Some d, storeWrite (UpdateJobState targetId [EntityGapData d]) w1))
      else (None, w))"

text \<open>PHASE 3: NeuronWriter, only when configured; its failure is swallowed.\<close>

definition phaseNeuron ::
  "env \<Rightarrow> (await_point \<Rightarrow> bool) \<Rightarrow> string \<Rightarrow> string \<Rightarrow> world \<Rightarrow> string option \<times> world" where
  "phaseNeuron e cancelAt targetId topic w =
     (if hasNeuronConfig e then
        (let w1 = awaitAt cancelAt AwaitNeuron
                    (recordCall (CallNeuronWriter topic)
                      (storeWrite (UpdateJobState targetId [Phase ''neuron_analysis''])
                        (updateProgress ''neuron_analysis'' noExtras w)))
         in case getNeuronWriterAnalysis e topic of
              Inl msg \<Rightarrow> (None, w1)
            | Inr None \<Rightarrow> (None, w1)
            | Inr (Some d) \<Rightarrow>
                (Some d, storeWrite (SetNeuronTerms d) (storeWrite (UpdateJobState targetId [NeuronData d]) w1)))
      else (None, w))"

text \<open>PHASE 4: internal links, from the first 50 other pages with a title longer than 5.\<close>

definition internalLinksOf :: "env \<Rightarrow> string \<Rightarrow> link_target list" where
  "internalLinksOf e targetId =
     map (\<lambda>p. \<lparr>linkUrl = pageId p, linkTitle = pageTitle p, linkSlug = pageSlug p\<rparr>)
       (take 50 (filter (\<lambda>p. pageId p \<noteq> targetId \<and> truthy (pageTitle p) \<and> 5 < length (pageTitle p))
                   (pages e)))"

definition phaseInternalLinks :: "string \<Rightarrow> world \<Rightarrow> world" where
  "phaseInternalLinks targetId w =
     storeWrite (UpdateJobState targetId [Phase ''internal_linking''])
       (updateProgress ''internal_linking'' noExtras w)"

text \<open>PHASE 5: content synthesis. The stage callback maps the reported stage to a phase.\<close>

definition optOrZero :: "nat option \<Rightarrow> nat" where
  "optOrZero n = (case n of None \<Rightarrow> 0 | Some k \<Rightarrow> k)"

definition onStageProgress :: "stage_progress \<Rightarrow> world \<Rightarrow> world" where
  "onStageProgress sp w =
     (if stage sp = ''outline'' then updateProgress ''outline_generation'' noExtras w
      else if stage sp = ''sections'' then
        updateProgress ''section_drafts''
          (noExtras\<lparr>extraSectionsCompleted := Some (optOrZero (stageSectionsCompleted sp)),
                    extraTotalSections := Some (optOrZero (stageTotalSections sp))\<rparr>) w
      else if stage sp = ''youtube'' then updateProgress ''youtube_integration'' noExtras w
      else if stage sp = ''references'' then updateProgress ''reference_discovery'' noExtras w
      else if stage sp = ''merge'' then updateProgress ''merge_content'' noExtras w
      else if stage sp = ''polish'' then updateProgress ''final_polish'' noExtras w
      else w)"

fun stageCallbacks :: "(await_point \<Rightarrow> bool) \<Rightarrow> nat \<Rightarrow> stage_progress list \<Rightarrow> world \<Rightarrow> world" where
  "stageCallbacks cancelAt k [] w = awaitAt cancelAt (AwaitGenerate k) w"
| "stageCallbacks cancelAt k (sp # sps) w =
     stageCallbacks cancelAt (Suc k) sps (onStageProgress sp (awaitAt cancelAt (AwaitGenerate k) w))"

definition synthesisConfigOf ::
  "env \<Rightarrow> string \<Rightarrow> string \<Rightarrow> string \<Rightarrow> string option \<Rightarrow> string option \<Rightarrow> synthesis_config" where
  "synthesisConfigOf e targetId topic originalContent entityGapData neuronData =
     \<lparr>configTopic = topic,
      configMode = (if optimizationMode e = ''surgical'' then ''surgical'' else ''writer''),
      configEntityGapData = entityGapData,
      configNeuronData = neuronData,
      configExistingContent = (if truthy originalContent then Some originalContent else None),
      configInternalLinks = internalLinksOf e targetId,
      configTargetWords = TARGET_WORD_COUNT\<rparr>"

text \<open>
  The synthesis call, the post-processing and the final validation. A call that returns no
  contract makes the post-processing throw; it is an outcome \<open>Inl\<close> of the collaborator here.
\<close>

definition phaseSynthesis ::
  "env \<Rightarrow> (await_point \<Rightarrow> bool) \<Rightarrow> string \<Rightarrow> string \<Rightarrow> string \<Rightarrow> string option \<Rightarrow> string option
   \<Rightarrow> world \<Rightarrow> (string + (content_contract \<times> int \<times> int)) \<times> world" where
  "phaseSynthesis e cancelAt targetId topic originalContent entityGapData neuronData w =
     (let w1 = storeWrite (UpdateJobState targetId [Phase ''content_synthesis''])
                 (updateProgress ''outline_generation'' noExtras w);
          config = synthesisConfigOf e targetId topic originalContent entityGapData neuronData;
          w2 = stageCallbacks cancelAt 0 (fst (generateEnhanced e config))
                 (recordCall (CallGenerateEnhanced config) w1)
      in case snd (generateEnhanced e config) of
           Inl msg \<Rightarrow> (Inl msg, w2)
         | Inr rawContract \<Rightarrow>
             (let html = removeAllH1Tags e (htmlContent rawContract);
                  finalWordCount = countWords e html;
                  contract = rawContract\<lparr>htmlContent := html, contractWordCount := finalWordCount\<rparr>;
                  w3 = updateProgress ''qa_validation'' (noExtras\<lparr>extraWordCount := Some finalWordCount\<rparr>) w2;
                  w4 = storeWrite (UpdateJobState targetId [Contract contract]) w3;
                  w5 = storeWrite (UpdateJobState targetId [Phase ''qa_validation'']) w4;
                  qaScore = runQASwarm e contract entityGapData (neuronTerms e);
                  w6 = storeWrite (UpdateJobState targetId [QaResults qaScore]) w5
              in if \<not> truthy (htmlContent contract) \<or> length (htmlContent contract) < 2000
                 then (Inl ''Content generation failed: No valid content produced'', w6)
                 else (Inr (contract, qaScore, finalWordCount), w6)))"

text \<open>
  PHASE 6: publish. With a post id the post is updated, otherwise a new one is created. The
  update of the SEO metadata that follows is in a \<^verbatim>\<open>try\<close> with an empty \<^verbatim>\<open>catch\<close>: both of
  its outcomes continue alike (the source differs by a log line).
\<close>

definition basePublishData :: "env \<Rightarrow> content_contract \<Rightarrow> publish_data" where
  "basePublishData e contract =
     \<lparr>publishTitle = contractTitle contract,
      publishContent = htmlContent contract,
      publishExcerpt = orElse (excerpt contract) [],
      publishStatus = (if publishMode e = ''autopublish'' then ''publish'' else ''draft''),
      categories = None, tags = None, featured_media = None, slug = None\<rparr>"

definition updatePublishData :: "env \<Rightarrow> preservation_data \<Rightarrow> publish_data \<Rightarrow> publish_data" where
  "updatePublishData e pres pd =
     pd\<lparr>categories :=
          (if preserveCategories e \<and> 0 < length (originalCategories pres)
           then Some (originalCategories pres) else categories pd),
        tags :=
          (if preserveTags e \<and> 0 < length (originalTags pres)
           then Some (originalTags pres) else tags pd),
        featured_media :=
          (if preserveFeaturedImage e \<and> truthyNum (featuredImageId pres)
           then featuredImageId pres else featured_media pd)\<rparr>"

definition updateOptionsOf :: "env \<Rightarrow> update_options" where
  "updateOptionsOf e =
     \<lparr>optPreserveFeaturedImage = preserveFeaturedImage e, optPreserveSlug = True,
      optPreserveCategories = preserveCategories e, optPreserveTags = preserveTags e\<rparr>"

definition phasePublish ::
  "env \<Rightarrow> (await_point \<Rightarrow> bool) \<Rightarrow> string \<Rightarrow> string \<Rightarrow> nat option \<Rightarrow> preservation_data
   \<Rightarrow> content_contract \<Rightarrow> world \<Rightarrow> (string + nat) \<times> world" where
  "phasePublish e cancelAt targetId topic postId pres contract w =
     (let w1 = storeWrite (UpdateJobState targetId [Phase ''publishing''])
                 (updateProgress ''publishing'' noExtras w);
          publishData = basePublishData e contract;
          (published, w2) =
            (case resolvedId postId of
               Some k \<Rightarrow>
                 (wpUpdatePost e (wpUrl e) k (updatePublishData e pres publishData) (updateOptionsOf e),
                  awaitAt cancelAt AwaitPublish
                    (recordCall (CallUpdatePost (wpUrl e) k (updatePublishData e pres publishData)
                                   (updateOptionsOf e)) w1))
             | None \<Rightarrow>
                 (wpCreatePost e (wpUrl e) (publishData\<lparr>slug := Some (contractSlug contract)\<rparr>),
                  awaitAt cancelAt AwaitPublish
                    (recordCall (CallCreatePost (wpUrl e)
                                   (publishData\<lparr>slug := Some (contractSlug contract)\<rparr>)) w1)))
      in case published of
           Inl msg \<Rightarrow> (Inl msg, w2)
         | Inr (finalPostId, finalPostLink) \<Rightarrow>
             (let w3 = awaitAt cancelAt AwaitMeta
                         (recordCall (CallUpdatePostMeta (wpUrl e) finalPostId (contractTitle contract)
                                        (metaDescription contract) topic)
                           (storeWrite (UpdateJobState targetId [PostId finalPostId]) w2))
              in case wpUpdatePostMeta e (wpUrl e) finalPostId (contractTitle contract)
                        (metaDescription contract) topic of
                   Inl msg \<Rightarrow> (Inr finalPostId, w3)
                 | Inr u \<Rightarrow> (Inr finalPostId, w3)))"

text \<open>
  PHASE 7: completion. The final score is the rounded blend
  \<open>0.25 * aeo + 0.45 * qa + 0.15 * depth + 0.15 * headings\<close>, in exact arithmetic here; where
  the exact blend is a half, the sum of doubles of the source can fall below it and round
  downwards (for 54, 54, 1 and 77 the source gives 49, the exact blend 50).
  \<open>pg\<close> is the page of the target, which \<^verbatim>\<open>getPage()\<close> reads again for its history.
\<close>

definition finalScoreOf :: "seo_metrics \<Rightarrow> int \<Rightarrow> int" where
  "finalScoreOf m qa =
     js_round (of_int (aeoScore m) * (25 / 100) + of_int qa * (45 / 100)
               + of_int (contentDepth m) * (15 / 100) + of_int (headingStructure m) * (15 / 100))"

definition phaseComplete ::
  "env \<Rightarrow> string \<Rightarrow> page \<Rightarrow> string \<Rightarrow> string option \<Rightarrow> content_contract \<Rightarrow> int \<Rightarrow> nat
   \<Rightarrow> world \<Rightarrow> god_result \<times> world" where
  "phaseComplete e targetId pg topic entityGapData contract bestWordCount finalPostId w =
     (let w1 = storeWrite (UpdateJobState targetId [Phase ''completed''])
                 (updateProgress ''completed'' (noExtras\<lparr>extraWordCount := Some bestWordCount\<rparr>) w);
          metrics = calculateSeoMetrics e (htmlContent contract)
                      (orElse (contractTitle contract) topic) (orElse (contractSlug contract) []);
          finalQA = runQASwarm e contract entityGapData (neuronTerms e);
          finalScore = finalScoreOf metrics finalQA;
          processingTime = nowEnd e - nowStart e;
          w2 = storeWrite (UpdateJobState targetId [Status ''completed'', ProcessingTime processingTime]) w1;
          history = improvementHistory pg;
          w3 = storeWrite
                 (UpdatePage targetId
                    [PageStatus ''analyzed'', HealthScore finalScore,
                     PageWordCount (metricsWordCount metrics), SeoMetrics metrics,
                     ImprovementHistory
                       (history @ [\<lparr>historyTimestamp = nowEnd e, historyScore = finalScore,
                                    historyWordCount = metricsWordCount metrics,
                                    historyQaScore = finalQA\<rparr>]),
                     WpPostId finalPostId, LastPublishedAt (nowEnd e)]) w2;
          w4 = storeWrite
                 (UpdateGlobalStats (statsTotalProcessed e + 1)
                    (statsTotalWordsGenerated e + metricsWordCount metrics)
                    processingTime
                    (statsTotalImproved e + (if 70 \<le> finalScore then 1 else 0))) w3;
          w5 = setOptimizationProgress ByOrchestrator (\<lambda>prev. prev\<lparr>isRunning := False\<rparr>) w4
      in (\<lparr>success = True, score = finalScore, wordCount = metricsWordCount metrics, error = None\<rparr>,
          w5))"

text \<open>The \<^verbatim>\<open>catch\<close> block.\<close>

definition handleFailure ::
  "env \<Rightarrow> bool \<Rightarrow> string \<Rightarrow> string \<Rightarrow> world \<Rightarrow> god_result \<times> world" where
  "handleFailure e silentMode targetId msg w =
     (let processingTime = nowEnd e - nowStart e;
          errorMessage = orElse msg ''Unknown error'';
          w1 = storeWrite (UpdateJobState targetId
                 [Status ''failed'', Phase ''failed'', Error (Some errorMessage),
                  ProcessingTime processingTime]) w;
          w2 = storeWrite (UpdatePage targetId [PageStatus ''error'']) w1;
          w3 = setOptimizationProgress ByOrchestrator
                 (\<lambda>prev. prev\<lparr>isRunning := False, phase := ''failed''\<rparr>) w2;
          w4 = logLine (Some targetId) silentMode (FailedLine errorMessage) w3;
          w5 = (if \<not> silentMode then recordLog (AddToast (FailedToast errorMessage) ''error'') w4
                else w4)
      in (failure errorMessage, w5))"

text \<open>The \<^verbatim>\<open>try\<close> block: the phases in sequence, the first error ends it.\<close>

definition pipeline ::
  "env \<Rightarrow> (await_point \<Rightarrow> bool) \<Rightarrow> string option \<Rightarrow> string \<Rightarrow> world
   \<Rightarrow> (string + god_result) \<times> world" where
  "pipeline e cancelAt targetOverride targetId w =
     (case getPage e targetOverride targetId of
        None \<Rightarrow> (Inl typeErrorMessage, enterResolve targetId w)
      | Some pg \<Rightarrow>
          (case phaseResolve e cancelAt targetId pg (enterResolve targetId w) of
             (Inl msg, w1) \<Rightarrow> (Inl msg, w1)
           | (Inr (topic, postId, originalContent, pres), w1) \<Rightarrow>
               (let (entityGapData, w2) = phaseEntityGap e cancelAt targetId topic originalContent w1;
                    (neuronData, w3) = phaseNeuron e cancelAt targetId topic w2;
                    w4 = phaseInternalLinks targetId w3
                in case phaseSynthesis e cancelAt targetId topic originalContent entityGapData
                          neuronData w4 of
                     (Inl msg, w5) \<Rightarrow> (Inl msg, w5)
                   | (Inr (contract, bestScore, bestWordCount), w5) \<Rightarrow>
                       (case phasePublish e cancelAt targetId topic postId pres contract w5 of
                          (Inl msg, w6) \<Rightarrow> (Inl msg, w6)
                        | (Inr finalPostId, w6) \<Rightarrow>
                            (let (r, w7) = phaseComplete e targetId pg topic entityGapData contract
                                             bestWordCount finalPostId w6
                             in (Inr r, w7))))))"

text \<open>The part of the run after the guards: job state initialisation, then \<^verbatim>\<open>try\<close> and \<^verbatim>\<open>catch\<close>.\<close>

definition attemptsOf :: "page option \<Rightarrow> nat" where
  "attemptsOf pg =
     (case pg of
        None \<Rightarrow> 0
      | Some p \<Rightarrow> (case jobState p of None \<Rightarrow> 0 | Some js \<Rightarrow> jobStateAttempts js))"

definition hasJobState :: "page option \<Rightarrow> bool" where
  "hasJobState pg \<longleftrightarrow> (case pg of None \<Rightarrow> False | Some p \<Rightarrow> jobState p \<noteq> None)"

definition startJob :: "env \<Rightarrow> string option \<Rightarrow> string \<Rightarrow> world \<Rightarrow> world" where
  "startJob e targetOverride targetId w =
     (let w1 = setOptimizationProgress ByOrchestrator (\<lambda>prev. prev\<lparr>currentUrl := targetId\<rparr>) w;
          pg = getPage e targetOverride targetId;
          w2 = (if \<not> hasJobState pg then storeWrite (InitJobState targetId) w1 else w1);
          w3 = storeWrite
                 (UpdateJobState targetId
                    [Status ''running'', Phase ''initializing'', Error None,
                     Attempts (attemptsOf pg + 1), StartTime (nowStart e)]) w2
      in storeWrite (UpdatePage targetId [PageStatus ''analyzing'']) w3)"

definition runJob ::
  "env \<Rightarrow> (await_point \<Rightarrow> bool) \<Rightarrow> string option \<Rightarrow> bool \<Rightarrow> string \<Rightarrow> world
   \<Rightarrow> god_result \<times> world" where
  "runJob e cancelAt targetOverride silentMode targetId w =
     (case pipeline e cancelAt targetOverride targetId (startJob e targetOverride targetId w) of
        (Inr r, w1) \<Rightarrow> (r, w1)
      | (Inl msg, w1) \<Rightarrow> handleFailure e silentMode targetId msg w1)"

text \<open>
  The block under \<^verbatim>\<open>Handle manual URL\<close>: the page of a manual URL that the catalogue lacks is
  added, and the input field is cleared unless the run is silent.
\<close>

definition handleManualUrl :: "env \<Rightarrow> string option \<Rightarrow> bool \<Rightarrow> world \<Rightarrow> world" where
  "handleManualUrl e targetOverride silentMode w =
     (if usesManualUrl e targetOverride then
        (let w1 = (if addsManualPage e targetOverride then storeWrite (AddPages [newPage e]) w
                   else w)
         in if \<not> silentMode then setManualUrl [] w1 else w1)
      else w)"

text \<open>
  \<^verbatim>\<open>executeGodMode(targetOverride, silentMode)\<close>. After the guards \<open>silentMode\<close> only selects
  where log lines go and whether the toast is shown.
\<close>

definition initialProgress :: "env \<Rightarrow> string option \<Rightarrow> optimization_progress" where
  "initialProgress e targetOverride =
     \<lparr>isRunning = True, phase = ''initializing'', progress = 0, startTime = Some (nowStart e),
      currentUrl = (if falsyId targetOverride then orElse (manualUrl e) []
                    else (case targetOverride of Some t \<Rightarrow> t | None \<Rightarrow> [])),
      sectionsCompleted = 0, totalSections = 0, progressWordCount = 0\<rparr>"

definition executeGodMode ::
  "env \<Rightarrow> (await_point \<Rightarrow> bool) \<Rightarrow> string option \<Rightarrow> bool \<Rightarrow> world \<Rightarrow> god_result \<times> world" where
  "executeGodMode e cancelAt targetOverride silentMode w =
     (let w1 = setOptimizationProgress ByOrchestrator (\<lambda>prev. initialProgress e targetOverride)
                 (resetCancellationToken w);
          w2 = handleManualUrl e targetOverride silentMode w1
      in case resolveTarget e targetOverride of
           None \<Rightarrow> failWith None silentMode ''No pages to optimize'' w2
         | Some targetId \<Rightarrow>
             if \<not> truthy targetId then failWith (Some targetId) silentMode ''No pages to optimize'' w2
             else if \<not> hasRequiredKeys e
               then failWith (Some targetId) silentMode ''No AI API key configured'' w2
             else if \<not> truthy (wpUrl e)
               then failWith (Some targetId) silentMode ''WordPress URL not configured'' w2
             else if \<not> truthy (wpUsername e) \<or> \<not> truthy (wpPassword e)
               then failWith (Some targetId) silentMode ''WordPress credentials not configured'' w2
             else runJob e cancelAt targetOverride silentMode targetId w2)"

text \<open>A run from a fresh trace: the progress state and the token are those left by earlier runs.\<close>

definition freshWorld :: "optimization_progress \<Rightarrow> bool \<Rightarrow> world" where
  "freshWorld p tok =
     \<lparr>optimizationProgress = p, cancellationToken = tok, snapshots = [], storeWrites = [], calls = [],
      logCalls = [], manualUrlWrites = []\<rparr>"

definition idleProgress :: optimization_progress where
  "idleProgress =
     \<lparr>isRunning = False, phase = ''idle'', progress = 0, startTime = None, currentUrl = [],
      sectionsCompleted = 0, totalSections = 0, progressWordCount = 0\<rparr>"

definition noCancel :: "await_point \<Rightarrow> bool" where
  "noCancel pt = False"

text \<open>The four guards of \<^verbatim>\<open>executeGodMode\<close> taken together: the run goes on to \<^verbatim>\<open>try\<close>.\<close>

definition guardsPass :: "env \<Rightarrow> string option \<Rightarrow> bool" where
  "guardsPass e targetOverride \<longleftrightarrow>
     (case resolveTarget e targetOverride of
        None \<Rightarrow> False
      | Some targetId \<Rightarrow>
          truthy targetId \<and> hasRequiredKeys e \<and> truthy (wpUrl e) \<and> truthy (wpUsername e)
          \<and> truthy (wpPassword e))"

section \<open>Observations of a run\<close>

text \<open>The phases of the snapshots that the orchestrator issued, and their step indices.\<close>

definition phaseSequence :: "world \<Rightarrow> string list" where
  "phaseSequence w = map (\<lambda>s. phase (snd s)) (filter (\<lambda>s. fst s = ByOrchestrator) (snapshots w))"

definition stepSequence :: "world \<Rightarrow> nat list" where
  "stepSequence w = map currentStep (phaseSequence w)"

text \<open>The fields of the progress state other than \<open>isRunning\<close> and \<open>phase\<close>.\<close>

definition restOfProgress ::
  "world \<Rightarrow> nat \<times> int option \<times> string \<times> nat \<times> nat \<times> int" where
  "restOfProgress w =
     (progress (optimizationProgress w), startTime (optimizationProgress w),
      currentUrl (optimizationProgress w), sectionsCompleted (optimizationProgress w),
      totalSections (optimizationProgress w), progressWordCount (optimizationProgress w))"

text \<open>Two worlds that differ at most in what a cancellation request changes.\<close>

definition sameView :: "world \<Rightarrow> world \<Rightarrow> bool" where
  "sameView w w' \<longleftrightarrow>
     phaseSequence w = phaseSequence w' \<and> storeWrites w = storeWrites w' \<and> calls w = calls w'
     \<and> restOfProgress w = restOfProgress w'"

text \<open>The phases written to the job state of any target, in order.\<close>

fun phasesOfFields :: "job_field list \<Rightarrow> string list" where
  "phasesOfFields [] = []"
| "phasesOfFields (Phase ph # fs) = ph # phasesOfFields fs"
| "phasesOfFields (f # fs) = phasesOfFields fs"

fun phasesOfWrite :: "store_write \<Rightarrow> string list" where
  "phasesOfWrite (UpdateJobState t fs) = phasesOfFields fs"
| "phasesOfWrite x = []"

definition jobPhaseHistory :: "world \<Rightarrow> string list" where
  "jobPhaseHistory w = concat (map phasesOfWrite (storeWrites w))"

fun isJobStateWrite :: "store_write \<Rightarrow> bool" where
  "isJobStateWrite (InitJobState t) = True"
| "isJobStateWrite (UpdateJobState t fs) = True"
| "isJobStateWrite x = False"

fun isPublishCall :: "collaborator_call \<Rightarrow> bool" where
  "isPublishCall (CallUpdatePost site k d opts) = True"
| "isPublishCall (CallCreatePost site d) = True"
| "isPublishCall x = False"

fun generateConfigs :: "collaborator_call list \<Rightarrow> synthesis_config list" where
  "generateConfigs [] = []"
| "generateConfigs (CallGenerateEnhanced config # cs) = config # generateConfigs cs"
| "generateConfigs (c # cs) = generateConfigs cs"

text \<open>Publishing is reached when its phase was issued or a publish call was made.\<close>

definition publishingReached :: "world \<Rightarrow> bool" where
  "publishingReached w \<longleftrightarrow>
     ''publishing'' \<in> set (phaseSequence w) \<or> (\<exists>c \<in> set (calls w). isPublishCall c)"

text \<open>
  The error with which the step of a collaborator call leaves the \<^verbatim>\<open>try\<close> block, if it does:
  the error that the resolver, the synthesis or a publishing call throws, and for the
  synthesis call also the rejection of the content that it returned (the final validation).
  The errors of the other calls are caught where the calls are made.
\<close>

definition contentRejected :: "env \<Rightarrow> content_contract \<Rightarrow> bool" where
  "contentRejected e raw \<longleftrightarrow>
     \<not> truthy (removeAllH1Tags e (htmlContent raw))
     \<or> length (removeAllH1Tags e (htmlContent raw)) < 2000"

fun stepError :: "env \<Rightarrow> collaborator_call \<Rightarrow> string option" where
  "stepError e (CallResolvePostId site t) =
     (case wpResolvePostIdEnhanced e site t of Inl m \<Rightarrow> Some m | Inr k \<Rightarrow> None)"
| "stepError e (CallGenerateEnhanced config) =
     (case snd (generateEnhanced e config) of
        Inl m \<Rightarrow> Some m
      | Inr raw \<Rightarrow>
          if contentRejected e raw
          then Some ''Content generation failed: No valid content produced'' else None)"
| "stepError e (CallUpdatePost site k d opts) =
     (case wpUpdatePost e site k d opts of Inl m \<Rightarrow> Some m | Inr x \<Rightarrow> None)"
| "stepError e (CallCreatePost site d) =
     (case wpCreatePost e site d of Inl m \<Rightarrow> Some m | Inr x \<Rightarrow> None)"
| "stepError e c = None"

text \<open>
  The phase that the job state holds when the step of a call leaves the \<^verbatim>\<open>try\<close> block: the
  phase that the step wrote last. The synthesis step has written \<^verbatim>\<open>qa_validation\<close> when it
  rejects the content, and \<^verbatim>\<open>content_synthesis\<close> when the call itself throws.
\<close>

fun failedStep :: "env \<Rightarrow> collaborator_call \<Rightarrow> string" where
  "failedStep e (CallResolvePostId site t) = ''resolving_post''"
| "failedStep e (CallGenerateEnhanced config) =
     (case snd (generateEnhanced e config) of
        Inl m \<Rightarrow> ''content_synthesis''
      | Inr raw \<Rightarrow> ''qa_validation'')"
| "failedStep e (CallUpdatePost site k d opts) = ''publishing''"
| "failedStep e (CallCreatePost site d) = ''publishing''"
| "failedStep e c = []"

text \<open>
  The store writes of the two ends of a run: those of the completion (phase and status
  \<^verbatim>\<open>completed\<close>, page status \<^verbatim>\<open>analyzed\<close>, the global statistics) and those of the \<^verbatim>\<open>catch\<close>
  block (phase and status \<^verbatim>\<open>failed\<close>, page status \<^verbatim>\<open>error\<close>).
\<close>

fun isTerminalField :: "job_field \<Rightarrow> bool" where
  "isTerminalField (Phase ph) = (ph = ''completed'' \<or> ph = ''failed'')"
| "isTerminalField (Status st) = (st = ''completed'' \<or> st = ''failed'')"
| "isTerminalField f = False"

fun isTerminalPageField :: "page_field \<Rightarrow> bool" where
  "isTerminalPageField (PageStatus st) = (st = ''analyzed'' \<or> st = ''error'')"
| "isTerminalPageField f = False"

fun isTerminalWrite :: "store_write \<Rightarrow> bool" where
  "isTerminalWrite (UpdateJobState t fs) = list_ex isTerminalField fs"
| "isTerminalWrite (UpdatePage t fs) = list_ex isTerminalPageField fs"
| "isTerminalWrite (UpdateGlobalStats a b c d) = True"
| "isTerminalWrite x = False"

text \<open>
  A run that is under way: nothing of an end has been displayed or written, and no step
  has raised. \<open>raisedLast e m w\<close>: the call made last is the first whose step raises, with
  the message \<open>m\<close>, and no later step has written its phase.
\<close>

definition noTerminal :: "world \<Rightarrow> bool" where
  "noTerminal w \<longleftrightarrow>
     ''completed'' \<notin> set (phaseSequence w) \<and> ''failed'' \<notin> set (phaseSequence w)
     \<and> list_all (\<lambda>x. \<not> isTerminalWrite x) (storeWrites w)"

definition noneRaised :: "env \<Rightarrow> world \<Rightarrow> bool" where
  "noneRaised e w \<longleftrightarrow> list_all (\<lambda>c. stepError e c = None) (calls w)"

definition raisedLast :: "env \<Rightarrow> string \<Rightarrow> world \<Rightarrow> bool" where
  "raisedLast e m w \<longleftrightarrow>
     calls w \<noteq> [] \<and> list_all (\<lambda>c. stepError e c = None) (butlast (calls w))
     \<and> stepError e (last (calls w)) = Some m
     \<and> jobPhaseHistory w \<noteq> [] \<and> last (jobPhaseHistory w) = failedStep e (last (calls w))"

section \<open>Bulk optimization (App.tsx, executeBulkOptimization)\<close>

text \<open>\<^verbatim>\<open>BulkProcessingState\<close>, the component state \<^verbatim>\<open>bulkState\<close>.\<close>

record bulk_processing_state =
  bulkIsRunning :: bool
  jobs :: "bulk_job list"
  concurrency :: nat
  completed :: nat
  failed :: nat
  totalTime :: int
  avgScore :: int
  totalWords :: int

text \<open>The counters that the closure of \<^verbatim>\<open>executeBulkOptimization\<close> keeps.\<close>

record bulk_counters =
  countCompleted :: nat
  countFailed :: nat
  countTotalWords :: int
  countTotalScore :: int

text \<open>
  The state of a batch: the component state, the counters and the trace of every result of
  \<^verbatim>\<open>setBulkState\<close>.
\<close>

record bulk_run =
  bulkState :: bulk_processing_state
  counters :: bulk_counters
  bulkTrace :: "bulk_processing_state list"

text \<open>
  What the race of \<^verbatim>\<open>executeGodMode(job.url, true)\<close> against the timer of
  \<^verbatim>\<open>JOB_TIMEOUT_MS\<close> gives for a job.
\<close>

datatype job_outcome = Settled god_result | TimedOut

text \<open>
  What a batch reads from outside: the outcome of each job, the time at which each job
  settles (the order of completions within a wave), the value of \<^verbatim>\<open>bulkAbortRef.current\<close>
  when iteration \<open>k\<close> of the loop starts, and the readings of the clock.
\<close>

record bulk_env =
  outcomeOf :: "bulk_job \<Rightarrow> job_outcome"
  settleTime :: "bulk_job \<Rightarrow> nat"
  abortRequested :: "nat \<Rightarrow> bool"
  idClock :: "nat \<Rightarrow> nat"
  jobClockStart :: "bulk_job \<Rightarrow> nat"
  jobClockEnd :: "bulk_job \<Rightarrow> nat"
  batchClockStart :: int
  batchClockEnd :: int

text \<open>
  The flag is cleared right before the loop, with no suspension in between: iteration 0
  reads it as false.
\<close>

definition abortFlag :: "bulk_env \<Rightarrow> nat \<Rightarrow> bool" where
  "abortFlag be k \<longleftrightarrow> 0 < k \<and> abortRequested be k"

definition setBulkState ::
  "(bulk_processing_state \<Rightarrow> bulk_processing_state) \<Rightarrow> bulk_run \<Rightarrow> bulk_run" where
  "setBulkState f s = s\<lparr>bulkState := f (bulkState s), bulkTrace := bulkTrace s @ [f (bulkState s)]\<rparr>"

text \<open>\<^verbatim>\<open>prev.jobs.map(j => j.id === job.id ? { ...j, ... } : j)\<close>\<close>

definition updateJob :: "bulk_job \<Rightarrow> (bulk_job \<Rightarrow> bulk_job) \<Rightarrow> bulk_job list \<Rightarrow> bulk_job list" where
  "updateJob job f js = map (\<lambda>j. if jobId j = jobId job then f j else j) js"

text \<open>
  \<^verbatim>\<open>processJob\<close> up to its \<^verbatim>\<open>await\<close>: nothing when the batch is aborted, else the job is
  marked as running.
\<close>

definition beginJob :: "bulk_env \<Rightarrow> nat \<Rightarrow> bulk_job \<Rightarrow> bulk_run \<Rightarrow> bulk_run" where
  "beginJob be k job s =
     (if abortFlag be k then s
      else setBulkState
             (\<lambda>prev. prev\<lparr>jobs := updateJob job
                 (\<lambda>j. j\<lparr>jobStatus := Running, jobStartTime := Some (jobClockStart be job)\<rparr>)
                 (jobs prev)\<rparr>) s)"

text \<open>\<^verbatim>\<open>result.success && result.score >= 50\<close>\<close>

definition passesQualityGate :: "god_result \<Rightarrow> bool" where
  "passesQualityGate r \<longleftrightarrow> success r \<and> 50 \<le> score r"

text \<open>The \<^verbatim>\<open>catch\<close> of \<^verbatim>\<open>processJob\<close>.\<close>

definition failJob :: "bulk_env \<Rightarrow> bulk_job \<Rightarrow> string \<Rightarrow> bulk_run \<Rightarrow> bulk_run" where
  "failJob be job msg s =
     (let c = (counters s)\<lparr>countFailed := countFailed (counters s) + 1\<rparr>
      in setBulkState
           (\<lambda>prev. prev\<lparr>jobs := updateJob job
                        (\<lambda>j. j\<lparr>jobStatus := Failed, jobError := Some msg,
                               jobEndTime := Some (jobClockEnd be job)\<rparr>)
                        (jobs prev),
                      failed := countFailed c\<rparr>)
           (s\<lparr>counters := c\<rparr>))"

text \<open>\<^verbatim>\<open>result.error || 'Quality check failed'\<close>\<close>

definition rejectionMessage :: "god_result \<Rightarrow> string" where
  "rejectionMessage r =
     (case error r of None \<Rightarrow> ''Quality check failed'' | Some m \<Rightarrow> orElse m ''Quality check failed'')"

text \<open>\<^verbatim>\<open>processJob\<close> after its \<^verbatim>\<open>await\<close>: the race has settled.\<close>

definition settleJob :: "bulk_env \<Rightarrow> bulk_job \<Rightarrow> bulk_run \<Rightarrow> bulk_run" where
  "settleJob be job s =
     (case outcomeOf be job of
        TimedOut \<Rightarrow> failJob be job ''Job timeout'' s
      | Settled r \<Rightarrow>
          if passesQualityGate r then
            (let c = (counters s)\<lparr>countCompleted := countCompleted (counters s) + 1,
                                  countTotalWords := countTotalWords (counters s) + wordCount r,
                                  countTotalScore := countTotalScore (counters s) + score r\<rparr>
             in setBulkState
                  (\<lambda>prev. prev\<lparr>jobs := updateJob job
                               (\<lambda>j. j\<lparr>jobStatus := Completed, jobScore := Some (score r),
                                      jobWordCount := Some (wordCount r),
                                      jobEndTime := Some (jobClockEnd be job)\<rparr>)
                               (jobs prev),
                             completed := countCompleted c,
                             totalWords := countTotalWords c,
                             avgScore := js_round (of_int (countTotalScore c) / of_nat (countCompleted c))\<rparr>)
                  (s\<lparr>counters := c\<rparr>))
          else failJob be job (rejectionMessage r) s)"

text \<open>
  \<^verbatim>\<open>await Promise.all(batch.map(job => processJob(job)))\<close>: every job of the wave starts, in
  order and before any suspension; then the started jobs settle, in the order of their
  settle times.
\<close>

definition runWave :: "bulk_env \<Rightarrow> nat \<Rightarrow> bulk_job list \<Rightarrow> bulk_run \<Rightarrow> bulk_run" where
  "runWave be k batch s =
     foldl (\<lambda>s' job. settleJob be job s')
       (foldl (\<lambda>s' job. beginJob be k job s') s batch)
       (sort_key (settleTime be) (filter (\<lambda>job. \<not> abortFlag be k) batch))"

text \<open>
  \<^verbatim>\<open>for (let i = 0; i < jobs.length; i += bulkConcurrency)\<close>, with \<open>k\<close> the number of the
  iteration. With a concurrency of 0 the loop does not advance: no result is \<open>None\<close>.
\<close>

partial_function (option) bulkLoop ::
  "bulk_env \<Rightarrow> nat \<Rightarrow> bulk_job list \<Rightarrow> nat \<Rightarrow> nat \<Rightarrow> bulk_run \<Rightarrow> bulk_run option" where
  "bulkLoop be n js k i s =
     (if i < length js then
        (if abortFlag be k then Some s
         else bulkLoop be n js (Suc k) (i + n) (runWave be k (take n (drop i js)) s))
      else Some s)"

definition finishBatch :: "bulk_env \<Rightarrow> bulk_run \<Rightarrow> bulk_run" where
  "finishBatch be s =
     setBulkState
       (\<lambda>prev. prev\<lparr>bulkIsRunning := False,
                  totalTime := batchClockEnd be - batchClockStart be,
                  avgScore := (if 0 < countCompleted (counters s)
                               then js_round (of_int (countTotalScore (counters s))
                                              / of_nat (countCompleted (counters s)))
                               else 0)\<rparr>) s"

definition initialBulkState :: "bulk_job list \<Rightarrow> nat \<Rightarrow> bulk_processing_state" where
  "initialBulkState js n =
     \<lparr>bulkIsRunning = True, jobs = js, concurrency = n, completed = 0, failed = 0,
      totalTime = 0, avgScore = 0, totalWords = 0\<rparr>"

definition zeroCounters :: bulk_counters where
  "zeroCounters = \<lparr>countCompleted = 0, countFailed = 0, countTotalWords = 0, countTotalScore = 0\<rparr>"

text \<open>
  \<^verbatim>\<open>executeBulkOptimization\<close>: \<open>bulkUrls\<close> is the raw input, \<open>n\<close> is \<^verbatim>\<open>bulkConcurrency\<close> and
  \<open>st\<close> the component state before the batch. Without a valid URL or without a content key
  nothing changes.
\<close>

definition executeBulkOptimization ::
  "bulk_env \<Rightarrow> env \<Rightarrow> string \<Rightarrow> nat \<Rightarrow> bulk_processing_state \<Rightarrow> bulk_run option" where
  "executeBulkOptimization be e bulkUrls n st =
     (let urls = parseBulkUrls bulkUrls;
          idle = \<lparr>bulkState = st, counters = zeroCounters, bulkTrace = []\<rparr>
      in if length urls = 0 then Some idle
         else if \<not> hasRequiredKeys e then Some idle
         else
           (let js = makeJobs (idClock be) urls;
                s0 = setBulkState (\<lambda>prev. initialBulkState js n) idle
            in case bulkLoop be n js 0 0 s0 of
                 None \<Rightarrow> None
               | Some s \<Rightarrow> Some (finishBatch be s)))"

text \<open>The number of jobs in the running state.\<close>

definition runningCount :: "bulk_processing_state \<Rightarrow> nat" where
  "runningCount st = length (filter (\<lambda>j. jobStatus j = Running) (jobs st))"

text \<open>A job counts as a batch success when its race settled with a result that passes the gate.\<close>

definition batchSuccess :: "bulk_env \<Rightarrow> bulk_job \<Rightarrow> bool" where
  "batchSuccess be job \<longleftrightarrow>
     (case outcomeOf be job of TimedOut \<Rightarrow> False | Settled r \<Rightarrow> passesQualityGate r)"

definition resultWords :: "bulk_env \<Rightarrow> bulk_job \<Rightarrow> int" where
  "resultWords be job = (case outcomeOf be job of TimedOut \<Rightarrow> 0 | Settled r \<Rightarrow> wordCount r)"

definition resultScore :: "bulk_env \<Rightarrow> bulk_job \<Rightarrow> int" where
  "resultScore be job = (case outcomeOf be job of TimedOut \<Rightarrow> 0 | Settled r \<Rightarrow> score r)"

text \<open>The identifiers of the running jobs, and the tallies of a list of settled jobs.\<close>

definition runningIds :: "bulk_processing_state \<Rightarrow> (nat \<times> nat) set" where
  "runningIds st = jobId ` {j \<in> set (jobs st). jobStatus j = Running}"

definition tallyMatches :: "bulk_env \<Rightarrow> bulk_job list \<Rightarrow> bulk_counters \<Rightarrow> bool" where
  "tallyMatches be earlier c \<longleftrightarrow>
     countCompleted c = length (filter (batchSuccess be) earlier)
     \<and> countFailed c = length (filter (\<lambda>j. \<not> batchSuccess be j) earlier)
     \<and> countTotalWords c = sum_list (map (resultWords be) (filter (batchSuccess be) earlier))
     \<and> countTotalScore c = sum_list (map (resultScore be) (filter (batchSuccess be) earlier))"

definition fieldsInSync :: "bulk_run \<Rightarrow> bool" where
  "fieldsInSync s \<longleftrightarrow>
     completed (bulkState s) = countCompleted (counters s)
     \<and> failed (bulkState s) = countFailed (counters s)
     \<and> totalWords (bulkState s) = countTotalWords (counters s)"

text \<open>
  The invariant of a wave: the identifiers in the state are distinct, the running jobs are
  among those of \<open>T\<close>, and no state of the trace has more than \<open>n\<close> running jobs.
\<close>

definition waveInvariant :: "nat \<Rightarrow> (nat \<times> nat) set \<Rightarrow> bulk_run \<Rightarrow> bool" where
  "waveInvariant n T s \<longleftrightarrow>
     distinct (map jobId (jobs (bulkState s))) \<and> runningIds (bulkState s) \<subseteq> T
     \<and> (\<forall>x \<in> set (bulkTrace s). runningCount x \<le> n)"

text \<open>
  The partition that the spec describes, written from its words: the consecutive slices of
  at most \<open>n\<close> jobs, starting at index \<open>i\<close>.
\<close>

function specWavesFrom :: "nat \<Rightarrow> nat \<Rightarrow> 'a list \<Rightarrow> 'a list list" where
  "specWavesFrom n i js =
     (if i < length js \<and> 0 < n then take n (drop i js) # specWavesFrom n (i + n) js else [])"
  by pat_completeness auto
termination
  by (relation "measure (\<lambda>(n, i, js). length js - i)") auto

declare specWavesFrom.simps [simp del]

section \<open>A concrete environment\<close>

text \<open>
  One page in the catalogue, one content key, a configured site, no optional analysis; the
  post is not found, the synthesis returns 2000 characters of content in one word without a
  stage report, and every other collaborator succeeds.
\<close>

definition demoContract :: content_contract where
  "demoContract =
     \<lparr>contractTitle = ''Sample Post'', htmlContent = replicate 2000 CHR ''a'',
      excerpt = ''An excerpt'', metaDescription = ''A description'',
      contractSlug = ''sample-post'', contractWordCount = 0\<rparr>"

definition demoPage :: page where
  "demoPage =
     \<lparr>pageId = ''https://a.com/x'', pageTitle = ''Sample Post'', pageSlug = ''x'',
      healthScore = None, jobState = None, improvementHistory = []\<rparr>"

definition demoEnv :: env where
  "demoEnv =
     \<lparr>manualUrl = [], targetKeywordOverride = [], optimizationMode = ''surgical'',
      preserveFeaturedImage = True, preserveCategories = True, preserveTags = True,
      pages = [demoPage],
      keyGoogle = ''key'', keyOpenrouter = [], keyOpenai = [], keyAnthropic = [], keyGroq = [],
      keySerper = [], keyNeuronwriter = [], keyNeuronProject = [], neuronEnabled = False,
      neuronTerms = [],
      wpUrl = ''https://a.com'', wpUsername = ''admin'', wpPassword = ''secret'',
      publishMode = ''draft'',
      statsTotalProcessed = 0, statsTotalWordsGenerated = 0, statsTotalImproved = 0,
      nowStart = 1000, nowEnd = 61000,
      derivedTitle = (\<lambda>u. []), derivedSlug = (\<lambda>u. []), textContent = (\<lambda>h. h),
      wpResolvePostIdEnhanced = (\<lambda>site t. Inr None),
      wpGetPostWithImages = (\<lambda>site k. Inl ''not found''),
      performEntityGapAnalysis = (\<lambda>t c. Inl ''unavailable''),
      getNeuronWriterAnalysis = (\<lambda>t. Inl ''unavailable''),
      generateEnhanced = (\<lambda>c. ([], Inr demoContract)),
      removeAllH1Tags = (\<lambda>h. h),
      countWords = (\<lambda>h. 1),
      runQASwarm = (\<lambda>c g n. 80),
      wpUpdatePost = (\<lambda>site k d opts. Inr (k, ''https://a.com/x'')),
      wpCreatePost = (\<lambda>site d. Inr (7, ''https://a.com/x'')),
      wpUpdatePostMeta = (\<lambda>site k t d f. Inr ()),
      calculateSeoMetrics =
        (\<lambda>h t sl. \<lparr>aeoScore = 80, contentDepth = 80, headingStructure = 80, metricsWordCount = 1\<rparr>)\<rparr>"

definition demoWorld :: world where
  "demoWorld = freshWorld idleProgress False"

text \<open>
  A concrete batch: every job settles with a success of score 80 and 4200 words, the jobs
  of a wave settle in the order of their indices, and the batch is not aborted.
\<close>

definition demoBulkEnv :: bulk_env where
  "demoBulkEnv =
     \<lparr>outcomeOf = (\<lambda>job. Settled \<lparr>success = True, score = 80, wordCount = 4200, error = None\<rparr>),
      settleTime = (\<lambda>job. snd (jobId job)),
      abortRequested = (\<lambda>k. False),
      idClock = (\<lambda>i. 1700000000000),
      jobClockStart = (\<lambda>job. 1700000000000),
      jobClockEnd = (\<lambda>job. 1700000060000),
      batchClockStart = 1700000000000,
      batchClockEnd = 1700000180000\<rparr>"

definition demoBulkUrls :: string where
  "demoBulkUrls = ''https://a.com/1,https://a.com/2,https://a.com/3,https://a.com/4,https://a.com/5''"

definition idleBulkState :: bulk_processing_state where
  "idleBulkState =
     \<lparr>bulkIsRunning = False, jobs = [], concurrency = 3, completed = 0, failed = 0,
      totalTime = 0, avgScore = 0, totalWords = 0\<rparr>"

section \<open>Properties of the progress reporter\<close>

lemma currentStep_cases:
  "currentStep ph \<in> {0, 1, 2, 3, 4, 5, 6, 7, 8, 9, 10, 11, 12, 13, 14, 15}"
  by (simp add: currentStep_def PHASE_CONFIG_def)

lemma currentStep_le: "currentStep ph \<le> TOTAL_STEPS"
  using currentStep_cases [of ph] by (auto simp: TOTAL_STEPS_def)

lemma js_round_div: "0 < b \<Longrightarrow> js_round (of_nat a / of_nat b * 100) = (200 * int a + int b) div (2 * int b)"
proof -
  assume b: "0 < b"
  have "(of_nat a / of_nat b * 100 + 1 / 2 :: rat) = of_int (200 * int a + int b) / of_int (2 * int b)"
    using b by (simp add: field_simps)
  then show ?thesis
    unfolding js_round_def by (simp only: floor_divide_of_int_eq)
qed

lemma natToString_small: "n < 10 \<Longrightarrow> natToString n = [digitChar n]"
  by (subst natToString.simps) simp

lemma natToString_big:
  "\<not> n < 10 \<Longrightarrow> natToString n = natToString (n div 10) @ [digitChar (n mod 10)]"
  by (subst natToString.simps) simp

lemma natToString_hd_ne_dash: "natToString n \<noteq> [] \<and> hd (natToString n) \<noteq> CHR ''-''"
proof (induction n rule: natToString.induct)
  case (1 n)
  show ?case
  proof (cases "n < 10")
    case True
    then have "n \<in> {0, 1, 2, 3, 4, 5, 6, 7, 8, 9}" by auto
    then show ?thesis using True by (auto simp: natToString_small digitChar_def)
  next
    case False
    with "1" show ?thesis by (simp add: natToString_big)
  qed
qed

lemma formatTime_ne_dashes: "formatTime ms \<noteq> ''--:--''"
proof -
  obtain c cs where "natToString (nat \<lfloor>ms / 1000\<rfloor> div 60) = c # cs" and "c \<noteq> CHR ''-''"
    using natToString_hd_ne_dash [of "nat \<lfloor>ms / 1000\<rfloor> div 60"]
    by (cases "natToString (nat \<lfloor>ms / 1000\<rfloor> div 60)") auto
  then show ?thesis by (simp add: formatTime_def Let_def)
qed

lemma progressPercent_eq:
  "progressPercent ph = (200 * int (currentStep ph) + 15) div 30"
  unfolding progressPercent_def TOTAL_STEPS_def
  by (subst js_round_div) simp_all

lemma estimateRemainingTime_dashes:
  "estimateRemainingTime ph e = ''--:--'' \<longleftrightarrow> currentStep ph = 0 \<or> e = 0"
  by (simp add: estimateRemainingTime_def Let_def formatTime_ne_dashes)

text \<open>
  C10 as stated: the percentage is \<open>floor (100 * s / 15)\<close> and the estimate is undefined
  exactly when \<open>s = 0\<close>. Both fail: at \<^verbatim>\<open>initializing\<close> (step 1) the component shows
  \<open>round (6.67) = 7\<close>, not 6; at \<^verbatim>\<open>publishing\<close> (step 14) with no elapsed time the
  estimate is undefined although the step is not zero.
\<close>

theorem C10_counterexample:
  "\<not> (progressPercent ''initializing'' = (100 * int (currentStep ''initializing'')) div 15)
   \<and> \<not> (estimateRemainingTime ''publishing'' 0 = ''--:--'' \<longleftrightarrow> currentStep ''publishing'' = 0)"
  by (simp add: progressPercent_eq estimateRemainingTime_def currentStep_def PHASE_CONFIG_def)

text \<open>
  C10, amended: every phase has a step \<open>s\<close> between 0 and 15; the percentage is
  \<open>100 * s / 15\<close> rounded to the nearest integer (\<^verbatim>\<open>Math.round\<close>), which is the floor plus one
  exactly when \<open>s mod 3 = 1\<close>; the estimate is undefined (\<^verbatim>\<open>--:--\<close>) exactly when \<open>s = 0\<close>
  or the elapsed time is 0, and otherwise it is \<open>(e / s) * (15 - s)\<close> milliseconds shown as
  minutes and seconds.
\<close>

theorem C10_percent_and_eta:
  "currentStep ph \<le> 15
   \<and> progressPercent ph = (200 * int (currentStep ph) + 15) div 30
   \<and> progressPercent ph =
        (100 * int (currentStep ph)) div 15 + (if currentStep ph mod 3 = 1 then 1 else 0)
   \<and> (estimateRemainingTime ph e = ''--:--'' \<longleftrightarrow> currentStep ph = 0 \<or> e = 0)
   \<and> (currentStep ph \<noteq> 0 \<and> e \<noteq> 0 \<longrightarrow>
        estimateRemainingTime ph e =
          formatTime ((of_nat e / of_nat (currentStep ph)) * (15 - of_nat (currentStep ph))))"
proof -
  have steps: "currentStep ph \<in> {0, 1, 2, 3, 4, 5, 6, 7, 8, 9, 10, 11, 12, 13, 14, 15}"
    by (rule currentStep_cases)
  have le: "currentStep ph \<le> 15"
    using currentStep_le [of ph] by (simp add: TOTAL_STEPS_def)
  have floor_form: "(200 * int (currentStep ph) + 15) div 30 =
      (100 * int (currentStep ph)) div 15 + (if currentStep ph mod 3 = 1 then 1 else 0)"
    using steps by auto
  have eta: "currentStep ph \<noteq> 0 \<and> e \<noteq> 0 \<longrightarrow>
        estimateRemainingTime ph e =
          formatTime ((of_nat e / of_nat (currentStep ph)) * (15 - of_nat (currentStep ph)))"
    by (simp add: estimateRemainingTime_def Let_def TOTAL_STEPS_def)
  show ?thesis
    using le floor_form eta progressPercent_eq [of ph] estimateRemainingTime_dashes [of ph e]
    by simp
qed

theorem C10_percent_and_eta_witness:
  "currentStep ''section_drafts'' = 8
   \<and> progressPercent ''section_drafts'' = 53
   \<and> estimateRemainingTime ''section_drafts'' 240000 = ''3:30''"
proof -
  have step: "currentStep ''section_drafts'' = 8"
    by (simp add: currentStep_def PHASE_CONFIG_def)
  have fmt: "formatTime 210000 = ''3:30''"
    by (simp add: formatTime_def Let_def natToString_small natToString_big padStart2_def
        digitChar_def)
  show ?thesis
    using C10_percent_and_eta [of "''section_drafts''" 240000] step fmt by simp
qed

lemma indexOf_ge: "- 1 \<le> indexOf xs u"
  by (induction xs) (auto simp: Let_def)

lemma indexOf_Cons_Suc:
  "indexOf (x # xs) u = 1 + int i \<longleftrightarrow> u \<noteq> x \<and> indexOf xs u = int i"
  using indexOf_ge [of xs u] by (auto simp: Let_def)

lemma map_fst_filter_ne:
  "map fst (filter (\<lambda>p. fst p \<noteq> x \<and> Q p) zs) = filter (\<lambda>u. u \<noteq> x) (map fst (filter Q zs))"
  by (induction zs) auto

lemma indexOf_hd: "indexOf (x # xs) x = 0"
  by simp

lemma filterFirstIndex_Cons:
  "filterFirstIndex (x # xs) = x # filter (\<lambda>u. u \<noteq> x) (filterFirstIndex xs)"
proof -
  let ?P = "\<lambda>p. indexOf (x # xs) (fst p) = int (snd p)"
  let ?Q = "\<lambda>p. indexOf xs (fst p) = int (snd p)"
  have upt: "[0..<length (x # xs)] = 0 # map Suc [0..<length xs]"
    by (simp add: upt_conv_Cons map_Suc_upt del: upt_Suc)
  have filt: "filter (?P \<circ> (\<lambda>(u, i). (u, Suc i))) (zip xs [0..<length xs])
      = filter (\<lambda>p. fst p \<noteq> x \<and> ?Q p) (zip xs [0..<length xs])"
    by (rule filter_cong)
       (auto simp: indexOf_Cons_Suc case_prod_unfold simp del: indexOf.simps)
  have shift: "map fst (filter ?P (zip xs (map Suc [0..<length xs])))
      = map fst (filter (\<lambda>p. fst p \<noteq> x \<and> ?Q p) (zip xs [0..<length xs]))"
    unfolding zip_map2 filter_map filt by (simp add: comp_def case_prod_unfold)
  have "filterFirstIndex (x # xs) = map fst (filter ?P (zip (x # xs) (0 # map Suc [0..<length xs])))"
    unfolding filterFirstIndex_def upt by (simp only: case_prod_unfold)
  also have "\<dots> = x # map fst (filter ?P (zip xs (map Suc [0..<length xs])))"
    by (simp add: indexOf_hd del: indexOf.simps)
  also have "map fst (filter ?P (zip xs (map Suc [0..<length xs])))
      = map fst (filter (\<lambda>p. fst p \<noteq> x \<and> ?Q p) (zip xs [0..<length xs]))"
    by (rule shift)
  also have "\<dots> = filter (\<lambda>u. u \<noteq> x) (filterFirstIndex xs)"
    unfolding filterFirstIndex_def by (simp only: map_fst_filter_ne case_prod_unfold)
  finally show ?thesis .
qed

lemma filterFirstIndex_firsts: "filterFirstIndex xs = firsts xs"
  by (induction xs) (simp_all add: filterFirstIndex_Cons, simp add: filterFirstIndex_def)

lemma set_firsts: "set (firsts xs) = set xs"
  by (induction xs) auto

lemma distinct_firsts: "distinct (firsts xs)"
  by (induction xs) (auto simp: set_firsts)

section \<open>Properties of bulk input parsing\<close>

lemma parseBulkUrls_firsts:
  "parseBulkUrls text = firsts (filter (\<lambda>u. startsWith u ''http'') (map trim (splitSeparators text)))"
  by (simp add: parseBulkUrls_def filterFirstIndex_firsts)

lemma map_jobUrl_makeJobs: "map jobUrl (makeJobs clock urls) = urls"
proof -
  have "map jobUrl (makeJobs clock urls) = map fst (zip urls [0..<length urls])"
    by (simp add: makeJobs_def case_prod_unfold comp_def)
  then show ?thesis by simp
qed

lemma map_jobId_makeJobs:
  "map (snd \<circ> jobId) (makeJobs clock urls) = [0..<length urls]"
proof -
  have "map (snd \<circ> jobId) (makeJobs clock urls) = map snd (zip urls [0..<length urls])"
    by (simp add: makeJobs_def case_prod_unfold comp_def)
  then show ?thesis by simp
qed

lemma distinct_jobId_makeJobs: "distinct (map jobId (makeJobs clock urls))"
proof -
  have "distinct (map snd (map jobId (makeJobs clock urls)))"
    using map_jobId_makeJobs [of clock urls] by simp
  then show ?thesis
    by (auto simp: distinct_map inj_on_def)
qed

text \<open>
  C8 as stated: the jobs are the distinct valid absolute URLs of the input. The source
  filters by the prefix \<^verbatim>\<open>http\<close>: the token \<^verbatim>\<open>httpx\<close> has no scheme separator and becomes a
  job, and \<^verbatim>\<open>ftp://a.com/x\<close>, an absolute URL, is dropped.
\<close>

theorem C8_counterexample:
  "map jobUrl (makeJobs (\<lambda>i. 0) (parseBulkUrls ''httpx'')) = [''httpx'']
   \<and> \<not> specValidAbsoluteUrl ''httpx''
   \<and> specValidAbsoluteUrl ''ftp://a.com/x''
   \<and> makeJobs (\<lambda>i. 0) (parseBulkUrls ''ftp://a.com/x'') = []"
  by (simp add: map_jobUrl_makeJobs)
     (simp add: parseBulkUrls_firsts splitSeparators_def isSeparator_def isJsSpace_def trim_def
        startsWith_def specValidAbsoluteUrl_def isAsciiAlpha_def isSchemeChar_def makeJobs_def)

text \<open>
  C8, amended: for every raw bulk-input text the job list has exactly one job per distinct
  token that starts with \<^verbatim>\<open>http\<close>, where the tokens are the pieces of the text between runs of
  whitespace and commas, trimmed; the jobs keep the order of the list and have distinct
  identifiers. Duplicates and whitespace variants of one URL give one job.
\<close>

theorem C8_one_job_per_distinct_url:
  "map jobUrl (makeJobs clock (parseBulkUrls text)) = parseBulkUrls text
   \<and> distinct (map jobUrl (makeJobs clock (parseBulkUrls text)))
   \<and> set (map jobUrl (makeJobs clock (parseBulkUrls text)))
       = {u \<in> trim ` set (splitSeparators text). startsWith u ''http''}
   \<and> length (makeJobs clock (parseBulkUrls text))
       = card {u \<in> trim ` set (splitSeparators text). startsWith u ''http''}
   \<and> distinct (map jobId (makeJobs clock (parseBulkUrls text)))"
proof -
  let ?urls = "parseBulkUrls text"
  have d: "distinct ?urls"
    by (simp add: parseBulkUrls_firsts distinct_firsts)
  have s: "set ?urls = {u \<in> trim ` set (splitSeparators text). startsWith u ''http''}"
    by (auto simp: parseBulkUrls_firsts set_firsts)
  have "length (makeJobs clock ?urls) = length ?urls"
    by (simp add: makeJobs_def)
  also have "\<dots> = card (set ?urls)"
    using d by (simp add: distinct_card)
  finally have l: "length (makeJobs clock ?urls)
      = card {u \<in> trim ` set (splitSeparators text). startsWith u ''http''}"
    using s by simp
  show ?thesis
    using d s l by (simp add: map_jobUrl_makeJobs distinct_jobId_makeJobs)
qed

theorem C8_one_job_per_distinct_url_witness:
  "map jobUrl (makeJobs (\<lambda>i. 1700000000000)
      (parseBulkUrls (''https://a.com/x'' @ [CHR 0x0A] @ '' https://a.com/x'' @ [CHR 0x0A]
                       @ ''https://a.com/x'')))
     = [''https://a.com/x'']
   \<and> card {u \<in> trim ` set (splitSeparators (''https://a.com/x'' @ [CHR 0x0A]
                       @ '' https://a.com/x'' @ [CHR 0x0A] @ ''https://a.com/x'')).
             startsWith u ''http''} = 1"
proof -
  let ?text = "''https://a.com/x'' @ [CHR 0x0A] @ '' https://a.com/x'' @ [CHR 0x0A] @ ''https://a.com/x''"
  have p: "parseBulkUrls ?text = [''https://a.com/x'']"
    by (simp add: parseBulkUrls_firsts splitSeparators_def isSeparator_def isJsSpace_def trim_def
        startsWith_def)
  have l: "length (makeJobs (\<lambda>i. 1700000000000) [''https://a.com/x'']) = 1"
    by (simp add: makeJobs_def)
  show ?thesis
    using C8_one_job_per_distinct_url [of "\<lambda>i. 1700000000000" ?text] unfolding p l
    by (simp add: map_jobUrl_makeJobs)
qed

section \<open>Observations of the primitive operations\<close>

lemma phaseSequence_prims [simp]:
  "phaseSequence (storeWrite x w) = phaseSequence w"
  "phaseSequence (recordCall c w) = phaseSequence w"
  "phaseSequence (awaitAt cancelAt pt w) = phaseSequence w"
  "phaseSequence (updateProgress ph ex w) = phaseSequence w @ [ph]"
  "phaseSequence (setOptimizationProgress ByOrchestrator f w)
     = phaseSequence w @ [phase (f (optimizationProgress w))]"
  "phaseSequence (resetCancellationToken w) = phaseSequence w"
  by (simp_all add: phaseSequence_def storeWrite_def recordCall_def awaitAt_def
      cancelCurrentJob_def updateProgress_def setOptimizationProgress_def mergeExtras_def
      resetCancellationToken_def)

lemma storeWrites_prims [simp]:
  "storeWrites (storeWrite x w) = storeWrites w @ [x]"
  "storeWrites (recordCall c w) = storeWrites w"
  "storeWrites (awaitAt cancelAt pt w) = storeWrites w"
  "storeWrites (updateProgress ph ex w) = storeWrites w"
  "storeWrites (setOptimizationProgress who f w) = storeWrites w"
  "storeWrites (resetCancellationToken w) = storeWrites w"
  by (simp_all add: storeWrite_def recordCall_def awaitAt_def cancelCurrentJob_def
      updateProgress_def setOptimizationProgress_def resetCancellationToken_def)

lemma calls_prims [simp]:
  "calls (storeWrite x w) = calls w"
  "calls (recordCall c w) = calls w @ [c]"
  "calls (awaitAt cancelAt pt w) = calls w"
  "calls (updateProgress ph ex w) = calls w"
  "calls (setOptimizationProgress who f w) = calls w"
  "calls (resetCancellationToken w) = calls w"
  by (simp_all add: storeWrite_def recordCall_def awaitAt_def cancelCurrentJob_def
      updateProgress_def setOptimizationProgress_def resetCancellationToken_def)

lemma optimizationProgress_prims [simp]:
  "optimizationProgress (storeWrite x w) = optimizationProgress w"
  "optimizationProgress (recordCall c w) = optimizationProgress w"
  "optimizationProgress (updateProgress ph ex w)
     = mergeExtras ex ((optimizationProgress w)\<lparr>phase := ph\<rparr>)"
  "optimizationProgress (setOptimizationProgress who f w) = f (optimizationProgress w)"
  "optimizationProgress (resetCancellationToken w) = optimizationProgress w"
  by (simp_all add: storeWrite_def recordCall_def updateProgress_def
      setOptimizationProgress_def resetCancellationToken_def)

lemma restOfProgress_prims [simp]:
  "restOfProgress (storeWrite x w) = restOfProgress w"
  "restOfProgress (recordCall c w) = restOfProgress w"
  "restOfProgress (awaitAt cancelAt pt w) = restOfProgress w"
  "restOfProgress (updateProgress ph ex w) =
     (case restOfProgress w of
        (a, b, c, d, e, f) \<Rightarrow>
          (a, b, c,
           (case extraSectionsCompleted ex of None \<Rightarrow> d | Some n \<Rightarrow> n),
           (case extraTotalSections ex of None \<Rightarrow> e | Some n \<Rightarrow> n),
           (case extraWordCount ex of None \<Rightarrow> f | Some n \<Rightarrow> n)))"
  by (simp_all add: restOfProgress_def storeWrite_def recordCall_def awaitAt_def
      cancelCurrentJob_def updateProgress_def setOptimizationProgress_def mergeExtras_def
      split: option.splits)

lemma restOfProgress_set [simp]:
  "restOfProgress (setOptimizationProgress who (\<lambda>prev. prev\<lparr>isRunning := b\<rparr>) w) = restOfProgress w"
  "restOfProgress (setOptimizationProgress who (\<lambda>prev. prev\<lparr>isRunning := b, phase := ph\<rparr>) w)
     = restOfProgress w"
  "restOfProgress (setOptimizationProgress who (\<lambda>prev. prev\<lparr>currentUrl := u\<rparr>) w)
     = (case restOfProgress w of (a, b, c, d) \<Rightarrow> (a, b, u, d))"
  by (simp_all add: restOfProgress_def setOptimizationProgress_def)

lemma progress_eqI:
  assumes "restOfProgress w = restOfProgress w'"
    and "phase (optimizationProgress w) = phase (optimizationProgress w')"
    and "isRunning (optimizationProgress w) = isRunning (optimizationProgress w')"
  shows "optimizationProgress w = optimizationProgress w'"
  using assms
  by (cases "optimizationProgress w"; cases "optimizationProgress w'")
     (simp add: restOfProgress_def)

lemma sameView_prims:
  "sameView w w' \<Longrightarrow> sameView (storeWrite x w) (storeWrite x w')"
  "sameView w w' \<Longrightarrow> sameView (recordCall c w) (recordCall c w')"
  "sameView w w' \<Longrightarrow> sameView (awaitAt cancelAt pt w) (awaitAt cancelAt' pt w')"
  "sameView w w' \<Longrightarrow> sameView (updateProgress ph ex w) (updateProgress ph ex w')"
  by (simp_all add: sameView_def)

lemma observe_log [simp]:
  "phaseSequence (recordLog x w) = phaseSequence w"
  "phaseSequence (setManualUrl u w) = phaseSequence w"
  "storeWrites (recordLog x w) = storeWrites w"
  "storeWrites (setManualUrl u w) = storeWrites w"
  "calls (recordLog x w) = calls w"
  "calls (setManualUrl u w) = calls w"
  "optimizationProgress (recordLog x w) = optimizationProgress w"
  "optimizationProgress (setManualUrl u w) = optimizationProgress w"
  "restOfProgress (recordLog x w) = restOfProgress w"
  "restOfProgress (setManualUrl u w) = restOfProgress w"
  by (simp_all add: phaseSequence_def restOfProgress_def recordLog_def setManualUrl_def)

lemma observe_logLine [simp]:
  "phaseSequence (logLine t silent msg w) = phaseSequence w"
  "storeWrites (logLine t silent msg w) = storeWrites w"
  "calls (logLine t silent msg w) = calls w"
  "optimizationProgress (logLine t silent msg w) = optimizationProgress w"
  "restOfProgress (logLine t silent msg w) = restOfProgress w"
  by (simp_all add: logLine_def Let_def split: option.splits)

lemma observe_handleManualUrl [simp]:
  "phaseSequence (handleManualUrl e tov silent w) = phaseSequence w"
  "storeWrites (handleManualUrl e tov silent w)
     = storeWrites w @ (if addsManualPage e tov then [AddPages [newPage e]] else [])"
  "calls (handleManualUrl e tov silent w) = calls w"
  "optimizationProgress (handleManualUrl e tov silent w) = optimizationProgress w"
  "restOfProgress (handleManualUrl e tov silent w) = restOfProgress w"
  by (simp_all add: handleManualUrl_def addsManualPage_def Let_def)

lemma logCalls_prims [simp]:
  "logCalls (storeWrite x w) = logCalls w"
  "logCalls (recordCall c w) = logCalls w"
  "logCalls (setOptimizationProgress who f w) = logCalls w"
  "logCalls (resetCancellationToken w) = logCalls w"
  "logCalls (recordLog l w) = logCalls w @ [l]"
  "logCalls (setManualUrl u w) = logCalls w"
  "logCalls (handleManualUrl e tov silent w) = logCalls w"
  "logCalls (awaitAt cancelAt pt w) = logCalls w"
  "logCalls (updateProgress ph ex w) = logCalls w"
  by (simp_all add: storeWrite_def recordCall_def setOptimizationProgress_def
      resetCancellationToken_def recordLog_def setManualUrl_def handleManualUrl_def Let_def
      awaitAt_def cancelCurrentJob_def updateProgress_def)

lemma manualUrlWrites_prims [simp]:
  "manualUrlWrites (storeWrite x w) = manualUrlWrites w"
  "manualUrlWrites (recordCall c w) = manualUrlWrites w"
  "manualUrlWrites (setOptimizationProgress who f w) = manualUrlWrites w"
  "manualUrlWrites (resetCancellationToken w) = manualUrlWrites w"
  "manualUrlWrites (recordLog l w) = manualUrlWrites w"
  "manualUrlWrites (setManualUrl u w) = manualUrlWrites w @ [u]"
  "manualUrlWrites (logLine t silent msg w) = manualUrlWrites w"
  by (simp_all add: storeWrite_def recordCall_def setOptimizationProgress_def
      resetCancellationToken_def recordLog_def setManualUrl_def logLine_def Let_def
      split: option.splits)

lemma fetchExisting_view:
  assumes "sameView w w'"
  shows "fst (fetchExisting e cancelAt t k topic0 w) = fst (fetchExisting e cancelAt' t k topic0 w')
    \<and> sameView (snd (fetchExisting e cancelAt t k topic0 w)) (snd (fetchExisting e cancelAt' t k topic0 w'))"
  using assms by (simp add: fetchExisting_def Let_def sameView_prims split: sum.splits)

lemma applyKeywordOverride_view:
  assumes "sameView w w'"
  shows "fst (applyKeywordOverride e t topic w) = fst (applyKeywordOverride e t topic w')
    \<and> sameView (snd (applyKeywordOverride e t topic w)) (snd (applyKeywordOverride e t topic w'))"
  using assms by (simp add: applyKeywordOverride_def sameView_prims)

lemma phaseResolve_view:
  assumes "sameView w w'"
  shows "fst (phaseResolve e cancelAt t pg w) = fst (phaseResolve e cancelAt' t pg w')
    \<and> sameView (snd (phaseResolve e cancelAt t pg w)) (snd (phaseResolve e cancelAt' t pg w'))"
proof -
  let ?w2 = "awaitAt cancelAt AwaitResolve (recordCall (CallResolvePostId (wpUrl e) t) w)"
  let ?w2' = "awaitAt cancelAt' AwaitResolve (recordCall (CallResolvePostId (wpUrl e) t) w')"
  have v2: "sameView ?w2 ?w2'"
    using assms by (simp add: sameView_prims)
  show ?thesis
  proof (cases "wpResolvePostIdEnhanced e (wpUrl e) t")
    case (Inl msg)
    then show ?thesis using v2 by (simp add: phaseResolve_def Let_def)
  next
    case (Inr postId)
    show ?thesis
    proof (cases "resolvedId postId")
      case None
      then show ?thesis
        using Inr v2 applyKeywordOverride_view [OF v2, of e t "pageTitle pg"]
        by (simp add: phaseResolve_def Let_def case_prod_unfold)
    next
      case (Some k)
      have f: "fst (fetchExisting e cancelAt t k (pageTitle pg) ?w2)
               = fst (fetchExisting e cancelAt' t k (pageTitle pg) ?w2')"
        and v3: "sameView (snd (fetchExisting e cancelAt t k (pageTitle pg) ?w2))
                   (snd (fetchExisting e cancelAt' t k (pageTitle pg) ?w2'))"
        using fetchExisting_view [OF v2] by auto
      show ?thesis
        using Inr Some f applyKeywordOverride_view [OF v3, of e t]
        by (simp add: phaseResolve_def Let_def case_prod_unfold)
    qed
  qed
qed

lemma phaseEntityGap_view:
  assumes "sameView w w'"
  shows "fst (phaseEntityGap e cancelAt t topic oc w) = fst (phaseEntityGap e cancelAt' t topic oc w')
    \<and> sameView (snd (phaseEntityGap e cancelAt t topic oc w))
                (snd (phaseEntityGap e cancelAt' t topic oc w'))"
  using assms by (simp add: phaseEntityGap_def Let_def sameView_prims split: sum.splits)

lemma phaseNeuron_view:
  assumes "sameView w w'"
  shows "fst (phaseNeuron e cancelAt t topic w) = fst (phaseNeuron e cancelAt' t topic w')
    \<and> sameView (snd (phaseNeuron e cancelAt t topic w)) (snd (phaseNeuron e cancelAt' t topic w'))"
  using assms
  by (simp add: phaseNeuron_def Let_def sameView_prims split: sum.splits option.splits)

lemma phaseInternalLinks_view:
  "sameView w w' \<Longrightarrow> sameView (phaseInternalLinks t w) (phaseInternalLinks t w')"
  by (simp add: phaseInternalLinks_def sameView_prims)

lemma enterResolve_view: "sameView w w' \<Longrightarrow> sameView (enterResolve t w) (enterResolve t w')"
  by (simp add: enterResolve_def sameView_prims)

lemma onStageProgress_view:
  "sameView w w' \<Longrightarrow> sameView (onStageProgress sp w) (onStageProgress sp w')"
  by (simp add: onStageProgress_def sameView_prims)

lemma stageCallbacks_view:
  "sameView w w' \<Longrightarrow> sameView (stageCallbacks cancelAt k sps w) (stageCallbacks cancelAt' k sps w')"
proof (induction sps arbitrary: k w w')
  case Nil
  then show ?case by (simp add: sameView_prims)
next
  case (Cons sp sps)
  have "sameView (onStageProgress sp (awaitAt cancelAt (AwaitGenerate k) w))
          (onStageProgress sp (awaitAt cancelAt' (AwaitGenerate k) w'))"
    using Cons.prems by (intro onStageProgress_view sameView_prims)
  then show ?case by (simp add: Cons.IH)
qed

lemma phaseSynthesis_view:
  assumes "sameView w w'"
  shows "fst (phaseSynthesis e cancelAt t topic oc eg nd w)
           = fst (phaseSynthesis e cancelAt' t topic oc eg nd w')
    \<and> sameView (snd (phaseSynthesis e cancelAt t topic oc eg nd w))
                (snd (phaseSynthesis e cancelAt' t topic oc eg nd w'))"
proof -
  let ?config = "synthesisConfigOf e t topic oc eg nd"
  let ?w1 = "\<lambda>v. recordCall (CallGenerateEnhanced ?config)
              (storeWrite (UpdateJobState t [Phase ''content_synthesis''])
                (updateProgress ''outline_generation'' noExtras v))"
  have "sameView (?w1 w) (?w1 w')"
    using assms by (intro sameView_prims)
  then have "sameView (stageCallbacks cancelAt 0 (fst (generateEnhanced e ?config)) (?w1 w))
               (stageCallbacks cancelAt' 0 (fst (generateEnhanced e ?config)) (?w1 w'))"
    by (rule stageCallbacks_view)
  then show ?thesis
    by (simp add: phaseSynthesis_def Let_def sameView_prims split: sum.splits)
qed

lemma phasePublish_view:
  assumes "sameView w w'"
  shows "fst (phasePublish e cancelAt t topic postId pres contract w)
           = fst (phasePublish e cancelAt' t topic postId pres contract w')
    \<and> sameView (snd (phasePublish e cancelAt t topic postId pres contract w))
                (snd (phasePublish e cancelAt' t topic postId pres contract w'))"
  using assms
  by (auto simp: phasePublish_def Let_def case_prod_unfold
      split: sum.splits option.splits intro!: sameView_prims)

lemma phaseComplete_view:
  assumes "sameView w w'"
  shows "fst (phaseComplete e t pg topic eg contract bwc fid w)
           = fst (phaseComplete e t pg topic eg contract bwc fid w')"
    and "sameView (snd (phaseComplete e t pg topic eg contract bwc fid w))
                (snd (phaseComplete e t pg topic eg contract bwc fid w'))"
    and "optimizationProgress (snd (phaseComplete e t pg topic eg contract bwc fid w))
           = optimizationProgress (snd (phaseComplete e t pg topic eg contract bwc fid w'))"
proof -
  show "fst (phaseComplete e t pg topic eg contract bwc fid w)
           = fst (phaseComplete e t pg topic eg contract bwc fid w')"
    by (simp add: phaseComplete_def Let_def)
  show v: "sameView (snd (phaseComplete e t pg topic eg contract bwc fid w))
                (snd (phaseComplete e t pg topic eg contract bwc fid w'))"
    using assms by (simp add: phaseComplete_def Let_def sameView_def mergeExtras_def)
  show "optimizationProgress (snd (phaseComplete e t pg topic eg contract bwc fid w))
           = optimizationProgress (snd (phaseComplete e t pg topic eg contract bwc fid w'))"
    using v by (intro progress_eqI) (simp_all add: sameView_def phaseComplete_def Let_def mergeExtras_def)
qed

lemma handleFailure_view:
  assumes "sameView w w'"
  shows "fst (handleFailure e silent t msg w) = fst (handleFailure e silent t msg w')"
    and "sameView (snd (handleFailure e silent t msg w)) (snd (handleFailure e silent t msg w'))"
    and "optimizationProgress (snd (handleFailure e silent t msg w))
           = optimizationProgress (snd (handleFailure e silent t msg w'))"
proof -
  show "fst (handleFailure e silent t msg w) = fst (handleFailure e silent t msg w')"
    by (simp add: handleFailure_def Let_def)
  show v: "sameView (snd (handleFailure e silent t msg w)) (snd (handleFailure e silent t msg w'))"
    using assms by (simp add: handleFailure_def Let_def sameView_def)
  show "optimizationProgress (snd (handleFailure e silent t msg w))
           = optimizationProgress (snd (handleFailure e silent t msg w'))"
    using v by (intro progress_eqI) (simp_all add: sameView_def handleFailure_def Let_def)
qed

lemma pipeline_view:
  assumes "sameView w w'"
  shows "fst (pipeline e cancelAt tov t w) = fst (pipeline e cancelAt' tov t w')"
    and "sameView (snd (pipeline e cancelAt tov t w)) (snd (pipeline e cancelAt' tov t w'))"
    and "\<not> isl (fst (pipeline e cancelAt tov t w)) \<Longrightarrow>
         optimizationProgress (snd (pipeline e cancelAt tov t w))
           = optimizationProgress (snd (pipeline e cancelAt' tov t w'))"
proof -
  let ?goal = "fst (pipeline e cancelAt tov t w) = fst (pipeline e cancelAt' tov t w')
    \<and> sameView (snd (pipeline e cancelAt tov t w)) (snd (pipeline e cancelAt' tov t w'))
    \<and> (\<not> isl (fst (pipeline e cancelAt tov t w)) \<longrightarrow>
         optimizationProgress (snd (pipeline e cancelAt tov t w))
           = optimizationProgress (snd (pipeline e cancelAt' tov t w')))"
  have v0: "sameView (enterResolve t w) (enterResolve t w')"
    using assms by (rule enterResolve_view)
  have ?goal
  proof (cases "getPage e tov t")
    case None
    then show ?thesis using v0 by (simp add: pipeline_def)
  next
    case (Some pg)
    obtain r1 w1 where p1: "phaseResolve e cancelAt t pg (enterResolve t w) = (r1, w1)"
      by (cases "phaseResolve e cancelAt t pg (enterResolve t w)")
    obtain r1' w1' where p1': "phaseResolve e cancelAt' t pg (enterResolve t w') = (r1', w1')"
      by (cases "phaseResolve e cancelAt' t pg (enterResolve t w')")
    have r1: "r1' = r1" and v1: "sameView w1 w1'"
      using phaseResolve_view [OF v0, of e cancelAt t pg cancelAt'] p1 p1' by auto
    show ?thesis
    proof (cases r1)
      case (Inl msg)
      then show ?thesis using Some p1 p1' r1 v1 by (simp add: pipeline_def)
    next
      case (Inr quad)
      obtain topic postId oc pres where quad: "quad = (topic, postId, oc, pres)"
        by (cases quad) auto
      obtain eg w2 where p2: "phaseEntityGap e cancelAt t topic oc w1 = (eg, w2)"
        by (cases "phaseEntityGap e cancelAt t topic oc w1")
      obtain eg' w2' where p2': "phaseEntityGap e cancelAt' t topic oc w1' = (eg', w2')"
        by (cases "phaseEntityGap e cancelAt' t topic oc w1'")
      have eg: "eg' = eg" and v2: "sameView w2 w2'"
        using phaseEntityGap_view [OF v1, of e cancelAt t topic oc cancelAt'] p2 p2' by auto
      obtain nd w3 where p3: "phaseNeuron e cancelAt t topic w2 = (nd, w3)"
        by (cases "phaseNeuron e cancelAt t topic w2")
      obtain nd' w3' where p3': "phaseNeuron e cancelAt' t topic w2' = (nd', w3')"
        by (cases "phaseNeuron e cancelAt' t topic w2'")
      have nd: "nd' = nd" and v3: "sameView w3 w3'"
        using phaseNeuron_view [OF v2, of e cancelAt t topic cancelAt'] p3 p3' by auto
      have v4: "sameView (phaseInternalLinks t w3) (phaseInternalLinks t w3')"
        using v3 by (rule phaseInternalLinks_view)
      obtain r5 w5 where
        p5: "phaseSynthesis e cancelAt t topic oc eg nd (phaseInternalLinks t w3) = (r5, w5)"
        by (cases "phaseSynthesis e cancelAt t topic oc eg nd (phaseInternalLinks t w3)")
      obtain r5' w5' where
        p5': "phaseSynthesis e cancelAt' t topic oc eg nd (phaseInternalLinks t w3') = (r5', w5')"
        by (cases "phaseSynthesis e cancelAt' t topic oc eg nd (phaseInternalLinks t w3')")
      have r5: "r5' = r5" and v5: "sameView w5 w5'"
        using phaseSynthesis_view [OF v4, of e cancelAt t topic oc eg nd cancelAt'] p5 p5' by auto
      note through = Some p1 p1' r1 Inr quad p2 p2' eg p3 p3' nd p5 p5' r5
      show ?thesis
      proof (cases r5)
        case (Inl msg)
        then show ?thesis using through v5 by (simp add: pipeline_def)
      next
        case (Inr triple)
        obtain contract bs bwc where triple: "triple = (contract, bs, bwc)"
          by (cases triple) auto
        obtain r6 w6 where p6: "phasePublish e cancelAt t topic postId pres contract w5 = (r6, w6)"
          by (cases "phasePublish e cancelAt t topic postId pres contract w5")
        obtain r6' w6' where
          p6': "phasePublish e cancelAt' t topic postId pres contract w5' = (r6', w6')"
          by (cases "phasePublish e cancelAt' t topic postId pres contract w5'")
        have r6: "r6' = r6" and v6: "sameView w6 w6'"
          using phasePublish_view [OF v5, of e cancelAt t topic postId pres contract cancelAt']
            p6 p6' by auto
        show ?thesis
        proof (cases r6)
          case (Inl msg)
          then show ?thesis
            using through Inr triple p6 p6' r6 v6 by (simp add: pipeline_def)
        next
          case fid: (Inr fid)
          show ?thesis
            using through Inr triple p6 p6' r6 fid
              phaseComplete_view [OF v6, of e t pg topic eg contract bwc fid]
            by (simp add: pipeline_def case_prod_unfold Let_def)
        qed
      qed
    qed
  qed
  then show "fst (pipeline e cancelAt tov t w) = fst (pipeline e cancelAt' tov t w')"
    and "sameView (snd (pipeline e cancelAt tov t w)) (snd (pipeline e cancelAt' tov t w'))"
    and "\<not> isl (fst (pipeline e cancelAt tov t w)) \<Longrightarrow>
         optimizationProgress (snd (pipeline e cancelAt tov t w))
           = optimizationProgress (snd (pipeline e cancelAt' tov t w'))"
    by auto
qed

lemma sameView_refl: "sameView w w"
  by (simp add: sameView_def)

lemma runJob_view:
  "fst (runJob e cancelAt tov silent t w) = fst (runJob e cancelAt' tov silent t w)
   \<and> sameView (snd (runJob e cancelAt tov silent t w)) (snd (runJob e cancelAt' tov silent t w))
   \<and> optimizationProgress (snd (runJob e cancelAt tov silent t w))
       = optimizationProgress (snd (runJob e cancelAt' tov silent t w))"
proof -
  let ?w = "startJob e tov t w"
  obtain r w1 where p: "pipeline e cancelAt tov t ?w = (r, w1)"
    by (cases "pipeline e cancelAt tov t ?w")
  obtain r' w1' where p': "pipeline e cancelAt' tov t ?w = (r', w1')"
    by (cases "pipeline e cancelAt' tov t ?w")
  have r: "r' = r" and v: "sameView w1 w1'"
    using pipeline_view(1,2) [OF sameView_refl, of e cancelAt tov t ?w cancelAt'] p p' by auto
  show ?thesis
  proof (cases r)
    case (Inl msg)
    then show ?thesis
      using p p' r handleFailure_view [OF v, of e silent t msg] by (simp add: runJob_def)
  next
    case (Inr res)
    then show ?thesis
      using p p' r v pipeline_view(3) [OF sameView_refl, of e cancelAt tov t ?w cancelAt']
      by (simp add: runJob_def)
  qed
qed

lemma executeGodMode_view:
  "fst (executeGodMode e cancelAt tov silent (freshWorld p tok))
     = fst (executeGodMode e cancelAt' tov silent (freshWorld p tok'))
   \<and> sameView (snd (executeGodMode e cancelAt tov silent (freshWorld p tok)))
               (snd (executeGodMode e cancelAt' tov silent (freshWorld p tok')))
   \<and> optimizationProgress (snd (executeGodMode e cancelAt tov silent (freshWorld p tok)))
       = optimizationProgress (snd (executeGodMode e cancelAt' tov silent (freshWorld p tok')))"
proof -
  have reset: "resetCancellationToken (freshWorld p tok) = resetCancellationToken (freshWorld p tok')"
    by (simp add: resetCancellationToken_def freshWorld_def)
  show ?thesis
    using runJob_view [of e cancelAt tov silent _ _ cancelAt']
    by (simp add: executeGodMode_def reset Let_def sameView_refl split: option.splits)
qed

section \<open>Properties of a single run\<close>

lemma finalScoreOf_int:
  "finalScoreOf m qa =
     (25 * aeoScore m + 45 * qa + 15 * contentDepth m + 15 * headingStructure m + 50) div 100"
proof -
  have "(of_int (aeoScore m) * (25 / 100) + of_int qa * (45 / 100)
          + of_int (contentDepth m) * (15 / 100) + of_int (headingStructure m) * (15 / 100)
          + 1 / 2 :: rat)
        = of_int (25 * aeoScore m + 45 * qa + 15 * contentDepth m + 15 * headingStructure m + 50)
          / of_int 100"
    by (simp add: field_simps)
  then show ?thesis
    unfolding finalScoreOf_def js_round_def by (simp only: floor_divide_of_int_eq)
qed

lemmas run_defs =
  executeGodMode_def runJob_def pipeline_def startJob_def handleFailure_def phaseComplete_def
  phasePublish_def phaseSynthesis_def phaseInternalLinks_def phaseNeuron_def phaseEntityGap_def
  phaseResolve_def enterResolve_def fetchExisting_def applyKeywordOverride_def
  synthesisConfigOf_def internalLinksOf_def onStageProgress_def basePublishData_def
  updatePublishData_def updateOptionsOf_def attemptsOf_def hasJobState_def
  initialProgress_def resolveTarget_def getPage_def livePages_def addsManualPage_def
  usesManualUrl_def firstCandidate_def notRunning_def healthOrZero_def newPage_def
  hasRequiredKeys_def hasNeuronConfig_def failWith_def logLine_def handleManualUrl_def
  failure_def truthy_def orElse_def
  falsyId_def truthyNum_def resolvedId_def emptyPreservation_def optOrZero_def
  typeErrorMessage_def startsWith_def

lemmas world_defs =
  updateProgress_def mergeExtras_def noExtras_def awaitAt_def cancelCurrentJob_def
  resetCancellationToken_def recordCall_def storeWrite_def setOptimizationProgress_def
  recordLog_def setManualUrl_def freshWorld_def idleProgress_def noCancel_def demoWorld_def

lemmas demo_defs = demoEnv_def demoPage_def demoContract_def

lemma awaitAt_noCancel [simp]: "awaitAt noCancel pt w = w"
  by (simp add: awaitAt_def noCancel_def)

lemma observe_freshWorld [simp]:
  "phaseSequence (freshWorld p tok) = []"
  "storeWrites (freshWorld p tok) = []"
  "calls (freshWorld p tok) = []"
  "optimizationProgress (freshWorld p tok) = p"
  "logCalls (freshWorld p tok) = []"
  "manualUrlWrites (freshWorld p tok) = []"
  by (simp_all add: freshWorld_def phaseSequence_def)

lemma demo_result:
  "fst (executeGodMode demoEnv noCancel None True demoWorld)
   = \<lparr>success = True, score = 80, wordCount = 1, error = None\<rparr>"
  by (simp add: run_defs world_defs demo_defs Let_def finalScoreOf_int)

lemma demo_phaseSequence:
  "phaseSequence (snd (executeGodMode demoEnv noCancel None True demoWorld))
   = [''initializing'', ''initializing'', ''resolving_post'', ''internal_linking'',
      ''outline_generation'', ''qa_validation'', ''publishing'', ''completed'', ''completed'']"
  by (simp add: run_defs demo_defs demoWorld_def idleProgress_def Let_def finalScoreOf_int
      mergeExtras_def noExtras_def)

text \<open>
  C1: the step index of the snapshots of a successful run never decreases, and is 15 only at
  completion. A successful run of the concrete environment issues the steps below:
  \<^verbatim>\<open>internal_linking\<close> (11) comes before \<^verbatim>\<open>outline_generation\<close> (7).
\<close>

theorem C1_step_sequence_of_successful_run:
  "success (fst (executeGodMode demoEnv noCancel None True demoWorld))
   \<and> stepSequence (snd (executeGodMode demoEnv noCancel None True demoWorld))
       = [1, 1, 2, 11, 7, 12, 14, 15, 15]
   \<and> \<not> sorted (stepSequence (snd (executeGodMode demoEnv noCancel None True demoWorld)))"
  by (simp add: demo_result stepSequence_def demo_phaseSequence currentStep_def PHASE_CONFIG_def)

theorem C1_step_sequence_of_successful_run_witness:
  "stepSequence (snd (executeGodMode demoEnv noCancel None True demoWorld)) ! 3 = 11
   \<and> stepSequence (snd (executeGodMode demoEnv noCancel None True demoWorld)) ! 4 = 7
   \<and> last (stepSequence (snd (executeGodMode demoEnv noCancel None True demoWorld))) = 15"
  using C1_step_sequence_of_successful_run by simp

text \<open>
  C7: the returned value, the phases that the orchestrator issues, the store writes, the
  collaborator calls and the progress state at return are the same for any two schedules of
  cancellation requests and any two states of the token before the run.
\<close>

theorem C7_result_independent_of_cancellation:
  "fst (executeGodMode e cancelAt tov silent (freshWorld p tok))
     = fst (executeGodMode e cancelAt' tov silent (freshWorld p tok'))
   \<and> phaseSequence (snd (executeGodMode e cancelAt tov silent (freshWorld p tok)))
     = phaseSequence (snd (executeGodMode e cancelAt' tov silent (freshWorld p tok')))
   \<and> storeWrites (snd (executeGodMode e cancelAt tov silent (freshWorld p tok)))
     = storeWrites (snd (executeGodMode e cancelAt' tov silent (freshWorld p tok')))
   \<and> calls (snd (executeGodMode e cancelAt tov silent (freshWorld p tok)))
     = calls (snd (executeGodMode e cancelAt' tov silent (freshWorld p tok')))
   \<and> optimizationProgress (snd (executeGodMode e cancelAt tov silent (freshWorld p tok)))
     = optimizationProgress (snd (executeGodMode e cancelAt' tov silent (freshWorld p tok')))
   \<and> cancellationToken (resetCancellationToken (freshWorld p tok)) = False"
  using executeGodMode_view [of e cancelAt tov silent p tok cancelAt' tok']
  by (simp add: sameView_def resetCancellationToken_def)

theorem C7_result_independent_of_cancellation_witness:
  "fst (executeGodMode demoEnv (\<lambda>pt. pt = AwaitPublish) None True (freshWorld idleProgress True))
     = \<lparr>success = True, score = 80, wordCount = 1, error = None\<rparr>
   \<and> phaseSequence (snd (executeGodMode demoEnv (\<lambda>pt. pt = AwaitPublish) None True
        (freshWorld idleProgress True)))
     = [''initializing'', ''initializing'', ''resolving_post'', ''internal_linking'',
        ''outline_generation'', ''qa_validation'', ''publishing'', ''completed'', ''completed'']"
  using C7_result_independent_of_cancellation
          [of demoEnv "\<lambda>pt. pt = AwaitPublish" None True idleProgress True noCancel False]
        demo_result demo_phaseSequence
  by (simp add: demoWorld_def)

lemma jobPhaseHistory_prims [simp]:
  "jobPhaseHistory (storeWrite x w) = jobPhaseHistory w @ phasesOfWrite x"
  "jobPhaseHistory (recordCall c w) = jobPhaseHistory w"
  "jobPhaseHistory (awaitAt cancelAt pt w) = jobPhaseHistory w"
  "jobPhaseHistory (updateProgress ph ex w) = jobPhaseHistory w"
  "jobPhaseHistory (setOptimizationProgress who f w) = jobPhaseHistory w"
  "jobPhaseHistory (resetCancellationToken w) = jobPhaseHistory w"
  "jobPhaseHistory (logLine t silent msg w) = jobPhaseHistory w"
  "jobPhaseHistory (recordLog l w) = jobPhaseHistory w"
  "jobPhaseHistory (handleManualUrl e tov silent w) = jobPhaseHistory w"
  "jobPhaseHistory (freshWorld p tok) = []"
  by (simp_all add: jobPhaseHistory_def)


lemma failWith_facts:
  "fst (failWith tid silent msg w) = failure msg"
  "storeWrites (snd (failWith tid silent msg w)) = storeWrites w"
  "calls (snd (failWith tid silent msg w)) = calls w"
  "phaseSequence (snd (failWith tid silent msg w)) = phaseSequence w @ [''failed'']"
  "optimizationProgress (snd (failWith tid silent msg w))
     = (optimizationProgress w)\<lparr>isRunning := False, phase := ''failed''\<rparr>"
  "jobPhaseHistory (snd (failWith tid silent msg w)) = jobPhaseHistory w"
  by (simp_all add: failWith_def)

lemma handleFailure_facts:
  "fst (handleFailure e silent t msg w) = failure (orElse msg ''Unknown error'')"
  "storeWrites (snd (handleFailure e silent t msg w))
     = storeWrites w @
       [UpdateJobState t [Status ''failed'', Phase ''failed'',
                          Error (Some (orElse msg ''Unknown error'')),
                          ProcessingTime (nowEnd e - nowStart e)],
        UpdatePage t [PageStatus ''error'']]"
  "calls (snd (handleFailure e silent t msg w)) = calls w"
  "phaseSequence (snd (handleFailure e silent t msg w)) = phaseSequence w @ [''failed'']"
  "optimizationProgress (snd (handleFailure e silent t msg w))
     = (optimizationProgress w)\<lparr>isRunning := False, phase := ''failed''\<rparr>"
  by (simp_all add: handleFailure_def Let_def)



lemma executeGodMode_guarded:
  assumes "guardsPass e tov"
  shows "\<exists>t. resolveTarget e tov = Some t \<and>
           executeGodMode e cancelAt tov silent w =
             runJob e cancelAt tov silent t
               (handleManualUrl e tov silent
                  (setOptimizationProgress ByOrchestrator (\<lambda>prev. initialProgress e tov)
                    (resetCancellationToken w)))"
  using assms by (auto simp: guardsPass_def executeGodMode_def Let_def split: option.splits)

lemma executeGodMode_unguarded:
  assumes "\<not> guardsPass e tov"
  shows "\<exists>tid msg. msg \<noteq> [] \<and>
           executeGodMode e cancelAt tov silent w =
             failWith tid silent msg
               (handleManualUrl e tov silent
                  (setOptimizationProgress ByOrchestrator (\<lambda>prev. initialProgress e tov)
                    (resetCancellationToken w)))"
  using assms by (auto simp: guardsPass_def executeGodMode_def Let_def split: option.splits)


lemma failure_fields:
  "\<not> success (failure msg)" "score (failure msg) = 0" "wordCount (failure msg) = 0"
  "error (failure msg) = Some msg"
  by (simp_all add: failure_def)

subsection \<open>A failure ends the run where it is raised\<close>

lemma noTerminal_prims [simp]:
  "noTerminal (storeWrite x w) = (\<not> isTerminalWrite x \<and> noTerminal w)"
  "noTerminal (recordCall c w) = noTerminal w"
  "noTerminal (awaitAt cancelAt pt w) = noTerminal w"
  "noTerminal (updateProgress ph ex w) = (ph \<noteq> ''completed'' \<and> ph \<noteq> ''failed'' \<and> noTerminal w)"
  "noTerminal (setOptimizationProgress ByOrchestrator f w)
     = (phase (f (optimizationProgress w)) \<noteq> ''completed''
        \<and> phase (f (optimizationProgress w)) \<noteq> ''failed'' \<and> noTerminal w)"
  "noTerminal (resetCancellationToken w) = noTerminal w"
  "noTerminal (handleManualUrl e tov silent w) = noTerminal w"
  "noTerminal (freshWorld p tok)"
  by (auto simp: noTerminal_def)

lemma noneRaised_prims [simp]:
  "noneRaised e (storeWrite x w) = noneRaised e w"
  "noneRaised e (recordCall c w) = (stepError e c = None \<and> noneRaised e w)"
  "noneRaised e (awaitAt cancelAt pt w) = noneRaised e w"
  "noneRaised e (updateProgress ph ex w) = noneRaised e w"
  "noneRaised e (setOptimizationProgress who f w) = noneRaised e w"
  "noneRaised e (resetCancellationToken w) = noneRaised e w"
  "noneRaised e (handleManualUrl e' tov silent w) = noneRaised e w"
  "noneRaised e (freshWorld p tok)"
  by (auto simp: noneRaised_def)

lemma raisedLast_prims [simp]:
  "raisedLast e m (awaitAt cancelAt pt w) = raisedLast e m w"
  "raisedLast e m (updateProgress ph ex w) = raisedLast e m w"
  "raisedLast e m (setOptimizationProgress who f w) = raisedLast e m w"
  by (simp_all add: raisedLast_def)


lemma stageCallbacks_under:
  "noTerminal (stageCallbacks cancelAt k sps w) = noTerminal w
   \<and> calls (stageCallbacks cancelAt k sps w) = calls w
   \<and> jobPhaseHistory (stageCallbacks cancelAt k sps w) = jobPhaseHistory w"
  by (induction sps arbitrary: k w) (simp_all add: onStageProgress_def)

lemma stageCallbacks_raised:
  "noneRaised e (stageCallbacks cancelAt k sps w) = noneRaised e w"
  "raisedLast e m (stageCallbacks cancelAt k sps w) = raisedLast e m w"
  by (simp_all add: noneRaised_def raisedLast_def stageCallbacks_under)

















lemma failure_inject [simp]: "failure a = failure b \<longleftrightarrow> a = b"
  by (auto simp: failure_def)



text \<open>A run that a guard ends: the result, and the whole of what it leaves.\<close>

lemma executeGodMode_at_guard:
  assumes "\<not> guardsPass e tov"
  shows "\<exists>msg. msg \<noteq> []
    \<and> fst (executeGodMode e cancelAt tov silent (freshWorld p tok)) = failure msg
    \<and> snd (executeGodMode e cancelAt tov silent (freshWorld p tok)) =
        \<lparr>optimizationProgress = (initialProgress e tov)\<lparr>isRunning := False, phase := ''failed''\<rparr>,
         cancellationToken = False,
         snapshots =
           [(ByOrchestrator, initialProgress e tov),
            (ByOrchestrator, (initialProgress e tov)\<lparr>isRunning := False, phase := ''failed''\<rparr>)],
         storeWrites = (if addsManualPage e tov then [AddPages [newPage e]] else []),
         calls = [],
         logCalls =
           (case resolveTarget e tov of
              None \<Rightarrow> []
            | Some t \<Rightarrow> if truthy t then [AddJobLog t (CrossMarked msg)] else [])
           @ (if silent then [] else [AddGodLog (CrossMarked msg)]),
         manualUrlWrites = (if usesManualUrl e tov \<and> \<not> silent then [[]] else [])\<rparr>"
  using assms
  by (auto simp: guardsPass_def executeGodMode_def failWith_def logLine_def handleManualUrl_def
      failure_def addsManualPage_def setOptimizationProgress_def storeWrite_def recordLog_def
      setManualUrl_def resetCancellationToken_def freshWorld_def Let_def
      split: option.splits)

lemma guard_messages:
  "falsyId (resolveTarget e tov) \<Longrightarrow>
     fst (executeGodMode e cancelAt tov silent w) = failure ''No pages to optimize''"
  "\<not> falsyId (resolveTarget e tov) \<Longrightarrow> \<not> hasRequiredKeys e \<Longrightarrow>
     fst (executeGodMode e cancelAt tov silent w) = failure ''No AI API key configured''"
  "\<not> falsyId (resolveTarget e tov) \<Longrightarrow> hasRequiredKeys e \<Longrightarrow> \<not> truthy (wpUrl e) \<Longrightarrow>
     fst (executeGodMode e cancelAt tov silent w) = failure ''WordPress URL not configured''"
  "\<not> falsyId (resolveTarget e tov) \<Longrightarrow> hasRequiredKeys e \<Longrightarrow> truthy (wpUrl e) \<Longrightarrow>
     \<not> (truthy (wpUsername e) \<and> truthy (wpPassword e)) \<Longrightarrow>
     fst (executeGodMode e cancelAt tov silent w) = failure ''WordPress credentials not configured''"
  by (auto simp: executeGodMode_def failWith_def falsyId_def Let_def split: option.splits)




text \<open>
  C6 as stated: a run without a content key fails with \<^verbatim>\<open>No AI API key configured\<close>, and
  analogously for a missing site URL. The guards are checked in order. A run without a key,
  started with an empty catalogue and a manual URL that does not begin with \<^verbatim>\<open>http\<close>, has
  no target and fails with \<^verbatim>\<open>No pages to optimize\<close>; and a run without a key and without
  a site URL reports the key only.
\<close>

theorem C6_counterexample:
  "\<not> hasRequiredKeys (demoEnv\<lparr>keyGoogle := [], pages := [], manualUrl := ''example.com/new''\<rparr>)
   \<and> error (fst (executeGodMode
                   (demoEnv\<lparr>keyGoogle := [], pages := [], manualUrl := ''example.com/new''\<rparr>)
                   noCancel None False demoWorld))
       = Some ''No pages to optimize''
   \<and> \<not> truthy (wpUrl (demoEnv\<lparr>keyGoogle := [], wpUrl := []\<rparr>))
   \<and> error (fst (executeGodMode (demoEnv\<lparr>keyGoogle := [], wpUrl := []\<rparr>) noCancel None False demoWorld))
       = Some ''No AI API key configured''"
  by (simp add: run_defs demo_defs demoWorld_def Let_def)

text \<open>
  C6, amended: the guards are checked in the order target, content key, site URL, site
  credentials, and the first that fails gives the error: \<^verbatim>\<open>No pages to optimize\<close> without a
  target, whatever is configured; \<^verbatim>\<open>No AI API key configured\<close> with a target and without a
  content key; \<^verbatim>\<open>WordPress URL not configured\<close> with a target and a key and without a site
  URL; \<^verbatim>\<open>WordPress credentials not configured\<close> when only the user name or the password is
  missing. A run that a guard ends fails before any phase starts and leaves exactly this:
  the initial snapshot and the failed one; the page of a manual URL that the catalogue lacks,
  added to the store; the cleared input field when the manual URL was used and the run is
  not silent; the log line of the error, for the target if there is one and in the global
  log unless the run is silent; no collaborator call and no write to a job state, whose
  phase history stays empty.
\<close>

theorem C6_guard_failures:
  "let r = fst (executeGodMode e cancelAt tov silent (freshWorld p tok));
       w' = snd (executeGodMode e cancelAt tov silent (freshWorld p tok));
       target = resolveTarget e tov
   in (falsyId target \<longrightarrow> r = failure ''No pages to optimize'')
      \<and> (\<not> falsyId target \<and> \<not> hasRequiredKeys e \<longrightarrow> r = failure ''No AI API key configured'')
      \<and> (\<not> falsyId target \<and> hasRequiredKeys e \<and> \<not> truthy (wpUrl e) \<longrightarrow>
            r = failure ''WordPress URL not configured'')
      \<and> (\<not> falsyId target \<and> hasRequiredKeys e \<and> truthy (wpUrl e)
            \<and> \<not> (truthy (wpUsername e) \<and> truthy (wpPassword e)) \<longrightarrow>
            r = failure ''WordPress credentials not configured'')
      \<and> (\<not> guardsPass e tov \<longrightarrow>
            (\<exists>msg. r = failure msg
               \<and> w' =
                   \<lparr>optimizationProgress =
                      (initialProgress e tov)\<lparr>isRunning := False, phase := ''failed''\<rparr>,
                    cancellationToken = False,
                    snapshots =
                      [(ByOrchestrator, initialProgress e tov),
                       (ByOrchestrator,
                        (initialProgress e tov)\<lparr>isRunning := False, phase := ''failed''\<rparr>)],
                    storeWrites = (if addsManualPage e tov then [AddPages [newPage e]] else []),
                    calls = [],
                    logCalls =
                      (case target of
                         None \<Rightarrow> []
                       | Some t \<Rightarrow> if truthy t then [AddJobLog t (CrossMarked msg)] else [])
                      @ (if silent then [] else [AddGodLog (CrossMarked msg)]),
                    manualUrlWrites = (if usesManualUrl e tov \<and> \<not> silent then [[]] else [])\<rparr>)
            \<and> phaseSequence w' = [''initializing'', ''failed'']
            \<and> jobPhaseHistory w' = []
            \<and> filter isJobStateWrite (storeWrites w') = [])"
proof -
  have guard: "\<not> guardsPass e tov \<longrightarrow>
            (\<exists>msg. fst (executeGodMode e cancelAt tov silent (freshWorld p tok)) = failure msg
               \<and> snd (executeGodMode e cancelAt tov silent (freshWorld p tok)) =
                   \<lparr>optimizationProgress =
                      (initialProgress e tov)\<lparr>isRunning := False, phase := ''failed''\<rparr>,
                    cancellationToken = False,
                    snapshots =
                      [(ByOrchestrator, initialProgress e tov),
                       (ByOrchestrator,
                        (initialProgress e tov)\<lparr>isRunning := False, phase := ''failed''\<rparr>)],
                    storeWrites = (if addsManualPage e tov then [AddPages [newPage e]] else []),
                    calls = [],
                    logCalls =
                      (case resolveTarget e tov of
                         None \<Rightarrow> []
                       | Some t \<Rightarrow> if truthy t then [AddJobLog t (CrossMarked msg)] else [])
                      @ (if silent then [] else [AddGodLog (CrossMarked msg)]),
                    manualUrlWrites = (if usesManualUrl e tov \<and> \<not> silent then [[]] else [])\<rparr>)
            \<and> phaseSequence (snd (executeGodMode e cancelAt tov silent (freshWorld p tok)))
                = [''initializing'', ''failed'']
            \<and> jobPhaseHistory (snd (executeGodMode e cancelAt tov silent (freshWorld p tok))) = []
            \<and> filter isJobStateWrite
                (storeWrites (snd (executeGodMode e cancelAt tov silent (freshWorld p tok)))) = []"
  proof
    assume g: "\<not> guardsPass e tov"
    obtain msg where
      r: "fst (executeGodMode e cancelAt tov silent (freshWorld p tok)) = failure msg"
      and w': "snd (executeGodMode e cancelAt tov silent (freshWorld p tok)) =
                   \<lparr>optimizationProgress =
                      (initialProgress e tov)\<lparr>isRunning := False, phase := ''failed''\<rparr>,
                    cancellationToken = False,
                    snapshots =
                      [(ByOrchestrator, initialProgress e tov),
                       (ByOrchestrator,
                        (initialProgress e tov)\<lparr>isRunning := False, phase := ''failed''\<rparr>)],
                    storeWrites = (if addsManualPage e tov then [AddPages [newPage e]] else []),
                    calls = [],
                    logCalls =
                      (case resolveTarget e tov of
                         None \<Rightarrow> []
                       | Some t \<Rightarrow> if truthy t then [AddJobLog t (CrossMarked msg)] else [])
                      @ (if silent then [] else [AddGodLog (CrossMarked msg)]),
                    manualUrlWrites = (if usesManualUrl e tov \<and> \<not> silent then [[]] else [])\<rparr>"
      using executeGodMode_at_guard [OF g] by blast
    show "(\<exists>msg. fst (executeGodMode e cancelAt tov silent (freshWorld p tok)) = failure msg
               \<and> snd (executeGodMode e cancelAt tov silent (freshWorld p tok)) =
                   \<lparr>optimizationProgress =
                      (initialProgress e tov)\<lparr>isRunning := False, phase := ''failed''\<rparr>,
                    cancellationToken = False,
                    snapshots =
                      [(ByOrchestrator, initialProgress e tov),
                       (ByOrchestrator,
                        (initialProgress e tov)\<lparr>isRunning := False, phase := ''failed''\<rparr>)],
                    storeWrites = (if addsManualPage e tov then [AddPages [newPage e]] else []),
                    calls = [],
                    logCalls =
                      (case resolveTarget e tov of
                         None \<Rightarrow> []
                       | Some t \<Rightarrow> if truthy t then [AddJobLog t (CrossMarked msg)] else [])
                      @ (if silent then [] else [AddGodLog (CrossMarked msg)]),
                    manualUrlWrites = (if usesManualUrl e tov \<and> \<not> silent then [[]] else [])\<rparr>)
            \<and> phaseSequence (snd (executeGodMode e cancelAt tov silent (freshWorld p tok)))
                = [''initializing'', ''failed'']
            \<and> jobPhaseHistory (snd (executeGodMode e cancelAt tov silent (freshWorld p tok))) = []
            \<and> filter isJobStateWrite
                (storeWrites (snd (executeGodMode e cancelAt tov silent (freshWorld p tok)))) = []"
    proof (intro conjI)
      show "\<exists>msg. fst (executeGodMode e cancelAt tov silent (freshWorld p tok)) = failure msg
               \<and> snd (executeGodMode e cancelAt tov silent (freshWorld p tok)) =
                   \<lparr>optimizationProgress =
                      (initialProgress e tov)\<lparr>isRunning := False, phase := ''failed''\<rparr>,
                    cancellationToken = False,
                    snapshots =
                      [(ByOrchestrator, initialProgress e tov),
                       (ByOrchestrator,
                        (initialProgress e tov)\<lparr>isRunning := False, phase := ''failed''\<rparr>)],
                    storeWrites = (if addsManualPage e tov then [AddPages [newPage e]] else []),
                    calls = [],
                    logCalls =
                      (case resolveTarget e tov of
                         None \<Rightarrow> []
                       | Some t \<Rightarrow> if truthy t then [AddJobLog t (CrossMarked msg)] else [])
                      @ (if silent then [] else [AddGodLog (CrossMarked msg)]),
                    manualUrlWrites = (if usesManualUrl e tov \<and> \<not> silent then [[]] else [])\<rparr>"
        using r w' by blast
    qed (simp_all add: w' phaseSequence_def jobPhaseHistory_def initialProgress_def)
  qed
  show ?thesis
    unfolding Let_def
    using guard guard_messages [of e tov cancelAt silent "freshWorld p tok"]
    by blast
qed

theorem C6_guard_failures_witness:
  "\<not> guardsPass (demoEnv\<lparr>keyGoogle := []\<rparr>) None
   \<and> fst (executeGodMode (demoEnv\<lparr>keyGoogle := []\<rparr>) noCancel None False demoWorld)
       = failure ''No AI API key configured''
   \<and> phaseSequence (snd (executeGodMode (demoEnv\<lparr>keyGoogle := []\<rparr>) noCancel None False demoWorld))
       = [''initializing'', ''failed'']
   \<and> fst (executeGodMode (demoEnv\<lparr>wpUrl := []\<rparr>) noCancel None False demoWorld)
       = failure ''WordPress URL not configured''
   \<and> storeWrites (snd (executeGodMode (demoEnv\<lparr>keyGoogle := [], manualUrl := ''https://a.com/new''\<rparr>)
                         noCancel None False demoWorld))
       = [AddPages [newPage (demoEnv\<lparr>keyGoogle := [], manualUrl := ''https://a.com/new''\<rparr>)]]
   \<and> logCalls (snd (executeGodMode (demoEnv\<lparr>keyGoogle := [], manualUrl := ''https://a.com/new''\<rparr>)
                       noCancel None False demoWorld))
       = [AddJobLog ''https://a.com/new'' (CrossMarked ''No AI API key configured''),
          AddGodLog (CrossMarked ''No AI API key configured'')]"
proof -
  let ?nokey = "demoEnv\<lparr>keyGoogle := []\<rparr>"
  let ?nourl = "demoEnv\<lparr>wpUrl := []\<rparr>"
  let ?manual = "demoEnv\<lparr>keyGoogle := [], manualUrl := ''https://a.com/new''\<rparr>"
  have t: "resolveTarget ?nokey None = Some ''https://a.com/x''"
    "resolveTarget ?nourl None = Some ''https://a.com/x''"
    "resolveTarget ?manual None = Some ''https://a.com/new''"
    and k: "\<not> hasRequiredKeys ?nokey" "hasRequiredKeys ?nourl" "\<not> hasRequiredKeys ?manual"
    and u: "\<not> truthy (wpUrl ?nourl)"
    and a: "addsManualPage ?manual None"
    and g: "\<not> guardsPass ?nokey None" "\<not> guardsPass ?manual None"
    by (simp_all add: guardsPass_def run_defs demo_defs)
  have f: "\<And>s. failure s = failure ''No AI API key configured''
      \<longleftrightarrow> s = ''No AI API key configured''"
    by (auto simp: failure_def)
  show ?thesis
    using C6_guard_failures [of ?nokey noCancel None False idleProgress False]
      C6_guard_failures [of ?nourl noCancel None False idleProgress False]
      C6_guard_failures [of ?manual noCancel None False idleProgress False]
      t k u a g
    by (auto simp: Let_def demoWorld_def falsyId_def truthy_def f)
qed

lemma generateConfigs_append [simp]:
  "generateConfigs (xs @ ys) = generateConfigs xs @ generateConfigs ys"
  by (induction xs rule: generateConfigs.induct) simp_all

lemma publishingReached_prims [simp]:
  "publishingReached (storeWrite x w) = publishingReached w"
  "publishingReached (recordCall c w) = (isPublishCall c \<or> publishingReached w)"
  "publishingReached (awaitAt cancelAt pt w) = publishingReached w"
  "publishingReached (updateProgress ph ex w) = (ph = ''publishing'' \<or> publishingReached w)"
  "publishingReached (setOptimizationProgress ByOrchestrator f w)
     = (phase (f (optimizationProgress w)) = ''publishing'' \<or> publishingReached w)"
  "publishingReached (resetCancellationToken w) = publishingReached w"
  "publishingReached (handleManualUrl e tov silent w) = publishingReached w"
  "publishingReached (logLine t silent msg w) = publishingReached w"
  "publishingReached (recordLog l w) = publishingReached w"
  by (auto simp: publishingReached_def)

lemma publishingReached_freshWorld [simp]: "\<not> publishingReached (freshWorld p tok)"
  by (simp add: publishingReached_def)

lemma fetchExisting_synth:
  "publishingReached (snd (fetchExisting e cancelAt t k topic0 w)) = publishingReached w
   \<and> generateConfigs (calls (snd (fetchExisting e cancelAt t k topic0 w))) = generateConfigs (calls w)"
  by (simp add: fetchExisting_def Let_def split: sum.splits)

lemma applyKeywordOverride_synth:
  "publishingReached (snd (applyKeywordOverride e t topic w)) = publishingReached w
   \<and> generateConfigs (calls (snd (applyKeywordOverride e t topic w))) = generateConfigs (calls w)"
  by (simp add: applyKeywordOverride_def)

lemma phaseResolve_synth:
  "publishingReached (snd (phaseResolve e cancelAt t pg w)) = publishingReached w
   \<and> generateConfigs (calls (snd (phaseResolve e cancelAt t pg w))) = generateConfigs (calls w)"
  by (simp add: phaseResolve_def Let_def case_prod_unfold applyKeywordOverride_synth
      fetchExisting_synth split: sum.splits option.splits)

lemma phaseEntityGap_synth:
  "publishingReached (snd (phaseEntityGap e cancelAt t topic oc w)) = publishingReached w
   \<and> generateConfigs (calls (snd (phaseEntityGap e cancelAt t topic oc w))) = generateConfigs (calls w)"
  by (simp add: phaseEntityGap_def Let_def split: sum.splits)

lemma phaseNeuron_synth:
  "publishingReached (snd (phaseNeuron e cancelAt t topic w)) = publishingReached w
   \<and> generateConfigs (calls (snd (phaseNeuron e cancelAt t topic w))) = generateConfigs (calls w)"
  by (simp add: phaseNeuron_def Let_def split: sum.splits option.splits)

lemma phaseInternalLinks_synth:
  "publishingReached (phaseInternalLinks t w) = publishingReached w
   \<and> generateConfigs (calls (phaseInternalLinks t w)) = generateConfigs (calls w)"
  by (simp add: phaseInternalLinks_def)

lemma enterResolve_synth:
  "publishingReached (enterResolve t w) = publishingReached w
   \<and> generateConfigs (calls (enterResolve t w)) = generateConfigs (calls w)"
  by (simp add: enterResolve_def)

lemma onStageProgress_synth:
  "publishingReached (onStageProgress sp w) = publishingReached w
   \<and> calls (onStageProgress sp w) = calls w"
  by (simp add: onStageProgress_def)

lemma stageCallbacks_synth:
  "publishingReached (stageCallbacks cancelAt k sps w) = publishingReached w
   \<and> calls (stageCallbacks cancelAt k sps w) = calls w"
  by (induction sps arbitrary: k w) (simp_all add: onStageProgress_synth)

lemma phaseSynthesis_synth:
  "publishingReached (snd (phaseSynthesis e cancelAt t topic oc eg nd w)) = publishingReached w
   \<and> generateConfigs (calls (snd (phaseSynthesis e cancelAt t topic oc eg nd w)))
       = generateConfigs (calls w) @ [synthesisConfigOf e t topic oc eg nd]
   \<and> (case snd (generateEnhanced e (synthesisConfigOf e t topic oc eg nd)) of
         Inl msg \<Rightarrow> fst (phaseSynthesis e cancelAt t topic oc eg nd w) = Inl msg
       | Inr raw \<Rightarrow>
           if length (removeAllH1Tags e (htmlContent raw)) < 2000
           then fst (phaseSynthesis e cancelAt t topic oc eg nd w)
                  = Inl ''Content generation failed: No valid content produced''
           else \<not> isl (fst (phaseSynthesis e cancelAt t topic oc eg nd w)))"
  by (simp add: phaseSynthesis_def Let_def stageCallbacks_synth truthy_def split: sum.splits)

lemma phasePublish_synth:
  "publishingReached (snd (phasePublish e cancelAt t topic postId pres contract w))
   \<and> generateConfigs (calls (snd (phasePublish e cancelAt t topic postId pres contract w)))
       = generateConfigs (calls w)"
  by (simp add: phasePublish_def Let_def case_prod_unfold split: sum.splits option.splits)

lemma phaseComplete_synth:
  "publishingReached (snd (phaseComplete e t pg topic eg contract bwc fid w)) = publishingReached w
   \<and> generateConfigs (calls (snd (phaseComplete e t pg topic eg contract bwc fid w)))
       = generateConfigs (calls w)"
  by (simp add: phaseComplete_def Let_def mergeExtras_def)

lemma handleFailure_synth:
  "publishingReached (snd (handleFailure e silent t msg w)) = publishingReached w
   \<and> generateConfigs (calls (snd (handleFailure e silent t msg w))) = generateConfigs (calls w)"
  by (simp add: handleFailure_def Let_def)

lemma startJob_synth:
  "publishingReached (startJob e tov t w)
     = (phase (optimizationProgress w) = ''publishing'' \<or> publishingReached w)
   \<and> generateConfigs (calls (startJob e tov t w)) = generateConfigs (calls w)"
  by (simp add: startJob_def Let_def)

lemma pipeline_synth:
  assumes run: "pipeline e cancelAt tov t w = (res, w')"
  shows "(isl res \<and> generateConfigs (calls w') = generateConfigs (calls w)
            \<and> publishingReached w' = publishingReached w)
       \<or> (\<exists>config. generateConfigs (calls w') = generateConfigs (calls w) @ [config] \<and>
            (case snd (generateEnhanced e config) of
               Inl msg \<Rightarrow> res = Inl msg \<and> publishingReached w' = publishingReached w
             | Inr raw \<Rightarrow>
                 if length (removeAllH1Tags e (htmlContent raw)) < 2000
                 then res = Inl ''Content generation failed: No valid content produced''
                      \<and> publishingReached w' = publishingReached w
                 else publishingReached w'))"
proof (cases "getPage e tov t")
  case None
  then show ?thesis using run by (auto simp: pipeline_def enterResolve_synth)
next
  case (Some pg)
  obtain r1 w1 where p1: "phaseResolve e cancelAt t pg (enterResolve t w) = (r1, w1)"
    by (cases "phaseResolve e cancelAt t pg (enterResolve t w)")
  have o1: "publishingReached w1 = publishingReached w"
    "generateConfigs (calls w1) = generateConfigs (calls w)"
    using phaseResolve_synth [of e cancelAt t pg "enterResolve t w"] p1
    by (simp_all add: enterResolve_synth)
  show ?thesis
  proof (cases r1)
    case (Inl msg)
    then show ?thesis using run Some p1 o1 by (auto simp: pipeline_def)
  next
    case (Inr quad)
    obtain topic postId oc pres where quad: "quad = (topic, postId, oc, pres)"
      by (cases quad) auto
    obtain eg w2 where p2: "phaseEntityGap e cancelAt t topic oc w1 = (eg, w2)"
      by (cases "phaseEntityGap e cancelAt t topic oc w1")
    obtain nd w3 where p3: "phaseNeuron e cancelAt t topic w2 = (nd, w3)"
      by (cases "phaseNeuron e cancelAt t topic w2")
    let ?w4 = "phaseInternalLinks t w3"
    have o4: "publishingReached ?w4 = publishingReached w"
      "generateConfigs (calls ?w4) = generateConfigs (calls w)"
      using phaseEntityGap_synth [of e cancelAt t topic oc w1] p2
        phaseNeuron_synth [of e cancelAt t topic w2] p3 o1
      by (simp_all add: phaseInternalLinks_synth)
    let ?config = "synthesisConfigOf e t topic oc eg nd"
    obtain r5 w5 where p5: "phaseSynthesis e cancelAt t topic oc eg nd ?w4 = (r5, w5)"
      by (cases "phaseSynthesis e cancelAt t topic oc eg nd ?w4")
    have o5: "publishingReached w5 = publishingReached w"
      "generateConfigs (calls w5) = generateConfigs (calls w) @ [?config]"
      using phaseSynthesis_synth [of e cancelAt t topic oc eg nd ?w4] p5 o4 by simp_all
    have s5: "case snd (generateEnhanced e ?config) of
         Inl msg \<Rightarrow> r5 = Inl msg
       | Inr raw \<Rightarrow>
           if length (removeAllH1Tags e (htmlContent raw)) < 2000
           then r5 = Inl ''Content generation failed: No valid content produced''
           else \<not> isl r5"
      using phaseSynthesis_synth [of e cancelAt t topic oc eg nd ?w4]
      by (auto simp: p5 split: sum.splits if_splits)
    note through = run Some p1 Inr quad p2 p3 p5
    show ?thesis
    proof (cases r5)
      case (Inl msg)
      then have "res = Inl msg" and "w' = w5"
        using through by (simp_all add: pipeline_def)
      then show ?thesis
        using o5 s5 Inl by (intro disjI2 exI [of _ ?config]) (auto split: sum.splits if_splits)
    next
      case (Inr triple)
      obtain contract bs bwc where triple: "triple = (contract, bs, bwc)"
        by (cases triple) auto
      obtain r6 w6 where p6: "phasePublish e cancelAt t topic postId pres contract w5 = (r6, w6)"
        by (cases "phasePublish e cancelAt t topic postId pres contract w5")
      have o6: "publishingReached w6" "generateConfigs (calls w6) = generateConfigs (calls w) @ [?config]"
        using phasePublish_synth [of e cancelAt t topic postId pres contract w5] p6 o5 by simp_all
      have o7: "publishingReached w' \<and> generateConfigs (calls w') = generateConfigs (calls w) @ [?config]"
      proof (cases r6)
        case (Inl msg)
        then show ?thesis using through Inr triple p6 o6 by (simp add: pipeline_def)
      next
        case fid: (Inr fid)
        have "w' = snd (phaseComplete e t pg topic eg contract bwc fid w6)"
          using through Inr triple p6 fid by (simp add: pipeline_def case_prod_unfold Let_def)
        then show ?thesis using o6 by (simp add: phaseComplete_synth)
      qed
      show ?thesis
        using o7 s5 Inr by (intro disjI2 exI [of _ ?config]) (auto split: sum.splits if_splits)
    qed
  qed
qed

lemma orElse_message [simp]:
  "orElse ''Content generation failed: No valid content produced'' ''Unknown error''
     = ''Content generation failed: No valid content produced''"
  by (simp add: orElse_def truthy_def)

lemma runJob_synth:
  assumes w: "\<not> publishingReached w" "phase (optimizationProgress w) \<noteq> ''publishing''"
    "generateConfigs (calls w) = []"
  shows "(\<not> success (fst (runJob e cancelAt tov silent t w))
            \<and> generateConfigs (calls (snd (runJob e cancelAt tov silent t w))) = []
            \<and> \<not> publishingReached (snd (runJob e cancelAt tov silent t w)))
       \<or> (\<exists>config. generateConfigs (calls (snd (runJob e cancelAt tov silent t w))) = [config] \<and>
            (case snd (generateEnhanced e config) of
               Inl msg \<Rightarrow> \<not> success (fst (runJob e cancelAt tov silent t w))
                           \<and> \<not> publishingReached (snd (runJob e cancelAt tov silent t w))
             | Inr raw \<Rightarrow>
                 if length (removeAllH1Tags e (htmlContent raw)) < 2000
                 then fst (runJob e cancelAt tov silent t w)
                        = failure ''Content generation failed: No valid content produced''
                      \<and> \<not> publishingReached (snd (runJob e cancelAt tov silent t w))
                 else True))"
proof -
  let ?w = "startJob e tov t w"
  have s: "\<not> publishingReached ?w" "generateConfigs (calls ?w) = []"
    using w by (simp_all add: startJob_synth)
  obtain res w1 where p: "pipeline e cancelAt tov t ?w = (res, w1)"
    by (cases "pipeline e cancelAt tov t ?w")
  show ?thesis
  proof (cases res)
    case (Inl msg)
    have run: "runJob e cancelAt tov silent t w = handleFailure e silent t msg w1"
      using p Inl by (simp add: runJob_def)
    show ?thesis
      using pipeline_synth [OF p] s Inl unfolding run
      by (auto simp: handleFailure_synth handleFailure_facts failure_fields
          split: sum.splits if_splits)
  next
    case (Inr r)
    have run: "runJob e cancelAt tov silent t w = (r, w1)"
      using p Inr by (simp add: runJob_def)
    show ?thesis
      using pipeline_synth [OF p] s Inr unfolding run
      by (auto split: sum.splits if_splits)
  qed
qed

lemma failWith_synth:
  "publishingReached (snd (failWith tid silent msg w)) = publishingReached w"
  by (simp add: failWith_def publishingReached_def)

lemma entry_world:
  "\<not> publishingReached
       (handleManualUrl e tov silent
          (setOptimizationProgress ByOrchestrator (\<lambda>prev. initialProgress e tov)
            (resetCancellationToken (freshWorld p tok))))"
  "phase (optimizationProgress
       (handleManualUrl e tov silent
          (setOptimizationProgress ByOrchestrator (\<lambda>prev. initialProgress e tov)
            (resetCancellationToken (freshWorld p tok))))) = ''initializing''"
  "calls
       (handleManualUrl e tov silent
          (setOptimizationProgress ByOrchestrator (\<lambda>prev. initialProgress e tov)
            (resetCancellationToken (freshWorld p tok)))) = []"
  by (simp_all add: initialProgress_def)

text \<open>
  C2 as stated: a successful run has content that meets the minimum given by
  \<^verbatim>\<open>MIN_WORD_COUNT\<close>. The source never reads that constant: the run of the concrete
  environment succeeds with 2000 characters of content that count as one word.
\<close>

theorem C2_counterexample:
  "success (fst (executeGodMode demoEnv noCancel None True demoWorld))
   \<and> wordCount (fst (executeGodMode demoEnv noCancel None True demoWorld)) < MIN_WORD_COUNT
   \<and> countWords demoEnv (removeAllH1Tags demoEnv (htmlContent demoContract)) < MIN_WORD_COUNT"
proof -
  have "countWords demoEnv (removeAllH1Tags demoEnv (htmlContent demoContract)) = 1"
    by (simp add: demoEnv_def)
  then show ?thesis
    by (simp add: demo_result MIN_WORD_COUNT_def)
qed

text \<open>
  C2, amended: the gate is on the length of the HTML after the removal of H1 tags, at
  2000 characters. A run that succeeds, or that reaches publishing at all, made one synthesis
  call, which returned content of at least 2000 characters; and when the synthesis call of a
  run returns shorter content, the run fails with
  \<^verbatim>\<open>Content generation failed: No valid content produced\<close> and publishing is not reached.
\<close>

theorem C2_content_gate:
  "let r = fst (executeGodMode e cancelAt tov silent (freshWorld p tok));
       w' = snd (executeGodMode e cancelAt tov silent (freshWorld p tok))
   in (success r \<or> publishingReached w' \<longrightarrow>
         (\<exists>config raw. generateConfigs (calls w') = [config]
            \<and> snd (generateEnhanced e config) = Inr raw
            \<and> 2000 \<le> length (removeAllH1Tags e (htmlContent raw))))
      \<and> (\<forall>config raw. config \<in> set (generateConfigs (calls w'))
            \<and> snd (generateEnhanced e config) = Inr raw
            \<and> length (removeAllH1Tags e (htmlContent raw)) < 2000 \<longrightarrow>
            r = failure ''Content generation failed: No valid content produced''
            \<and> \<not> publishingReached w')"
proof (cases "guardsPass e tov")
  case False
  obtain tid msg where
    run: "executeGodMode e cancelAt tov silent (freshWorld p tok) =
       failWith tid silent msg
         (handleManualUrl e tov silent
          (setOptimizationProgress ByOrchestrator (\<lambda>prev. initialProgress e tov)
            (resetCancellationToken (freshWorld p tok))))"
    using executeGodMode_unguarded [OF False] by blast
  show ?thesis
    unfolding run Let_def
    using entry_world(1) [of e tov silent p tok]
    by (simp add: failWith_facts failWith_synth failure_fields entry_world(3))
next
  case True
  define w0 where "w0 =
         (handleManualUrl e tov silent
          (setOptimizationProgress ByOrchestrator (\<lambda>prev. initialProgress e tov)
            (resetCancellationToken (freshWorld p tok))))"
  obtain t where run: "executeGodMode e cancelAt tov silent (freshWorld p tok) = runJob e cancelAt tov silent t w0"
    using executeGodMode_guarded [OF True] unfolding w0_def by blast
  have pre: "\<not> publishingReached w0" "phase (optimizationProgress w0) \<noteq> ''publishing''"
    "generateConfigs (calls w0) = []"
    using entry_world [of e tov silent p tok] unfolding w0_def by simp_all
  define r where "r = fst (runJob e cancelAt tov silent t w0)"
  define w' where "w' = snd (runJob e cancelAt tov silent t w0)"
  have cases: "(\<not> success r \<and> generateConfigs (calls w') = [] \<and> \<not> publishingReached w')
       \<or> (\<exists>config. generateConfigs (calls w') = [config] \<and>
            (case snd (generateEnhanced e config) of
               Inl msg \<Rightarrow> \<not> success r \<and> \<not> publishingReached w'
             | Inr raw \<Rightarrow>
                 if length (removeAllH1Tags e (htmlContent raw)) < 2000
                 then r = failure ''Content generation failed: No valid content produced''
                      \<and> \<not> publishingReached w'
                 else True))"
    using runJob_synth [OF pre, of e cancelAt tov silent t] unfolding r_def w'_def .
  have "(success r \<or> publishingReached w' \<longrightarrow>
         (\<exists>config raw. generateConfigs (calls w') = [config]
            \<and> snd (generateEnhanced e config) = Inr raw
            \<and> 2000 \<le> length (removeAllH1Tags e (htmlContent raw))))
      \<and> (\<forall>config raw. config \<in> set (generateConfigs (calls w'))
            \<and> snd (generateEnhanced e config) = Inr raw
            \<and> length (removeAllH1Tags e (htmlContent raw)) < 2000 \<longrightarrow>
            r = failure ''Content generation failed: No valid content produced''
            \<and> \<not> publishingReached w')"
    using cases
  proof
    assume "\<not> success r \<and> generateConfigs (calls w') = [] \<and> \<not> publishingReached w'"
    then show ?thesis by simp
  next
    assume "\<exists>config. generateConfigs (calls w') = [config] \<and>
            (case snd (generateEnhanced e config) of
               Inl msg \<Rightarrow> \<not> success r \<and> \<not> publishingReached w'
             | Inr raw \<Rightarrow>
                 if length (removeAllH1Tags e (htmlContent raw)) < 2000
                 then r = failure ''Content generation failed: No valid content produced''
                      \<and> \<not> publishingReached w'
                 else True)"
    then obtain config where g: "generateConfigs (calls w') = [config]"
      and c: "case snd (generateEnhanced e config) of
               Inl msg \<Rightarrow> \<not> success r \<and> \<not> publishingReached w'
             | Inr raw \<Rightarrow>
                 if length (removeAllH1Tags e (htmlContent raw)) < 2000
                 then r = failure ''Content generation failed: No valid content produced''
                      \<and> \<not> publishingReached w'
                 else True"
      by blast
    show ?thesis
    proof (cases "snd (generateEnhanced e config)")
      case (Inl msg)
      then show ?thesis using c g by simp
    next
      case (Inr raw)
      show ?thesis
      proof (cases "length (removeAllH1Tags e (htmlContent raw)) < 2000")
        case True
        then show ?thesis using c g Inr by (simp add: failure_fields)
      next
        case False
        then show ?thesis using g Inr by simp
      qed
    qed
  qed
  then show ?thesis
    unfolding run Let_def r_def w'_def .
qed

theorem C2_content_gate_witness:
  "success (fst (executeGodMode demoEnv noCancel None True demoWorld))
   \<and> (\<exists>config raw.
         generateConfigs (calls (snd (executeGodMode demoEnv noCancel None True demoWorld))) = [config]
         \<and> snd (generateEnhanced demoEnv config) = Inr raw
         \<and> 2000 \<le> length (removeAllH1Tags demoEnv (htmlContent raw)))
   \<and> fst (executeGodMode
            (demoEnv\<lparr>generateEnhanced := (\<lambda>c. ([], Inr (demoContract\<lparr>htmlContent := ''too short''\<rparr>)))\<rparr>)
            noCancel None True demoWorld)
       = failure ''Content generation failed: No valid content produced''"
proof -
  let ?short = "demoEnv\<lparr>generateEnhanced := (\<lambda>c. ([], Inr (demoContract\<lparr>htmlContent := ''too short''\<rparr>)))\<rparr>"
  let ?config = "\<lparr>configTopic = ''Sample Post'', configMode = ''surgical'',
      configEntityGapData = None, configNeuronData = None, configExistingContent = None,
      configInternalLinks = [], configTargetWords = 4000\<rparr>"
  have c: "generateConfigs (calls (snd (executeGodMode ?short noCancel None True demoWorld))) = [?config]"
    by (simp add: run_defs demo_defs demoWorld_def Let_def TARGET_WORD_COUNT_def)
  have o: "snd (generateEnhanced ?short ?config) = Inr (demoContract\<lparr>htmlContent := ''too short''\<rparr>)"
    and l: "length (removeAllH1Tags ?short (htmlContent (demoContract\<lparr>htmlContent := ''too short''\<rparr>))) < 2000"
    by (simp_all add: demo_defs)
  show ?thesis
    using C2_content_gate [of demoEnv noCancel None True idleProgress False]
      C2_content_gate [of ?short noCancel None True idleProgress False] c o l demo_result
    by (simp add: Let_def demoWorld_def)
qed

section \<open>The publishing step\<close>

lemma meta_irrelevant_leaf [simp]:
  "hasRequiredKeys (e\<lparr>wpUpdatePostMeta := f\<rparr>) = hasRequiredKeys e"
  "hasNeuronConfig (e\<lparr>wpUpdatePostMeta := f\<rparr>) = hasNeuronConfig e"
  "newPage (e\<lparr>wpUpdatePostMeta := f\<rparr>) = newPage e"
  "usesManualUrl (e\<lparr>wpUpdatePostMeta := f\<rparr>) tov = usesManualUrl e tov"
  "internalLinksOf (e\<lparr>wpUpdatePostMeta := f\<rparr>) t = internalLinksOf e t"
  "basePublishData (e\<lparr>wpUpdatePostMeta := f\<rparr>) contract = basePublishData e contract"
  "updatePublishData (e\<lparr>wpUpdatePostMeta := f\<rparr>) pres pd = updatePublishData e pres pd"
  "updateOptionsOf (e\<lparr>wpUpdatePostMeta := f\<rparr>) = updateOptionsOf e"
  "initialProgress (e\<lparr>wpUpdatePostMeta := f\<rparr>) tov = initialProgress e tov"
  "applyKeywordOverride (e\<lparr>wpUpdatePostMeta := f\<rparr>) t topic w = applyKeywordOverride e t topic w"
  "fetchExisting (e\<lparr>wpUpdatePostMeta := f\<rparr>) cancelAt t k topic0 w = fetchExisting e cancelAt t k topic0 w"
  "phaseEntityGap (e\<lparr>wpUpdatePostMeta := f\<rparr>) cancelAt t topic oc w = phaseEntityGap e cancelAt t topic oc w"
  "phaseNeuron (e\<lparr>wpUpdatePostMeta := f\<rparr>) cancelAt t topic w = phaseNeuron e cancelAt t topic w"
  "phaseComplete (e\<lparr>wpUpdatePostMeta := f\<rparr>) t pg topic eg contract bwc fid w
     = phaseComplete e t pg topic eg contract bwc fid w"
  "handleFailure (e\<lparr>wpUpdatePostMeta := f\<rparr>) silent t msg w = handleFailure e silent t msg w"
  by (simp_all add: hasRequiredKeys_def hasNeuronConfig_def newPage_def usesManualUrl_def
      internalLinksOf_def basePublishData_def updatePublishData_def updateOptionsOf_def
      initialProgress_def applyKeywordOverride_def fetchExisting_def phaseEntityGap_def
      phaseNeuron_def phaseComplete_def handleFailure_def Let_def
      cong: if_cong sum.case_cong option.case_cong)

lemma meta_irrelevant_mid [simp]:
  "addsManualPage (e\<lparr>wpUpdatePostMeta := f\<rparr>) tov = addsManualPage e tov"
  "resolveTarget (e\<lparr>wpUpdatePostMeta := f\<rparr>) tov = resolveTarget e tov"
  "synthesisConfigOf (e\<lparr>wpUpdatePostMeta := f\<rparr>) t topic oc eg nd = synthesisConfigOf e t topic oc eg nd"
  "phaseResolve (e\<lparr>wpUpdatePostMeta := f\<rparr>) cancelAt t pg w = phaseResolve e cancelAt t pg w"
  by (simp_all add: addsManualPage_def resolveTarget_def synthesisConfigOf_def phaseResolve_def
      Let_def cong: if_cong sum.case_cong option.case_cong)

lemma meta_irrelevant_top [simp]:
  "livePages (e\<lparr>wpUpdatePostMeta := f\<rparr>) tov = livePages e tov"
  "handleManualUrl (e\<lparr>wpUpdatePostMeta := f\<rparr>) tov silent w = handleManualUrl e tov silent w"
  "phaseSynthesis (e\<lparr>wpUpdatePostMeta := f\<rparr>) cancelAt t topic oc eg nd w
     = phaseSynthesis e cancelAt t topic oc eg nd w"
  "phasePublish (e\<lparr>wpUpdatePostMeta := f\<rparr>) cancelAt t topic postId pres contract w
     = phasePublish e cancelAt t topic postId pres contract w"
  by (simp_all add: livePages_def handleManualUrl_def phaseSynthesis_def phasePublish_def Let_def
      case_prod_unfold
      cong: if_cong sum.case_cong option.case_cong)

lemma meta_irrelevant_getPage [simp]:
  "getPage (e\<lparr>wpUpdatePostMeta := f\<rparr>) tov t = getPage e tov t"
  by (simp add: getPage_def)

lemma meta_irrelevant_run:
  "pipeline (e\<lparr>wpUpdatePostMeta := f\<rparr>) cancelAt tov t w = pipeline e cancelAt tov t w"
  "startJob (e\<lparr>wpUpdatePostMeta := f\<rparr>) tov t w = startJob e tov t w"
  by (simp_all add: pipeline_def startJob_def Let_def
      cong: if_cong sum.case_cong option.case_cong prod.case_cong)

lemma meta_irrelevant_runJob:
  "runJob (e\<lparr>wpUpdatePostMeta := f\<rparr>) cancelAt tov silent t w = runJob e cancelAt tov silent t w"
  by (simp add: runJob_def meta_irrelevant_run
      cong: sum.case_cong prod.case_cong)

lemma meta_irrelevant_executeGodMode:
  "executeGodMode (e\<lparr>wpUpdatePostMeta := f\<rparr>) cancelAt tov silent w
     = executeGodMode e cancelAt tov silent w"
  by (simp add: executeGodMode_def meta_irrelevant_runJob Let_def
      cong: if_cong option.case_cong)

lemma publish_calls_update:
  assumes "resolvedId postId = Some k"
  shows "filter isPublishCall (calls (snd (phasePublish e cancelAt t topic postId pres contract w)))
     = filter isPublishCall (calls w)
       @ [CallUpdatePost (wpUrl e) k (updatePublishData e pres (basePublishData e contract))
            (updateOptionsOf e)]"
  using assms
  by (simp add: phasePublish_def Let_def case_prod_unfold split: sum.splits)

lemma publish_calls_create:
  assumes "resolvedId postId = None"
  shows "filter isPublishCall (calls (snd (phasePublish e cancelAt t topic postId pres contract w)))
     = filter isPublishCall (calls w)
       @ [CallCreatePost (wpUrl e) ((basePublishData e contract)\<lparr>slug := Some (contractSlug contract)\<rparr>)]"
  using assms
  by (simp add: phasePublish_def Let_def case_prod_unfold split: sum.splits)

lemma resolvedId_Some: "resolvedId postId = Some k \<longleftrightarrow> postId = Some k \<and> k \<noteq> 0"
  by (auto simp: resolvedId_def truthyNum_def split: option.splits)

lemma resolvedId_None: "resolvedId postId = None \<longleftrightarrow> postId = None \<or> postId = Some 0"
  by (auto simp: resolvedId_def truthyNum_def split: option.splits)

lemma phaseResolve_postId:
  assumes "fst (phaseResolve e cancelAt t pg w) = Inr (topic, postId, oc, pres)"
  shows "wpResolvePostIdEnhanced e (wpUrl e) t = Inr postId"
    and "resolvedId postId = None \<Longrightarrow> pres = emptyPreservation"
  using assms
  by (auto simp: phaseResolve_def Let_def case_prod_unfold split: sum.splits option.splits)

text \<open>
  C9: with a resolved post id (a number other than 0) the run makes one publish call, the
  update of that post, whose payload carries the preserved categories, tags and featured
  media exactly when the flag is on and the preserved value is not empty, and no slug;
  without one it makes one publish call, the creation of a post, whose payload carries the
  generated slug and none of the three. The id is the one that the resolver returned, and
  without it nothing is preserved. The outcome of the metadata update changes nothing of the
  run.
\<close>

theorem C9_publishing_step:
  "(postId = Some k \<and> k \<noteq> 0 \<longrightarrow>
      filter isPublishCall (calls (snd (phasePublish e cancelAt t topic postId pres contract w)))
        = filter isPublishCall (calls w)
          @ [CallUpdatePost (wpUrl e) k (updatePublishData e pres (basePublishData e contract))
               (updateOptionsOf e)]
      \<and> categories (updatePublishData e pres (basePublishData e contract))
          = (if preserveCategories e \<and> originalCategories pres \<noteq> []
             then Some (originalCategories pres) else None)
      \<and> tags (updatePublishData e pres (basePublishData e contract))
          = (if preserveTags e \<and> originalTags pres \<noteq> [] then Some (originalTags pres) else None)
      \<and> featured_media (updatePublishData e pres (basePublishData e contract))
          = (if preserveFeaturedImage e \<and> truthyNum (featuredImageId pres)
             then featuredImageId pres else None)
      \<and> slug (updatePublishData e pres (basePublishData e contract)) = None)
   \<and> (postId = None \<or> postId = Some 0 \<longrightarrow>
      filter isPublishCall (calls (snd (phasePublish e cancelAt t topic postId pres contract w)))
        = filter isPublishCall (calls w)
          @ [CallCreatePost (wpUrl e)
               ((basePublishData e contract)\<lparr>slug := Some (contractSlug contract)\<rparr>)]
      \<and> categories (basePublishData e contract) = None
      \<and> tags (basePublishData e contract) = None
      \<and> featured_media (basePublishData e contract) = None)
   \<and> (fst (phaseResolve e cancelAt t pg w0) = Inr (topic0, postId0, oc0, pres0) \<longrightarrow>
      wpResolvePostIdEnhanced e (wpUrl e) t = Inr postId0
      \<and> (postId0 = None \<or> postId0 = Some 0 \<longrightarrow> pres0 = emptyPreservation))
   \<and> executeGodMode (e\<lparr>wpUpdatePostMeta := f\<rparr>) cancelAt tov silent w1
       = executeGodMode e cancelAt tov silent w1"
proof -
  have upd: "postId = Some k \<and> k \<noteq> 0 \<longrightarrow>
      filter isPublishCall (calls (snd (phasePublish e cancelAt t topic postId pres contract w)))
        = filter isPublishCall (calls w)
          @ [CallUpdatePost (wpUrl e) k (updatePublishData e pres (basePublishData e contract))
               (updateOptionsOf e)]"
    using publish_calls_update [of postId k e cancelAt t topic pres contract w]
    by (simp add: resolvedId_Some)
  have cre: "postId = None \<or> postId = Some 0 \<longrightarrow>
      filter isPublishCall (calls (snd (phasePublish e cancelAt t topic postId pres contract w)))
        = filter isPublishCall (calls w)
          @ [CallCreatePost (wpUrl e)
               ((basePublishData e contract)\<lparr>slug := Some (contractSlug contract)\<rparr>)]"
    using publish_calls_create [of postId e cancelAt t topic pres contract w]
    by (simp add: resolvedId_None)
  have fields:
    "categories (updatePublishData e pres (basePublishData e contract))
          = (if preserveCategories e \<and> originalCategories pres \<noteq> []
             then Some (originalCategories pres) else None)"
    "tags (updatePublishData e pres (basePublishData e contract))
          = (if preserveTags e \<and> originalTags pres \<noteq> [] then Some (originalTags pres) else None)"
    "featured_media (updatePublishData e pres (basePublishData e contract))
          = (if preserveFeaturedImage e \<and> truthyNum (featuredImageId pres)
             then featuredImageId pres else None)"
    "slug (updatePublishData e pres (basePublishData e contract)) = None"
    "categories (basePublishData e contract) = None"
    "tags (basePublishData e contract) = None"
    "featured_media (basePublishData e contract) = None"
    by (simp_all add: updatePublishData_def basePublishData_def)
  have res: "fst (phaseResolve e cancelAt t pg w0) = Inr (topic0, postId0, oc0, pres0) \<longrightarrow>
      wpResolvePostIdEnhanced e (wpUrl e) t = Inr postId0
      \<and> (postId0 = None \<or> postId0 = Some 0 \<longrightarrow> pres0 = emptyPreservation)"
    using phaseResolve_postId [of e cancelAt t pg w0 topic0 postId0 oc0 pres0]
    by (auto simp: resolvedId_None)
  show ?thesis
    using upd cre res by (simp only: fields meta_irrelevant_executeGodMode) simp
qed

theorem C9_publishing_step_witness:
  "categories (updatePublishData demoEnv (emptyPreservation\<lparr>originalCategories := [3]\<rparr>)
       (basePublishData demoEnv demoContract)) = Some [3]
   \<and> tags (updatePublishData demoEnv (emptyPreservation\<lparr>originalCategories := [3]\<rparr>)
       (basePublishData demoEnv demoContract)) = None
   \<and> filter isPublishCall
        (calls (snd (phasePublish demoEnv noCancel ''https://a.com/x'' ''Sample Post'' None
                       emptyPreservation demoContract demoWorld)))
       = [CallCreatePost ''https://a.com''
            ((basePublishData demoEnv demoContract)\<lparr>slug := Some ''sample-post''\<rparr>)]
   \<and> wpResolvePostIdEnhanced demoEnv (wpUrl demoEnv) ''https://a.com/x'' = Inr None"
proof -
  have r: "fst (phaseResolve demoEnv noCancel ''https://a.com/x'' demoPage demoWorld)
      = Inr (''Sample Post'', None, [], emptyPreservation)"
    by (simp add: run_defs demo_defs Let_def)
  have c: "preserveCategories demoEnv" "contractSlug demoContract = ''sample-post''"
    "wpUrl demoEnv = ''https://a.com''" "calls demoWorld = []"
    by (simp_all add: demo_defs demoWorld_def)
  show ?thesis
    using C9_publishing_step [of "Some 42" 42 demoEnv noCancel "''https://a.com/x''"
        "''Sample Post''" "emptyPreservation\<lparr>originalCategories := [3]\<rparr>" demoContract
        demoWorld demoPage demoWorld "''Sample Post''" None "[]" emptyPreservation]
      C9_publishing_step [of None 0 demoEnv noCancel "''https://a.com/x''"
        "''Sample Post''" emptyPreservation demoContract
        demoWorld demoPage demoWorld "''Sample Post''" None "[]" emptyPreservation]
      r c
    by (simp add: emptyPreservation_def)
qed

section \<open>Properties of the bulk scheduler\<close>

lemma bulkLoop_rule:
  assumes n: "0 < n" and inv: "I i s"
    and step: "\<And>k i s. I i s \<Longrightarrow> i < length js \<Longrightarrow> \<not> abortFlag be k
                 \<Longrightarrow> I (i + n) (runWave be k (take n (drop i js)) s)"
  shows "\<exists>s' m. bulkLoop be n js k i s = Some s' \<and> I m s'
           \<and> ((\<forall>k. \<not> abortFlag be k) \<longrightarrow> length js \<le> m)"
  using inv
proof (induction "length js - i" arbitrary: i k s rule: less_induct)
  case less
  show ?case
  proof (cases "i < length js")
    case False
    then have "bulkLoop be n js k i s = Some s"
      by (subst bulkLoop.simps) simp
    then show ?thesis using less.prems False by (intro exI [of _ s] exI [of _ i]) simp
  next
    case True
    show ?thesis
    proof (cases "abortFlag be k")
      case abort: True
      then have "bulkLoop be n js k i s = Some s"
        using True by (subst bulkLoop.simps) simp
      then show ?thesis using less.prems abort by (intro exI [of _ s] exI [of _ i]) auto
    next
      case False
      have unfold: "bulkLoop be n js k i s
          = bulkLoop be n js (Suc k) (i + n) (runWave be k (take n (drop i js)) s)"
        using True False by (subst bulkLoop.simps) simp
      have "length js - (i + n) < length js - i"
        using n True by arith
      moreover have "I (i + n) (runWave be k (take n (drop i js)) s)"
        using less.prems True False by (rule step)
      ultimately show ?thesis
        unfolding unfold by (rule less.hyps)
    qed
  qed
qed

lemma map_jobId_updateJob:
  assumes "\<And>j. jobId (f j) = jobId j"
  shows "map jobId (updateJob job f js) = map jobId js"
  using assms by (simp add: updateJob_def)

lemma runningCount_card:
  assumes "distinct (map jobId (jobs st))"
  shows "runningCount st = card (runningIds st)"
proof -
  let ?run = "filter (\<lambda>j. jobStatus j = Running) (jobs st)"
  have d: "distinct (map jobId ?run)"
    using assms by (rule distinct_map_filter)
  have c: "card (set (map jobId ?run)) = length (map jobId ?run)"
    using d by (rule distinct_card)
  have r: "set (map jobId ?run) = runningIds st"
    by (auto simp: runningIds_def)
  show ?thesis
    using c unfolding r by (simp add: runningCount_def)
qed

lemma runningIds_begin:
  "runningIds (st\<lparr>jobs := updateJob job (\<lambda>j. j\<lparr>jobStatus := Running, jobStartTime := t\<rparr>) (jobs st)\<rparr>)
     \<subseteq> insert (jobId job) (runningIds st)"
  by (auto simp: runningIds_def updateJob_def split: if_splits)

lemma runningIds_end:
  assumes "\<And>j. jobStatus (f j) \<noteq> Running" "\<And>j. jobId (f j) = jobId j"
  shows "runningIds (st\<lparr>jobs := updateJob job f (jobs st)\<rparr>) \<subseteq> runningIds st - {jobId job}"
  using assms by (auto simp: runningIds_def updateJob_def split: if_splits)

lemma wave_begin:
  assumes d: "distinct (map jobId (jobs (bulkState s)))"
    and r: "runningIds (bulkState s) \<subseteq> T"
    and tr: "\<forall>x \<in> set (bulkTrace s). runningCount x \<le> n"
    and T: "finite T" "card T \<le> n" "jobId job \<in> T"
  shows "distinct (map jobId (jobs (bulkState (beginJob be k job s))))
    \<and> runningIds (bulkState (beginJob be k job s)) \<subseteq> T
    \<and> (\<forall>x \<in> set (bulkTrace (beginJob be k job s)). runningCount x \<le> n)"
proof (cases "abortFlag be k")
  case True
  then show ?thesis using d r tr by (simp add: beginJob_def)
next
  case False
  let ?st = "(bulkState s)\<lparr>jobs := updateJob job
      (\<lambda>j. j\<lparr>jobStatus := Running, jobStartTime := Some (jobClockStart be job)\<rparr>)
      (jobs (bulkState s))\<rparr>"
  have d': "distinct (map jobId (jobs ?st))"
    using d by (simp add: map_jobId_updateJob)
  have r': "runningIds ?st \<subseteq> T"
    using runningIds_begin [where st = "bulkState s" and job = job
        and t = "Some (jobClockStart be job)"] r T(3) by auto
  have "runningCount ?st = card (runningIds ?st)"
    using d' by (rule runningCount_card)
  also have "\<dots> \<le> card T"
    using r' T(1) by (rule card_mono [rotated])
  finally have c': "runningCount ?st \<le> n"
    using T(2) by simp
  show ?thesis
    using False d' r' c' tr by (simp add: beginJob_def setBulkState_def)
qed

lemma wave_fail:
  assumes d: "distinct (map jobId (jobs (bulkState s)))"
    and r: "runningIds (bulkState s) \<subseteq> T"
    and tr: "\<forall>x \<in> set (bulkTrace s). runningCount x \<le> n"
    and T: "finite T" "card T \<le> n"
  shows "distinct (map jobId (jobs (bulkState (failJob be job msg s))))
    \<and> runningIds (bulkState (failJob be job msg s)) \<subseteq> runningIds (bulkState s) - {jobId job}
    \<and> (\<forall>x \<in> set (bulkTrace (failJob be job msg s)). runningCount x \<le> n)"
proof -
  let ?f = "\<lambda>j. j\<lparr>jobStatus := Failed, jobError := Some msg, jobEndTime := Some (jobClockEnd be job)\<rparr>"
  let ?st = "(bulkState s)\<lparr>jobs := updateJob job ?f (jobs (bulkState s))\<rparr>"
  have d': "distinct (map jobId (jobs ?st))"
    using d by (simp add: map_jobId_updateJob)
  have r': "runningIds ?st \<subseteq> runningIds (bulkState s) - {jobId job}"
    by (rule runningIds_end) simp_all
  have "runningCount ?st = card (runningIds ?st)"
    using d' by (rule runningCount_card)
  also have "\<dots> \<le> card T"
    using r' r T(1) by (intro card_mono) auto
  finally have c': "runningCount ?st \<le> n"
    using T(2) by simp
  have same: "\<And>v. runningIds (?st\<lparr>failed := v\<rparr>) = runningIds ?st"
    "\<And>v. runningCount (?st\<lparr>failed := v\<rparr>) = runningCount ?st"
    by (simp_all add: runningIds_def runningCount_def)
  show ?thesis
    using d' r' c' tr same by (simp add: failJob_def setBulkState_def Let_def)
qed

lemma wave_settle:
  assumes d: "distinct (map jobId (jobs (bulkState s)))"
    and r: "runningIds (bulkState s) \<subseteq> T"
    and tr: "\<forall>x \<in> set (bulkTrace s). runningCount x \<le> n"
    and T: "finite T" "card T \<le> n"
  shows "distinct (map jobId (jobs (bulkState (settleJob be job s))))
    \<and> runningIds (bulkState (settleJob be job s)) \<subseteq> runningIds (bulkState s) - {jobId job}
    \<and> (\<forall>x \<in> set (bulkTrace (settleJob be job s)). runningCount x \<le> n)"
proof (cases "outcomeOf be job")
  case TimedOut
  then show ?thesis
    using wave_fail [OF d r tr T, of be job "''Job timeout''"] by (simp add: settleJob_def)
next
  case (Settled res)
  show ?thesis
  proof (cases "passesQualityGate res")
    case False
    then show ?thesis
      using Settled wave_fail [OF d r tr T, of be job "rejectionMessage res"]
      by (simp add: settleJob_def)
  next
    case True
    let ?f = "\<lambda>j. j\<lparr>jobStatus := Completed, jobScore := Some (score res),
                      jobWordCount := Some (wordCount res),
                      jobEndTime := Some (jobClockEnd be job)\<rparr>"
    let ?st = "(bulkState s)\<lparr>jobs := updateJob job ?f (jobs (bulkState s))\<rparr>"
    have d': "distinct (map jobId (jobs ?st))"
      using d by (simp add: map_jobId_updateJob)
    have r': "runningIds ?st \<subseteq> runningIds (bulkState s) - {jobId job}"
      by (rule runningIds_end) simp_all
    have "runningCount ?st = card (runningIds ?st)"
      using d' by (rule runningCount_card)
    also have "\<dots> \<le> card T"
      using r' r T(1) by (intro card_mono) auto
    finally have c': "runningCount ?st \<le> n"
      using T(2) by simp
    have same: "\<And>a b c. runningIds (?st\<lparr>completed := a, totalWords := b, avgScore := c\<rparr>) = runningIds ?st"
      "\<And>a b c. runningCount (?st\<lparr>completed := a, totalWords := b, avgScore := c\<rparr>) = runningCount ?st"
      by (simp_all add: runningIds_def runningCount_def)
    show ?thesis
      using Settled True d' r' c' tr same by (simp add: settleJob_def setBulkState_def Let_def)
  qed
qed

lemma waveInvariant_begin_fold:
  assumes "waveInvariant n T s" "finite T" "card T \<le> n" "jobId ` set bs \<subseteq> T"
  shows "waveInvariant n T (foldl (\<lambda>s' job. beginJob be k job s') s bs)"
  using assms
proof (induction bs arbitrary: s)
  case Nil
  then show ?case by simp
next
  case (Cons b bs)
  have "waveInvariant n T (beginJob be k b s)"
    using Cons.prems wave_begin [of s T n b be k] by (simp add: waveInvariant_def)
  then show ?case
    using Cons.prems by (simp add: Cons.IH)
qed

lemma waveInvariant_settle_fold:
  assumes "waveInvariant n T s" "finite T" "card T \<le> n"
  shows "waveInvariant n T (foldl (\<lambda>s' job. settleJob be job s') s bs)
    \<and> runningIds (bulkState (foldl (\<lambda>s' job. settleJob be job s') s bs))
        \<subseteq> runningIds (bulkState s) - jobId ` set bs"
  using assms
proof (induction bs arbitrary: s)
  case Nil
  then show ?case by simp
next
  case (Cons b bs)
  have step: "distinct (map jobId (jobs (bulkState (settleJob be b s))))
    \<and> runningIds (bulkState (settleJob be b s)) \<subseteq> runningIds (bulkState s) - {jobId b}
    \<and> (\<forall>x \<in> set (bulkTrace (settleJob be b s)). runningCount x \<le> n)"
    using Cons.prems wave_settle [of s T n be b] by (simp add: waveInvariant_def)
  then have inv: "waveInvariant n T (settleJob be b s)"
    using Cons.prems(1) by (auto simp: waveInvariant_def)
  show ?case
    using Cons.IH [OF inv Cons.prems(2,3)] step by auto
qed

lemma runWave_invariant:
  assumes inv: "waveInvariant n {} s" and len: "length batch \<le> n" and go: "\<not> abortFlag be k"
  shows "waveInvariant n {} (runWave be k batch s)"
proof -
  let ?T = "jobId ` set batch"
  have T: "finite ?T" "card ?T \<le> n"
    using len card_image_le [of "set batch" jobId] card_length [of batch] by auto
  have "waveInvariant n ?T s"
    using inv by (auto simp: waveInvariant_def)
  then have a: "waveInvariant n ?T (foldl (\<lambda>s' job. beginJob be k job s') s batch)"
    using T by (intro waveInvariant_begin_fold) auto
  let ?order = "sort_key (settleTime be) (filter (\<lambda>job. \<not> abortFlag be k) batch)"
  have order: "set ?order = set batch"
    using go by simp
  have b: "waveInvariant n ?T (runWave be k batch s)"
    and c: "runningIds (bulkState (runWave be k batch s))
        \<subseteq> runningIds (bulkState (foldl (\<lambda>s' job. beginJob be k job s') s batch)) - jobId ` set ?order"
    using waveInvariant_settle_fold [OF a T, of be ?order] by (simp_all add: runWave_def)
  have "runningIds (bulkState (runWave be k batch s)) \<subseteq> {}"
    using c a unfolding order by (auto simp: waveInvariant_def)
  then show ?thesis
    using b by (auto simp: waveInvariant_def)
qed

lemma running_initial:
  "runningIds (initialBulkState (makeJobs clock urls) n) = {}"
  "runningCount (initialBulkState (makeJobs clock urls) n) = 0"
  by (auto simp: runningIds_def runningCount_def initialBulkState_def makeJobs_def
      filter_empty_conv in_set_zip)

lemma running_finish:
  "runningIds (st\<lparr>bulkIsRunning := a, totalTime := b, avgScore := c\<rparr>) = runningIds st"
  "runningCount (st\<lparr>bulkIsRunning := a, totalTime := b, avgScore := c\<rparr>) = runningCount st"
  by (simp_all add: runningIds_def runningCount_def)

lemma distinct_zero_running:
  assumes "distinct (map jobId (jobs st))" "runningIds st \<subseteq> {}"
  shows "runningCount st = 0"
  using runningCount_card [OF assms(1)] assms(2) by simp

lemma specWavesFrom_concat:
  assumes "0 < n"
  shows "concat (specWavesFrom n i js) = drop i js"
  using assms
proof (induction n i js rule: specWavesFrom.induct)
  case (1 n i js)
  show ?case
  proof (cases "i < length js")
    case True
    have "concat (specWavesFrom n i js) = take n (drop i js) @ concat (specWavesFrom n (i + n) js)"
      using True "1.prems" by (subst specWavesFrom.simps) simp
    also have "\<dots> = take n (drop i js) @ drop n (drop i js)"
      using "1.IH" True "1.prems" by (simp add: add.commute)
    also have "\<dots> = drop i js"
      by (rule append_take_drop_id)
    finally show ?thesis .
  next
    case False
    then show ?thesis by (subst specWavesFrom.simps) simp
  qed
qed

lemma specWavesFrom_length:
  "\<forall>b \<in> set (specWavesFrom n i js). length b \<le> n \<and> b \<noteq> []"
proof (induction n i js rule: specWavesFrom.induct)
  case (1 n i js)
  show ?case
  proof (cases "i < length js \<and> 0 < n")
    case True
    then show ?thesis
      using "1.IH" by (subst specWavesFrom.simps) auto
  next
    case False
    then show ?thesis by (subst specWavesFrom.simps) auto
  qed
qed

text \<open>
  The loop runs the waves of the partition one after the other, each on the state that the
  one before it left; it runs all of them unless the batch is aborted.
\<close>

lemma bulkLoop_waves:
  assumes "0 < n"
  shows "\<exists>m. m \<le> length (specWavesFrom n i js)
           \<and> bulkLoop be n js k i s =
               Some (foldl (\<lambda>s' (k', b). runWave be k' b s') s
                      (zip [k..<k + m] (take m (specWavesFrom n i js))))
           \<and> ((\<forall>k'. \<not> abortFlag be k') \<longrightarrow> m = length (specWavesFrom n i js))"
  using assms
proof (induction n i js arbitrary: k s rule: specWavesFrom.induct)
  case (1 n i js)
  show ?case
  proof (cases "i < length js")
    case False
    have "specWavesFrom n i js = []"
      using False by (subst specWavesFrom.simps) simp
    moreover have "bulkLoop be n js k i s = Some s"
      using False by (subst bulkLoop.simps) simp
    ultimately show ?thesis by simp
  next
    case True
    have w: "specWavesFrom n i js = take n (drop i js) # specWavesFrom n (i + n) js"
      using True "1.prems" by (subst specWavesFrom.simps) simp
    show ?thesis
    proof (cases "abortFlag be k")
      case abort: True
      then have "bulkLoop be n js k i s = Some s"
        using True by (subst bulkLoop.simps) simp
      then show ?thesis
        using abort by (intro exI [of _ 0]) auto
    next
      case False
      have unfold: "bulkLoop be n js k i s
          = bulkLoop be n js (Suc k) (i + n) (runWave be k (take n (drop i js)) s)"
        using True False by (subst bulkLoop.simps) simp
      obtain m where m: "m \<le> length (specWavesFrom n (i + n) js)"
        and loop: "bulkLoop be n js (Suc k) (i + n) (runWave be k (take n (drop i js)) s) =
               Some (foldl (\<lambda>s' (k', b). runWave be k' b s') (runWave be k (take n (drop i js)) s)
                      (zip [Suc k..<Suc k + m] (take m (specWavesFrom n (i + n) js))))"
        and full: "(\<forall>k'. \<not> abortFlag be k') \<longrightarrow> m = length (specWavesFrom n (i + n) js)"
        using "1.IH" [of "Suc k" "runWave be k (take n (drop i js)) s"] True "1.prems" by blast
      have upt: "[k..<Suc (k + m)] = k # [Suc k..<Suc (k + m)]"
        by (rule upt_conv_Cons) simp
      show ?thesis
        unfolding unfold w
        using m loop full by (intro exI [of _ "Suc m"]) (simp add: upt del: upt_Suc)
    qed
  qed
qed

text \<open>
  C5: with a concurrency \<open>n\<close> of at least 1 the batch ends, no state that it passes through
  has more than \<open>n\<close> running jobs, and none is running when it ends. The jobs are cut into
  consecutive slices of at most \<open>n\<close> jobs, none of them empty, which put end to end give
  the job list back; the loop runs these slices as waves, in order, each on the state that
  the wave before it returned, all of them unless the batch is aborted; and a wave that
  starts with no running job ends with none: the next wave starts after every job of this
  one has settled.
\<close>

theorem C5_running_jobs_bounded:
  assumes n: "0 < n"
  shows "(\<exists>s. executeBulkOptimization be e bulkUrls n st = Some s
            \<and> (\<forall>x \<in> set (bulkTrace s). runningCount x \<le> n)
            \<and> (bulkTrace s \<noteq> [] \<longrightarrow> runningCount (bulkState s) = 0))
       \<and> (\<forall>js :: bulk_job list. concat (specWavesFrom n 0 js) = js
            \<and> (\<forall>b \<in> set (specWavesFrom n 0 js). length b \<le> n \<and> b \<noteq> []))
       \<and> (\<forall>js k s. \<exists>m. m \<le> length (specWavesFrom n 0 js)
            \<and> bulkLoop be n js k 0 s =
                Some (foldl (\<lambda>s' (k', b). runWave be k' b s') s
                       (zip [k..<k + m] (take m (specWavesFrom n 0 js))))
            \<and> ((\<forall>k'. \<not> abortFlag be k') \<longrightarrow> m = length (specWavesFrom n 0 js)))
       \<and> (\<forall>k b s. length b \<le> n \<and> waveInvariant n {} s \<and> \<not> abortFlag be k
            \<longrightarrow> waveInvariant n {} (runWave be k b s))"
proof -
  let ?urls = "parseBulkUrls bulkUrls"
  let ?idle = "\<lparr>bulkState = st, counters = zeroCounters, bulkTrace = []\<rparr>"
  let ?js = "makeJobs (idClock be) ?urls"
  let ?s0 = "setBulkState (\<lambda>prev. initialBulkState ?js n) ?idle"
  have slices: "\<forall>js :: bulk_job list. concat (specWavesFrom n 0 js) = js
            \<and> (\<forall>b \<in> set (specWavesFrom n 0 js). length b \<le> n \<and> b \<noteq> [])"
    using n by (simp add: specWavesFrom_concat specWavesFrom_length)
  have loop: "\<forall>js k s. \<exists>m. m \<le> length (specWavesFrom n 0 js)
            \<and> bulkLoop be n js k 0 s =
                Some (foldl (\<lambda>s' (k', b). runWave be k' b s') s
                       (zip [k..<k + m] (take m (specWavesFrom n 0 js))))
            \<and> ((\<forall>k'. \<not> abortFlag be k') \<longrightarrow> m = length (specWavesFrom n 0 js))"
    using bulkLoop_waves [OF n, of 0 _ be] by blast
  have waves: "\<forall>k b s. length b \<le> n \<and> waveInvariant n {} s \<and> \<not> abortFlag be k
            \<longrightarrow> waveInvariant n {} (runWave be k b s)"
    by (auto intro: runWave_invariant)
  have batch: "\<exists>s. executeBulkOptimization be e bulkUrls n st = Some s
            \<and> (\<forall>x \<in> set (bulkTrace s). runningCount x \<le> n)
            \<and> (bulkTrace s \<noteq> [] \<longrightarrow> runningCount (bulkState s) = 0)"
  proof (cases "length ?urls = 0 \<or> \<not> hasRequiredKeys e")
    case True
    then have "executeBulkOptimization be e bulkUrls n st = Some ?idle"
      by (auto simp: executeBulkOptimization_def Let_def)
    then show ?thesis by simp
  next
    case False
    have j0: "jobs (initialBulkState ?js n) = ?js"
      by (simp add: initialBulkState_def)
    have inv0: "waveInvariant n {} ?s0"
      by (simp add: waveInvariant_def setBulkState_def running_initial j0
          distinct_jobId_makeJobs)
    obtain s' m where loop: "bulkLoop be n ?js 0 0 ?s0 = Some s'" and inv: "waveInvariant n {} s'"
      using bulkLoop_rule [where I = "\<lambda>i s. waveInvariant n {} s" and js = ?js and be = be
          and k = 0 and i = 0, OF n inv0]
        runWave_invariant [of n _ _ be]
      by (metis length_take min.cobounded2)
    have run: "executeBulkOptimization be e bulkUrls n st = Some (finishBatch be s')"
      using False loop by (simp add: executeBulkOptimization_def Let_def)
    have zero: "runningCount (bulkState s') = 0"
      using inv by (intro distinct_zero_running) (simp_all add: waveInvariant_def)
    have "(\<forall>x \<in> set (bulkTrace (finishBatch be s')). runningCount x \<le> n)
        \<and> runningCount (bulkState (finishBatch be s')) = 0"
      using inv zero by (simp add: finishBatch_def setBulkState_def running_finish waveInvariant_def)
    then show ?thesis using run by simp
  qed
  show ?thesis using batch slices loop waves by blast
qed

theorem C5_running_jobs_bounded_witness:
  "(\<exists>s. executeBulkOptimization demoBulkEnv demoEnv demoBulkUrls 2 idleBulkState = Some s
        \<and> list_all (\<lambda>x. runningCount x \<le> 2) (bulkTrace s))
   \<and> concat (specWavesFrom 2 0 (makeJobs (idClock demoBulkEnv) (parseBulkUrls demoBulkUrls)))
       = makeJobs (idClock demoBulkEnv) (parseBulkUrls demoBulkUrls)
   \<and> list_all (\<lambda>b. length b \<le> 2)
       (specWavesFrom 2 0 (makeJobs (idClock demoBulkEnv) (parseBulkUrls demoBulkUrls)))"
  using C5_running_jobs_bounded [of 2 demoBulkEnv demoEnv demoBulkUrls idleBulkState]
  by (auto simp: list_all_iff)

section \<open>Aggregates of a batch\<close>

lemma counters_beginJob:
  "counters (beginJob be k job s) = counters s"
  "fieldsInSync s \<Longrightarrow> fieldsInSync (beginJob be k job s)"
  by (simp_all add: beginJob_def setBulkState_def fieldsInSync_def)

lemma counters_begin_fold:
  "counters (foldl (\<lambda>s' job. beginJob be k job s') s bs) = counters s
   \<and> (fieldsInSync s \<longrightarrow> fieldsInSync (foldl (\<lambda>s' job. beginJob be k job s') s bs))"
  by (induction bs arbitrary: s) (simp_all add: counters_beginJob)

lemma settleJob_tally:
  assumes "tallyMatches be earlier (counters s)" "fieldsInSync s"
  shows "tallyMatches be (earlier @ [job]) (counters (settleJob be job s))
    \<and> fieldsInSync (settleJob be job s)"
  using assms
  by (cases "outcomeOf be job")
     (simp_all add: settleJob_def failJob_def setBulkState_def tallyMatches_def fieldsInSync_def
        batchSuccess_def resultWords_def resultScore_def Let_def)

lemma settle_fold_tally:
  assumes "tallyMatches be earlier (counters s)" "fieldsInSync s"
  shows "tallyMatches be (earlier @ bs) (counters (foldl (\<lambda>s' job. settleJob be job s') s bs))
    \<and> fieldsInSync (foldl (\<lambda>s' job. settleJob be job s') s bs)"
  using assms
proof (induction bs arbitrary: s earlier)
  case Nil
  then show ?case by simp
next
  case (Cons b bs)
  have "tallyMatches be (earlier @ [b]) (counters (settleJob be b s)) \<and> fieldsInSync (settleJob be b s)"
    using Cons.prems by (rule settleJob_tally)
  then show ?case
    using Cons.IH [of "earlier @ [b]" "settleJob be b s"] by simp
qed

lemma tally_permute:
  assumes "mset xs = mset ys"
  shows "tallyMatches be (earlier @ xs) c = tallyMatches be (earlier @ ys) c"
proof -
  have len: "\<And>P. length (filter P xs) = length (filter P ys)"
  proof -
    fix P
    have "mset (filter P xs) = mset (filter P ys)"
      using assms by simp
    then show "length (filter P xs) = length (filter P ys)"
      by (rule mset_eq_length)
  qed
  have sum: "\<And>P (f :: bulk_job \<Rightarrow> int). sum_list (map f (filter P xs)) = sum_list (map f (filter P ys))"
  proof -
    fix P and f :: "bulk_job \<Rightarrow> int"
    have "mset (map f (filter P xs)) = mset (map f (filter P ys))"
      using assms by simp
    then have "sum_mset (mset (map f (filter P xs))) = sum_mset (mset (map f (filter P ys)))"
      by simp
    then show "sum_list (map f (filter P xs)) = sum_list (map f (filter P ys))"
      by (simp only: sum_mset_sum_list)
  qed
  show ?thesis
    by (simp add: tallyMatches_def len sum)
qed

lemma runWave_tally:
  assumes "tallyMatches be earlier (counters s)" "fieldsInSync s" "\<not> abortFlag be k"
  shows "tallyMatches be (earlier @ batch) (counters (runWave be k batch s))
    \<and> fieldsInSync (runWave be k batch s)"
proof -
  let ?s1 = "foldl (\<lambda>s' job. beginJob be k job s') s batch"
  let ?order = "sort_key (settleTime be) (filter (\<lambda>job. \<not> abortFlag be k) batch)"
  have s1: "tallyMatches be earlier (counters ?s1)" "fieldsInSync ?s1"
    using assms(1,2) counters_begin_fold [of be k s batch] by simp_all
  have "tallyMatches be (earlier @ ?order) (counters (runWave be k batch s))
      \<and> fieldsInSync (runWave be k batch s)"
    using settle_fold_tally [OF s1, of ?order] by (simp add: runWave_def)
  moreover have "mset ?order = mset batch"
    using assms(3) by simp
  ultimately show ?thesis
    using tally_permute [of ?order batch be earlier] by simp
qed

lemma js_round_int_div:
  assumes "0 < b"
  shows "js_round (of_int a / of_nat b) = (2 * a + int b) div (2 * int b)"
proof -
  have "(of_int a / of_nat b + 1 / 2 :: rat) = of_int (2 * a + int b) / of_int (2 * int b)"
    using assms by (simp add: field_simps)
  then show ?thesis
    unfolding js_round_def by (simp only: floor_divide_of_int_eq)
qed

lemma settleJob_rejected:
  assumes "outcomeOf be job = Settled r" "success r" "score r < 50" "error r = None"
  shows "countFailed (counters (settleJob be job s)) = countFailed (counters s) + 1"
    and "countCompleted (counters (settleJob be job s)) = countCompleted (counters s)"
    and "\<forall>j \<in> set (jobs (bulkState (settleJob be job s))).
           jobId j = jobId job \<longrightarrow> jobStatus j = Failed \<and> jobError j = Some ''Quality check failed''"
  using assms
  by (auto simp: settleJob_def passesQualityGate_def failJob_def setBulkState_def Let_def
      rejectionMessage_def updateJob_def)

lemma batchSuccess_iff:
  "batchSuccess be job \<longleftrightarrow> (\<exists>r. outcomeOf be job = Settled r \<and> success r \<and> 50 \<le> score r)"
  by (auto simp: batchSuccess_def passesQualityGate_def split: job_outcome.splits)

lemma finishBatch_fields:
  "completed (bulkState (finishBatch be s)) = completed (bulkState s)"
  "failed (bulkState (finishBatch be s)) = failed (bulkState s)"
  "totalWords (bulkState (finishBatch be s)) = totalWords (bulkState s)"
  "avgScore (bulkState (finishBatch be s))
     = (if 0 < countCompleted (counters s)
        then js_round (of_int (countTotalScore (counters s)) / of_nat (countCompleted (counters s)))
        else 0)"
  by (simp_all add: finishBatch_def setBulkState_def)

lemma batch_tally:
  assumes n: "0 < n" and urls: "parseBulkUrls bulkUrls \<noteq> []" and keys: "hasRequiredKeys e"
  shows "\<exists>s' m. executeBulkOptimization be e bulkUrls n st = Some (finishBatch be s')
           \<and> tallyMatches be (take m (makeJobs (idClock be) (parseBulkUrls bulkUrls))) (counters s')
           \<and> fieldsInSync s'
           \<and> ((\<forall>k. \<not> abortFlag be k)
                \<longrightarrow> length (makeJobs (idClock be) (parseBulkUrls bulkUrls)) \<le> m)"
proof -
  let ?js = "makeJobs (idClock be) (parseBulkUrls bulkUrls)"
  let ?idle = "\<lparr>bulkState = st, counters = zeroCounters, bulkTrace = []\<rparr>"
  let ?s0 = "setBulkState (\<lambda>prev. initialBulkState ?js n) ?idle"
  let ?I = "\<lambda>i s. tallyMatches be (take i ?js) (counters s) \<and> fieldsInSync s"
  have inv0: "?I 0 ?s0"
    by (simp add: tallyMatches_def fieldsInSync_def setBulkState_def zeroCounters_def
        initialBulkState_def)
  have step: "?I (i + n) (runWave be k (take n (drop i ?js)) s)"
    if "?I i s" "i < length ?js" "\<not> abortFlag be k" for k i s
  proof -
    have "tallyMatches be (take i ?js @ take n (drop i ?js))
            (counters (runWave be k (take n (drop i ?js)) s))
        \<and> fieldsInSync (runWave be k (take n (drop i ?js)) s)"
      using that by (intro runWave_tally) simp_all
    then show ?thesis by (simp add: take_add)
  qed
  obtain s' m where loop: "bulkLoop be n ?js 0 0 ?s0 = Some s'" and inv: "?I m s'"
    and all: "(\<forall>k. \<not> abortFlag be k) \<longrightarrow> length ?js \<le> m"
    using bulkLoop_rule [where I = ?I and js = ?js and be = be and k = 0 and i = 0 and n = n
        and s = ?s0, OF n inv0 step]
    by blast
  have "executeBulkOptimization be e bulkUrls n st = Some (finishBatch be s')"
    using urls keys loop by (simp add: executeBulkOptimization_def Let_def)
  then show ?thesis using inv all by blast
qed

text \<open>
  C3: the aggregates of a batch that runs are those of the jobs of the waves that ran, all
  jobs when the batch is not aborted: \<open>completed\<close> counts the jobs whose orchestrator call
  returned \<^verbatim>\<open>success=true\<close> with a score of at least 50, \<open>failed\<close> counts the others,
  \<open>totalWords\<close> sums and \<open>avgScore\<close> averages (rounded) over the completed ones only. A job that
  returned \<^verbatim>\<open>success=true\<close> with a score below 50 is counted as failed and marked with
  \<^verbatim>\<open>Quality check failed\<close>.
\<close>

theorem C3_bulk_classification:
  assumes n: "0 < n" and urls: "parseBulkUrls bulkUrls \<noteq> []" and keys: "hasRequiredKeys e"
  shows
    "(\<exists>s m. executeBulkOptimization be e bulkUrls n st = Some s \<and>
        (let ran = take m (makeJobs (idClock be) (parseBulkUrls bulkUrls));
             good = filter (batchSuccess be) ran
         in completed (bulkState s) = length good
            \<and> failed (bulkState s) = length (filter (\<lambda>j. \<not> batchSuccess be j) ran)
            \<and> totalWords (bulkState s) = sum_list (map (resultWords be) good)
            \<and> avgScore (bulkState s)
                = (if good = [] then 0
                   else js_round (of_int (sum_list (map (resultScore be) good))
                                  / of_nat (length good)))
            \<and> ((\<forall>k. \<not> abortFlag be k)
                  \<longrightarrow> ran = makeJobs (idClock be) (parseBulkUrls bulkUrls))))
     \<and> (\<forall>job. batchSuccess be job
            \<longleftrightarrow> (\<exists>r. outcomeOf be job = Settled r \<and> success r \<and> 50 \<le> score r))
     \<and> (\<forall>job r s0. outcomeOf be job = Settled r \<and> success r \<and> score r < 50 \<and> error r = None
            \<longrightarrow> countFailed (counters (settleJob be job s0)) = countFailed (counters s0) + 1
                \<and> countCompleted (counters (settleJob be job s0)) = countCompleted (counters s0)
                \<and> (\<forall>j \<in> set (jobs (bulkState (settleJob be job s0))).
                      jobId j = jobId job
                      \<longrightarrow> jobStatus j = Failed \<and> jobError j = Some ''Quality check failed''))"
proof -
  let ?js = "makeJobs (idClock be) (parseBulkUrls bulkUrls)"
  obtain s' m where run: "executeBulkOptimization be e bulkUrls n st = Some (finishBatch be s')"
    and t: "tallyMatches be (take m ?js) (counters s')" and f: "fieldsInSync s'"
    and all: "(\<forall>k. \<not> abortFlag be k) \<longrightarrow> length ?js \<le> m"
    using batch_tally [OF n urls keys, of be st] by blast
  let ?ran = "take m ?js"
  let ?good = "filter (batchSuccess be) ?ran"
  have agg: "completed (bulkState (finishBatch be s')) = length ?good
      \<and> failed (bulkState (finishBatch be s')) = length (filter (\<lambda>j. \<not> batchSuccess be j) ?ran)
      \<and> totalWords (bulkState (finishBatch be s')) = sum_list (map (resultWords be) ?good)
      \<and> avgScore (bulkState (finishBatch be s'))
          = (if ?good = [] then 0
             else js_round (of_int (sum_list (map (resultScore be) ?good)) / of_nat (length ?good)))
      \<and> ((\<forall>k. \<not> abortFlag be k) \<longrightarrow> ?ran = ?js)"
    using t f all by (auto simp: finishBatch_fields tallyMatches_def fieldsInSync_def)
  have first: "\<exists>s m. executeBulkOptimization be e bulkUrls n st = Some s \<and>
        (let ran = take m ?js; good = filter (batchSuccess be) ran
         in completed (bulkState s) = length good
            \<and> failed (bulkState s) = length (filter (\<lambda>j. \<not> batchSuccess be j) ran)
            \<and> totalWords (bulkState s) = sum_list (map (resultWords be) good)
            \<and> avgScore (bulkState s)
                = (if good = [] then 0
                   else js_round (of_int (sum_list (map (resultScore be) good))
                                  / of_nat (length good)))
            \<and> ((\<forall>k. \<not> abortFlag be k) \<longrightarrow> ran = ?js))"
    using run agg unfolding Let_def by blast
  have second: "\<forall>job. batchSuccess be job
            \<longleftrightarrow> (\<exists>r. outcomeOf be job = Settled r \<and> success r \<and> 50 \<le> score r)"
    by (simp add: batchSuccess_iff)
  have third: "\<forall>job r s0. outcomeOf be job = Settled r \<and> success r \<and> score r < 50 \<and> error r = None
            \<longrightarrow> countFailed (counters (settleJob be job s0)) = countFailed (counters s0) + 1
                \<and> countCompleted (counters (settleJob be job s0)) = countCompleted (counters s0)
                \<and> (\<forall>j \<in> set (jobs (bulkState (settleJob be job s0))).
                      jobId j = jobId job
                      \<longrightarrow> jobStatus j = Failed \<and> jobError j = Some ''Quality check failed'')"
    using settleJob_rejected by blast
  show ?thesis
    using first second third by blast
qed

lemma demo_jobs:
  "length (makeJobs (idClock demoBulkEnv) (parseBulkUrls demoBulkUrls)) = 5"
  by (simp add: makeJobs_def demoBulkUrls_def parseBulkUrls_firsts splitSeparators_def
      isSeparator_def isJsSpace_def trim_def startsWith_def)

lemma demo_outcomes:
  "batchSuccess demoBulkEnv = (\<lambda>j. True)" "resultWords demoBulkEnv = (\<lambda>j. 4200)"
  "resultScore demoBulkEnv = (\<lambda>j. 80)" "\<not> abortFlag demoBulkEnv k"
  by (simp_all add: batchSuccess_def resultWords_def resultScore_def demoBulkEnv_def
      passesQualityGate_def abortFlag_def fun_eq_iff)

lemma js_round_80: "js_round 80 = 80"
  using js_round_int_div [of 1 80] by simp

theorem C3_bulk_classification_witness:
  "(\<exists>s. executeBulkOptimization demoBulkEnv demoEnv demoBulkUrls 2 idleBulkState = Some s
        \<and> completed (bulkState s) = 5 \<and> failed (bulkState s) = 0
        \<and> avgScore (bulkState s) = 80 \<and> totalWords (bulkState s) = 21000)
   \<and> countFailed (counters
        (settleJob
           (demoBulkEnv\<lparr>outcomeOf :=
              (\<lambda>job. Settled \<lparr>success = True, score = 40, wordCount = 4200, error = None\<rparr>)\<rparr>)
           (hd (makeJobs (\<lambda>i. 0) [''https://a.com/1'']))
           \<lparr>bulkState = idleBulkState, counters = zeroCounters, bulkTrace = []\<rparr>)) = 1"
proof -
  let ?js = "makeJobs (idClock demoBulkEnv) (parseBulkUrls demoBulkUrls)"
  let ?low = "demoBulkEnv\<lparr>outcomeOf :=
              (\<lambda>job. Settled \<lparr>success = True, score = 40, wordCount = 4200, error = None\<rparr>)\<rparr>"
  have pre: "(0::nat) < 2" "parseBulkUrls demoBulkUrls \<noteq> []" "hasRequiredKeys demoEnv"
    using demo_jobs by (auto simp: hasRequiredKeys_def demoEnv_def truthy_def makeJobs_def)
  have five: "?js \<noteq> []"
    using demo_jobs by auto
  obtain s m where run: "executeBulkOptimization demoBulkEnv demoEnv demoBulkUrls 2 idleBulkState = Some s"
    and agg: "let ran = take m ?js; good = filter (batchSuccess demoBulkEnv) ran
         in completed (bulkState s) = length good
            \<and> failed (bulkState s) = length (filter (\<lambda>j. \<not> batchSuccess demoBulkEnv j) ran)
            \<and> totalWords (bulkState s) = sum_list (map (resultWords demoBulkEnv) good)
            \<and> avgScore (bulkState s)
                = (if good = [] then 0
                   else js_round (of_int (sum_list (map (resultScore demoBulkEnv) good))
                                  / of_nat (length good)))
            \<and> ((\<forall>k. \<not> abortFlag demoBulkEnv k) \<longrightarrow> ran = ?js)"
    using C3_bulk_classification [OF pre, of demoBulkEnv idleBulkState] by blast
  have ran: "take m ?js = ?js"
    using agg by (simp add: Let_def demo_outcomes)
  have "completed (bulkState s) = 5 \<and> failed (bulkState s) = 0
        \<and> avgScore (bulkState s) = 80 \<and> totalWords (bulkState s) = 21000"
    using agg five unfolding Let_def ran
    by (simp add: demo_outcomes demo_jobs sum_list_triv js_round_80)
  then have first: "\<exists>s. executeBulkOptimization demoBulkEnv demoEnv demoBulkUrls 2 idleBulkState = Some s
        \<and> completed (bulkState s) = 5 \<and> failed (bulkState s) = 0
        \<and> avgScore (bulkState s) = 80 \<and> totalWords (bulkState s) = 21000"
    using run by blast
  have low: "outcomeOf ?low job = Settled \<lparr>success = True, score = 40, wordCount = 4200, error = None\<rparr>"
    for job
    by simp
  have "countFailed (counters
        (settleJob ?low (hd (makeJobs (\<lambda>i. 0) [''https://a.com/1'']))
           \<lparr>bulkState = idleBulkState, counters = zeroCounters, bulkTrace = []\<rparr>))
      = countFailed (counters \<lparr>bulkState = idleBulkState, counters = zeroCounters, bulkTrace = []\<rparr>) + 1"
    using C3_bulk_classification [OF pre, of ?low idleBulkState] low
    by simp
  then show ?thesis
    using first by (simp add: zeroCounters_def)
qed

end
